theory Spec2Isabelle
  imports Complex_Main "HOL-Library.Log_Nat"
begin

section \<open>Fireworks canvas: data model\<close>

text \<open>
  The development embeds the component \<^verbatim>\<open>FireworksCanvas\<close> (the animation loop, the
  explosion generators, the shape normalisation and the finale) and the interfaces of
  \<^verbatim>\<open>types.ts\<close>.

  Numbers. A JavaScript number is an IEEE-754 binary64 value. The embedding uses the
  type \<^typ>\<open>real\<close>. In the two places where rounding decides a bound or a frame that a
  statement below is about, the computation is written as the program performs it,
  every literal and every operation rounded to binary64 by \<open>fl64\<close> (section "Binary64
  rounding"): the initial speed of a finale projectile, and the alpha of a particle in
  the frame loop. Everywhere else the arithmetic is exact. What is proved there about
  the structure of the data, about the branch that is taken and about comparisons of
  stored values does not depend on rounding; an equality between computed numbers is
  an equality of exact arithmetic, which binary64 meets up to rounding, and a bound is
  stated closed where rounding can reach it.

  Randomness. Every call of \<^verbatim>\<open>Math.random()\<close> reads the next element of a sequence
  \<open>rnd :: nat \<Rightarrow> real\<close>; a function that draws takes the sequence and the position of
  the next draw, and returns the position after its last draw. \<^verbatim>\<open>Math.random()\<close>
  returns a number in \<open>[0, 1)\<close>; theorems that need it assume it of the sequence.
\<close>

record point =
  pnt_x :: real
  pnt_y :: real

text \<open>\<^verbatim>\<open>interface Firework\<close>; an optional field is an \<open>option\<close>.\<close>

record firework =
  fw_x :: real
  fw_y :: real
  fw_targetX :: real
  fw_targetY :: real
  fw_speed :: real
  fw_angle :: real
  fw_hue :: real
  fw_brightness :: real
  fw_distanceToTarget :: real
  fw_distanceTraveled :: real
  fw_coordinates :: "point list"
  fw_coordinateCount :: nat
  fw_exploded :: bool
  fw_type :: "string option"
  fw_customColor :: "string option"
  fw_trailWidth :: "real option"

text \<open>\<^verbatim>\<open>interface FireworkParticle\<close>.\<close>

record particle =
  p_x :: real
  p_y :: real
  p_vx :: real
  p_vy :: real
  p_alpha :: real
  p_color :: string
  p_decay :: real
  p_useTrail :: "bool option"
  p_trail :: "point list option"
  p_size :: "real option"
  p_shimmer :: "bool option"
  p_shape :: "string option"

text \<open>
  Truthiness of an optional string (\<^verbatim>\<open>if (customColor)\<close>): \<^verbatim>\<open>undefined\<close> and the empty
  string are falsy. Truthiness of an optional boolean: \<^verbatim>\<open>undefined\<close> and \<^verbatim>\<open>false\<close> are
  falsy.
\<close>

fun truthy_str :: "string option \<Rightarrow> bool" where
  "truthy_str None = False"
| "truthy_str (Some s) = (s \<noteq> [])"

fun truthy_bool :: "bool option \<Rightarrow> bool" where
  "truthy_bool None = False"
| "truthy_bool (Some b) = b"

text \<open>\<^verbatim>\<open>const random = (min, max) => Math.random() * (max - min) + min\<close>, on the draw \<open>r\<close>.\<close>

definition random :: "real \<Rightarrow> real \<Rightarrow> real \<Rightarrow> real" where
  "random r mn mx = r * (mx - mn) + mn"

section \<open>Binary64 rounding\<close>

text \<open>
  \<open>rne y\<close> is the integer nearest to \<open>y\<close>, the even one of the two when \<open>y\<close> lies half-way
  between two integers. \<open>fl64 x\<close> is the binary64 number nearest to \<open>x\<close>, ties to even:
  what a binary64 operation returns when its exact result is \<open>x\<close>, and what a decimal
  literal \<open>x\<close> of the source denotes. On the scale on which the smallest positive
  binary64 number \<open>2\<^sup>-\<^sup>1\<^sup>0\<^sup>7\<^sup>4\<close> is 1, \<open>x\<close> is rounded to a multiple of \<open>2\<^sup>s\<close>, where \<open>s\<close> is the
  number of bits that the integer part of \<open>\<bar>x\<bar>\<close> has beyond the 53 bits of a significand
  (\<open>s = 0\<close> for a subnormal \<open>x\<close>). The numbers of this development stay far below the
  overflow threshold \<open>2\<^sup>1\<^sup>0\<^sup>2\<^sup>4\<close>, which is not modelled.
\<close>

definition rne :: "real \<Rightarrow> int" where
  "rne y =
    (let n = \<lfloor>y\<rfloor>; f = y - of_int n
     in if f < 1 / 2 then n else if 1 / 2 < f then n + 1 else if even n then n else n + 1)"

definition fl64 :: "real \<Rightarrow> real" where
  "fl64 x =
    (let s = nat (bitlen \<lfloor>\<bar>x\<bar> * 2 ^ 1074\<rfloor> - 53)
     in of_int (rne (x * 2 ^ 1074 / 2 ^ s)) * 2 ^ s / 2 ^ 1074)"

section \<open>The sequential selector\<close>

definition FIREWORK_TYPES :: "string list" where
  "FIREWORK_TYPES =
    [''standard'', ''cosmic'', ''streamer'', ''palm'', ''ring'', ''heart'', ''glitter'',
     ''galaxy'', ''gold_flower'', ''strobe_flower'', ''violet_burst'', ''floral_burst'',
     ''cyan_flower'', ''neon_flower'', ''love_burst'', ''tree_burst'']"

text \<open>
  \<^verbatim>\<open>getNextFireworkType\<close> on the index \<^verbatim>\<open>currentFireworkIndexRef.current\<close>: the type read
  (an index outside the array reads \<^verbatim>\<open>undefined\<close>, here \<open>None\<close>) and the new index.
\<close>

definition getNextFireworkType :: "nat \<Rightarrow> string option \<times> nat" where
  "getNextFireworkType idx =
    (if idx < length FIREWORK_TYPES then Some (FIREWORK_TYPES ! idx) else None,
     (idx + 1) mod length FIREWORK_TYPES)"

text \<open>The types returned by \<open>n\<close> consecutive calls that start at index \<open>idx\<close>.\<close>

fun selections :: "nat \<Rightarrow> nat \<Rightarrow> string option list" where
  "selections 0 idx = []"
| "selections (Suc n) idx =
    fst (getNextFireworkType idx) # selections n (snd (getNextFireworkType idx))"

section \<open>Shape normalisation\<close>

text \<open>
  \<^verbatim>\<open>normalizePath\<close>. The bounding box is accumulated by \<^verbatim>\<open>points.forEach\<close> from
  \<^verbatim>\<open>Infinity\<close> and \<^verbatim>\<open>-Infinity\<close>. The function returns before the loop on the empty array,
  and \<^verbatim>\<open>Math.min(Infinity, v) = v\<close>, so the accumulator after the first point is that
  point's coordinate: \<open>minOf\<close> and \<open>maxOf\<close> start there and run over the remaining points.
\<close>

definition minOf :: "(point \<Rightarrow> real) \<Rightarrow> point list \<Rightarrow> real" where
  "minOf f points = fold (\<lambda>p m. min m (f p)) (tl points) (f (hd points))"

definition maxOf :: "(point \<Rightarrow> real) \<Rightarrow> point list \<Rightarrow> real" where
  "maxOf f points = fold (\<lambda>p m. max m (f p)) (tl points) (f (hd points))"

text \<open>\<^verbatim>\<open>Math.max(width, height) || 1\<close>: the number 0 is falsy.\<close>

definition maxDim :: "point list \<Rightarrow> real" where
  "maxDim points =
    (let width = maxOf pnt_x points - minOf pnt_x points;
         height = maxOf pnt_y points - minOf pnt_y points;
         m = max width height
     in if m = 0 then 1 else m)"

definition normalizePath :: "point list \<Rightarrow> point list" where
  "normalizePath points =
    (if length points = 0 then []
     else
       let minX = minOf pnt_x points; maxX = maxOf pnt_x points;
           minY = minOf pnt_y points; maxY = maxOf pnt_y points;
           centerX = (minX + maxX) / 2; centerY = (minY + maxY) / 2;
           scaleFactor = 2 / maxDim points
       in map (\<lambda>p. \<lparr>pnt_x = (pnt_x p - centerX) * scaleFactor,
                     pnt_y = (pnt_y p - centerY) * scaleFactor\<rparr>) points)"

text \<open>\<^verbatim>\<open>getCapturedShape\<close>: all stroke points, or \<^verbatim>\<open>null\<close> when there are fewer than five.\<close>

definition getCapturedShape :: "point list list \<Rightarrow> point list \<Rightarrow> point list option" where
  "getCapturedShape completedPaths currentPath =
    (let allPoints = concat completedPaths @ currentPath
     in if length allPoints < 5 then None else Some (normalizePath allPoints))"

text \<open>
  For the statements: a point set with every coordinate multiplied by \<open>c\<close>, and the
  four corners of the square \<open>[-1, 1] \<times> [-1, 1]\<close>.
\<close>

definition scalePoints :: "real \<Rightarrow> point list \<Rightarrow> point list" where
  "scalePoints c points = map (\<lambda>p. \<lparr>pnt_x = c * pnt_x p, pnt_y = c * pnt_y p\<rparr>) points"

definition unitSquare :: "point list" where
  "unitSquare = [\<lparr>pnt_x = -1, pnt_y = -1\<rparr>, \<lparr>pnt_x = 1, pnt_y = -1\<rparr>,
                 \<lparr>pnt_x = 1, pnt_y = 1\<rparr>, \<lparr>pnt_x = -1, pnt_y = 1\<rparr>]"

section \<open>Launching projectiles\<close>

text \<open>
  \<^verbatim>\<open>Math.atan2(y, x)\<close>: the angle in \<open>(-\<pi>, \<pi>]\<close> of the point \<open>(x, y)\<close> (signed zeros are not
  distinguished).
\<close>

definition atan2 :: "real \<Rightarrow> real \<Rightarrow> real" where
  "atan2 y x =
    (if 0 < x then arctan (y / x)
     else if x < 0 then (if 0 \<le> y then arctan (y / x) + pi else arctan (y / x) - pi)
     else if 0 < y then pi / 2
     else if y < 0 then - pi / 2
     else 0)"

text \<open>
  \<^verbatim>\<open>launchFirework(sx, sy, tx, ty, type = 'standard')\<close> appends one projectile; the hue
  takes one draw. \<^verbatim>\<open>Array(3).fill(p)\<close> is three references to one point, which is never
  written.
\<close>

definition launchFirework ::
  "(nat \<Rightarrow> real) \<Rightarrow> nat \<Rightarrow> firework list \<Rightarrow> real \<Rightarrow> real \<Rightarrow> real \<Rightarrow> real
    \<Rightarrow> string option \<Rightarrow> firework list \<times> nat" where
  "launchFirework rnd k fireworks sx sy tx ty typeArg =
    (let type = (case typeArg of None \<Rightarrow> ''standard'' | Some t \<Rightarrow> t);
         angle = atan2 (ty - sy) (tx - sx);
         distance = sqrt ((tx - sx)\<^sup>2 + (ty - sy)\<^sup>2)
     in (fireworks @
          [\<lparr>fw_x = sx, fw_y = sy, fw_targetX = tx, fw_targetY = ty,
            fw_speed = 2, fw_angle = angle,
            fw_hue = of_int \<lfloor>rnd k * 360\<rfloor>, fw_brightness = 100,
            fw_distanceToTarget = distance, fw_distanceTraveled = 0,
            fw_coordinates = replicate 3 \<lparr>pnt_x = sx, pnt_y = sy\<rparr>, fw_coordinateCount = 3,
            fw_exploded = False, fw_type = Some type, fw_customColor = None,
            fw_trailWidth = None\<rparr>],
         k + 1))"

section \<open>The finale\<close>

definition finaleColor :: "real \<Rightarrow> string" where
  "finaleColor t =
    (if t < 0.15 then ''hsl(200, 100%, 60%)''
     else if t < 0.3 then ''hsl(170, 100%, 50%)''
     else if t < 0.45 then ''hsl(120, 100%, 60%)''
     else if t < 0.6 then ''hsl(60, 100%, 60%)''
     else if t < 0.75 then ''hsl(0, 100%, 65%)''
     else if t < 0.9 then ''hsl(300, 100%, 60%)''
     else ''hsl(270, 100%, 65%)'')"

text \<open>
  The body of the loop of \<^verbatim>\<open>triggerFinale\<close> for the index \<open>i\<close>, on a window of the given
  inner width and height; iteration \<open>i\<close> takes draw \<open>k + i\<close>. The velocity
  \<^verbatim>\<open>8 + Math.random() * 3\<close> is one binary64 multiplication and one binary64 addition.
\<close>

definition finaleRay :: "real \<Rightarrow> real \<Rightarrow> (nat \<Rightarrow> real) \<Rightarrow> nat \<Rightarrow> nat \<Rightarrow> firework" where
  "finaleRay width height rnd k i =
    (let centerX = width / 2;
         bottomY = height;
         rayCount = 60;
         angleStart = - pi * 0.9;
         angleEnd = - pi * 0.1;
         angleStep = (angleEnd - angleStart) / rayCount;
         angle = angleStart + (real i * angleStep);
         t = real i / rayCount;
         color = finaleColor t;
         velocity = fl64 (8 + fl64 (rnd (k + i) * 3))
     in \<lparr>fw_x = centerX, fw_y = bottomY,
         fw_targetX = centerX + cos angle * height * 0.8,
         fw_targetY = bottomY + sin angle * height * 0.8,
         fw_speed = velocity, fw_angle = angle, fw_hue = 0, fw_brightness = 100,
         fw_distanceToTarget = height * 0.8, fw_distanceTraveled = 0,
         fw_coordinates = replicate 5 \<lparr>pnt_x = centerX, pnt_y = bottomY\<rparr>,
         fw_coordinateCount = 5,
         fw_exploded = False, fw_type = Some ''streamer'', fw_customColor = Some color,
         fw_trailWidth = Some 3\<rparr>)"

definition triggerFinale ::
  "real \<Rightarrow> real \<Rightarrow> (nat \<Rightarrow> real) \<Rightarrow> nat \<Rightarrow> firework list \<Rightarrow> firework list \<times> nat" where
  "triggerFinale width height rnd k fireworks =
    (fireworks @ map (finaleRay width height rnd k) [0..<60], k + 60)"

text \<open>The contract of \<^verbatim>\<open>Math.random()\<close>: every draw is in \<open>[0, 1)\<close>.\<close>

definition unitDraws :: "(nat \<Rightarrow> real) \<Rightarrow> bool" where
  "unitDraws rnd = (\<forall>n. 0 \<le> rnd n \<and> rnd n < 1)"

section \<open>Colour palettes\<close>

definition STANDARD_COLORS :: "string list" where
  "STANDARD_COLORS =
    [''255, 182, 193'', ''216, 191, 216'', ''176, 196, 222'',
     ''143, 188, 143'', ''233, 150, 122'', ''176, 224, 230'']"

definition COSMIC_RAY_COLORS :: "string list" where
  "COSMIC_RAY_COLORS = [''255, 255, 255'', ''224, 255, 255'']"

definition STREAMER_COLORS :: "string list" where
  "STREAMER_COLORS =
    [''255, 250, 250'', ''224, 255, 255'', ''192, 192, 192'', ''255, 182, 193'',
     ''135, 206, 250'']"

definition NEON_COLORS :: "string list" where
  "NEON_COLORS = [''255, 20, 147'', ''0, 255, 127'', ''0, 255, 255'', ''138, 43, 226'']"

definition ICE_COLORS :: "string list" where
  "ICE_COLORS = [''240, 255, 255'', ''224, 255, 255'', ''175, 238, 238'']"

text \<open>
  \<^verbatim>\<open>PALETTE[Math.floor(Math.random() * PALETTE.length)]\<close> on the draw \<open>r\<close>. A draw in
  \<open>[0, 1)\<close> keeps the index inside the palette.
\<close>

definition pick :: "string list \<Rightarrow> real \<Rightarrow> string" where
  "pick palette r = palette ! nat \<lfloor>r * real (length palette)\<rfloor>"

section \<open>The explosion generators\<close>

text \<open>
  Each branch of \<^verbatim>\<open>createExplosion\<close> is a function of the draw sequence, the position
  \<open>k\<close> of the next draw and the origin; it returns the particles it pushes, in order,
  and the position after its last draw. A \<^verbatim>\<open>for\<close> loop with a fixed number of draws per
  iteration is the \<open>map\<close> of its body over the indices; the draws of iteration \<open>i\<close> are
  numbered in the order in which JavaScript evaluates the calls of \<^verbatim>\<open>Math.random()\<close>.
\<close>

text \<open>The drone display: one particle for each point of the custom shape.\<close>

definition droneParticle :: "(nat \<Rightarrow> real) \<Rightarrow> nat \<Rightarrow> real \<Rightarrow> real \<Rightarrow> point \<Rightarrow> particle" where
  "droneParticle rnd k x y p =
    (let scale = 60;
         rand = rnd k;
         color = (if rand > 0.8 then ''#FFFFFF'' else if rand > 0.5 then ''#1E90FF''
                  else ''#00FFFF'')
     in \<lparr>p_x = x + pnt_x p * scale, p_y = y + pnt_y p * scale,
         p_vx = (rnd (k + 1) - 0.5) * 0.15, p_vy = (rnd (k + 2) - 0.5) * 0.15,
         p_alpha = 1, p_color = color, p_decay = random (rnd (k + 3)) 0.04 0.06,
         p_useTrail = Some False, p_trail = None,
         p_size = Some (if rand > 0.9 then 1.5 else 0.8),
         p_shimmer = Some True, p_shape = None\<rparr>)"

definition droneDisplay ::
  "point list \<Rightarrow> (nat \<Rightarrow> real) \<Rightarrow> nat \<Rightarrow> real \<Rightarrow> real \<Rightarrow> particle list \<times> nat" where
  "droneDisplay customShape rnd k x y =
    (map (\<lambda>i. droneParticle rnd (k + 4 * i) x y (customShape ! i)) [0..<length customShape],
     k + 4 * length customShape)"

text \<open>The burst of a projectile that carries an override colour.\<close>

definition overrideBurst ::
  "string \<Rightarrow> (nat \<Rightarrow> real) \<Rightarrow> nat \<Rightarrow> real \<Rightarrow> real \<Rightarrow> particle list \<times> nat" where
  "overrideBurst customColor rnd k x y =
    (map (\<lambda>i. \<lparr>p_x = x, p_y = y,
                 p_vx = (rnd (k + 2 * i) - 0.5) * 3, p_vy = (rnd (k + 2 * i + 1) - 0.5) * 3,
                 p_alpha = 1, p_color = customColor, p_decay = 0.1,
                 p_useTrail = Some False, p_trail = None, p_size = Some 2,
                 p_shimmer = None, p_shape = None\<rparr>) [0..<10],
     k + 20)"

definition treeBurst :: "(nat \<Rightarrow> real) \<Rightarrow> nat \<Rightarrow> real \<Rightarrow> real \<Rightarrow> particle list \<times> nat" where
  "treeBurst rnd k x y =
    (let treeWidth = 62; treeHeight = 55;
         trunkCount = 60;
         trunk = map (\<lambda>i.
           let t = real i / real trunkCount;
               yPos = y + (t * treeHeight * 0.7);
               xWag = sin (t * pi * 4) * 2;
               spread = (1 - t) * 3.5;
               xPos = x + xWag + (rnd (k + 5 * i) - 0.5) * spread
           in \<lparr>p_x = xPos, p_y = yPos,
               p_vx = (rnd (k + 5 * i + 1) - 0.5) * 0.2, p_vy = (rnd (k + 5 * i + 2) - 0.5) * 0.2,
               p_alpha = 1,
               p_color = (if rnd (k + 5 * i + 3) > 0.6 then ''#00BFFF'' else ''#E0FFFF''),
               p_decay = random (rnd (k + 5 * i + 4)) 0.04 0.06,
               p_useTrail = Some False, p_trail = None, p_size = Some 0.9,
               p_shimmer = Some True, p_shape = None\<rparr>) [0..<trunkCount];
         k1 = k + 5 * trunkCount;
         rootY = y + treeHeight * 0.7;
         rootCount = 40;
         roots = map (\<lambda>i.
           let angle = pi / 2 + (rnd (k1 + 3 * i) - 0.5) * 1.5;
               len = rnd (k1 + 3 * i + 1) * 12;
               spiralX = cos angle * len;
               spiralY = sin angle * len
           in \<lparr>p_x = x + spiralX, p_y = rootY + spiralY,
               p_vx = 0, p_vy = 0,
               p_alpha = 1, p_color = ''#00BFFF'',
               p_decay = random (rnd (k1 + 3 * i + 2)) 0.04 0.06,
               p_useTrail = None, p_trail = None, p_size = Some 0.8,
               p_shimmer = Some True, p_shape = None\<rparr>) [0..<rootCount];
         k2 = k1 + 3 * rootCount;
         leafCount = 350;
         canopy = map (\<lambda>i.
           let angle = pi + (rnd (k2 + 6 * i) * pi);
               rNorm = rnd (k2 + 6 * i + 1) powr 0.6;
               r = rNorm * treeWidth * 0.8;
               lx = x + r * cos angle;
               ly = y + r * sin angle * 0.75;
               rand = rnd (k2 + 6 * i + 2);
               color = (if rand > 0.8 then ''#FFFFFF'' else if rand > 0.5 then ''#1E90FF''
                        else ''#00FFFF'')
           in \<lparr>p_x = lx, p_y = ly,
               p_vx = (rnd (k2 + 6 * i + 3) - 0.5) * 0.3, p_vy = (rnd (k2 + 6 * i + 4) - 0.5) * 0.3,
               p_alpha = 1, p_color = color,
               p_decay = random (rnd (k2 + 6 * i + 5)) 0.04 0.07,
               p_useTrail = Some False, p_trail = None,
               p_size = Some (if rand > 0.9 then 1.2 else 0.7),
               p_shimmer = Some True, p_shape = None\<rparr>) [0..<leafCount]
     in (trunk @ roots @ canopy, k2 + 6 * leafCount))"

definition loveBurst :: "(nat \<Rightarrow> real) \<Rightarrow> nat \<Rightarrow> real \<Rightarrow> real \<Rightarrow> particle list \<times> nat" where
  "loveBurst rnd k x y =
    (let count = 120
     in (map (\<lambda>i.
           let angle = rnd (k + 3 * i) * pi * 2;
               speed = rnd (k + 3 * i + 1) * 6 + 2;
               dist = speed / 8;
               color = (if dist < 0.4 then ''#FFFFE0'' else if dist < 0.7 then ''#FF1493''
                        else ''#EE82EE'')
           in \<lparr>p_x = x, p_y = y,
               p_vx = cos angle * speed, p_vy = sin angle * speed,
               p_alpha = 1, p_color = color,
               p_decay = random (rnd (k + 3 * i + 2)) 0.04 0.06,
               p_useTrail = Some True, p_trail = None, p_size = Some 2.5,
               p_shimmer = Some True, p_shape = Some ''heart''\<rparr>) [0..<count],
         k + 3 * count))"

definition neonFlower :: "(nat \<Rightarrow> real) \<Rightarrow> nat \<Rightarrow> real \<Rightarrow> real \<Rightarrow> particle list \<times> nat" where
  "neonFlower rnd k x y =
    (let petals = 5; pointsPerPetal = 50; baseSize = 8.5;
         outer = map (\<lambda>i.
           let theta = (pi * 2 * real i) / real (petals * pointsPerPetal);
               rNorm = \<bar>cos (2.5 * theta)\<bar> powr 0.6;
               r = rNorm * baseSize
           in \<lparr>p_x = x, p_y = y, p_vx = r * cos theta, p_vy = r * sin theta,
               p_alpha = 1, p_color = ''#FF4500'',
               p_decay = random (rnd (k + i)) 0.04 0.06,
               p_useTrail = Some True, p_trail = None, p_size = Some 2,
               p_shimmer = Some True, p_shape = None\<rparr>) [0..<petals * pointsPerPetal];
         k1 = k + petals * pointsPerPetal;
         inner = map (\<lambda>i.
           let theta = (pi * 2 * real i) / real (petals * (pointsPerPetal div 2));
               rNorm = \<bar>cos (2.5 * theta)\<bar> powr 0.6;
               r = rNorm * baseSize * 0.65
           in \<lparr>p_x = x, p_y = y, p_vx = r * cos theta, p_vy = r * sin theta,
               p_alpha = 1, p_color = ''#FFFFE0'',
               p_decay = random (rnd (k1 + i)) 0.05 0.07,
               p_useTrail = Some False, p_trail = None, p_size = Some 1.6,
               p_shimmer = Some True, p_shape = None\<rparr>) [0..<petals * (pointsPerPetal div 2)];
         k2 = k1 + petals * (pointsPerPetal div 2);
         rays = map (\<lambda>i.
           let angle = (pi * 2 * real i) / 20;
               speed = random (rnd (k2 + i)) 2 5
           in \<lparr>p_x = x, p_y = y, p_vx = cos angle * speed, p_vy = sin angle * speed,
               p_alpha = 1, p_color = ''#E0FFFF'', p_decay = 0.05,
               p_useTrail = Some True, p_trail = None, p_size = Some 1.8,
               p_shimmer = Some True, p_shape = None\<rparr>) [0..<20]
     in (outer @ inner @ rays, k2 + 20))"

definition cyanFlower :: "(nat \<Rightarrow> real) \<Rightarrow> nat \<Rightarrow> real \<Rightarrow> real \<Rightarrow> particle list \<times> nat" where
  "cyanFlower rnd k x y =
    (map (\<lambda>i.
       let angle = rnd (k + 5 * i) * pi * 2;
           dist = rnd (k + 5 * i + 1) powr 0.5;
           speed = (5 + rnd (k + 5 * i + 2) * 6) * dist;
           color = (if dist < 0.2 then ''rgb(255, 255, 255)''
                    else if dist < 0.6 then ''rgb(0, 255, 255)'' else ''rgb(30, 144, 255)'')
       in \<lparr>p_x = x, p_y = y, p_vx = cos angle * speed, p_vy = sin angle * speed,
           p_alpha = 1, p_color = color,
           p_decay = random (rnd (k + 5 * i + 3)) 0.04 0.06,
           p_useTrail = Some True, p_trail = None,
           p_size = Some (rnd (k + 5 * i + 4) * 2.5 + 1),
           p_shimmer = Some True, p_shape = None\<rparr>) [0..<300],
     k + 5 * 300)"

definition floralBurst :: "(nat \<Rightarrow> real) \<Rightarrow> nat \<Rightarrow> real \<Rightarrow> real \<Rightarrow> particle list \<times> nat" where
  "floralBurst rnd k x y =
    (let petalCount = 5;
         petalsPart = map (\<lambda>i.
           let angle = rnd (k + 4 * i) * pi * 2;
               petalShape = \<bar>sin (angle * petalCount * 0.5)\<bar> powr 0.4;
               dist = rnd (k + 4 * i + 1) * 0.85 + 0.15;
               speed = (4 + rnd (k + 4 * i + 2) * 5) * petalShape * dist;
               color = (if dist < 0.35 then ''#FFF59D'' else if dist < 0.65 then ''#FF7043''
                        else if dist < 0.85 then ''#E91E63'' else ''#9C27B0'')
           in \<lparr>p_x = x, p_y = y, p_vx = cos angle * speed, p_vy = sin angle * speed,
               p_alpha = 1, p_color = color,
               p_decay = random (rnd (k + 4 * i + 3)) 0.04 0.07,
               p_useTrail = Some True, p_trail = None, p_size = Some 2,
               p_shimmer = Some True, p_shape = None\<rparr>) [0..<350];
         k1 = k + 4 * 350;
         highlights = map (\<lambda>i.
           let angle = rnd (k1 + 2 * i) * pi * 2;
               speed = rnd (k1 + 2 * i + 1) * 2.5
           in \<lparr>p_x = x, p_y = y, p_vx = cos angle * speed, p_vy = sin angle * speed,
               p_alpha = 1, p_color = ''#FFFFFF'', p_decay = 0.09,
               p_useTrail = Some False, p_trail = None, p_size = Some 1.8,
               p_shimmer = None, p_shape = None\<rparr>) [0..<60]
     in (petalsPart @ highlights, k1 + 2 * 60))"

definition violetBurst :: "(nat \<Rightarrow> real) \<Rightarrow> nat \<Rightarrow> real \<Rightarrow> real \<Rightarrow> particle list \<times> nat" where
  "violetBurst rnd k x y =
    (concat (map (\<lambda>i.
       let t = real i / 120;
           a = t * pi * 2;
           angle = a + (rnd (k + 4 * i) * 0.05);
           speed = random (rnd (k + 4 * i + 1)) 5 7.5;
           color = (if rnd (k + 4 * i + 2) > 0.3 then ''rgb(138, 43, 226)''
                    else ''rgb(180, 130, 255)'');
           coreSpeed = speed * 0.3
       in \<lparr>p_x = x, p_y = y, p_vx = cos angle * speed, p_vy = sin angle * speed,
           p_alpha = 1, p_color = color,
           p_decay = random (rnd (k + 4 * i + 3)) 0.05 0.07,
           p_useTrail = Some True, p_trail = None, p_size = Some 2,
           p_shimmer = Some True, p_shape = None\<rparr>
          # (if i mod 3 = 0
             then [\<lparr>p_x = x, p_y = y,
                    p_vx = cos angle * coreSpeed, p_vy = sin angle * coreSpeed,
                    p_alpha = 1, p_color = ''rgb(230, 230, 255)'', p_decay = 0.08,
                    p_useTrail = Some False, p_trail = None, p_size = Some 2.5,
                    p_shimmer = None, p_shape = None\<rparr>]
             else [])) [0..<120]),
     k + 4 * 120)"

definition strobeFlower :: "(nat \<Rightarrow> real) \<Rightarrow> nat \<Rightarrow> real \<Rightarrow> real \<Rightarrow> particle list \<times> nat" where
  "strobeFlower rnd k x y =
    (let rayCount = 40;
         rays = concat (map (\<lambda>i.
           let angle = (pi * 2 * real i) / real rayCount;
               speed = 7
           in \<lparr>p_x = x, p_y = y, p_vx = cos angle * speed, p_vy = sin angle * speed,
               p_alpha = 1, p_color = ''rgb(255, 215, 0)'', p_decay = 0.05,
               p_useTrail = Some True, p_trail = None, p_size = Some 1.8,
               p_shimmer = None, p_shape = None\<rparr>
              # map (\<lambda>j.
                  let sVar = speed * (0.9 + rnd (k + 9 * i + 3 * j) * 0.2);
                      aVar = angle + (rnd (k + 9 * i + 3 * j + 1) - 0.5) * 0.15
                  in \<lparr>p_x = x, p_y = y, p_vx = cos aVar * sVar, p_vy = sin aVar * sVar,
                      p_alpha = 1, p_color = ''rgb(255, 255, 240)'',
                      p_decay = random (rnd (k + 9 * i + 3 * j + 2)) 0.06 0.1,
                      p_useTrail = Some False, p_trail = None, p_size = Some 2.2,
                      p_shimmer = Some True, p_shape = None\<rparr>) [0..<3]) [0..<rayCount]);
         core = map (\<lambda>i.
           let angle = (pi * 2 * real i) / 24;
               speed = 3
           in \<lparr>p_x = x, p_y = y, p_vx = cos angle * speed, p_vy = sin angle * speed,
               p_alpha = 1, p_color = ''rgb(65, 105, 225)'', p_decay = 0.06,
               p_useTrail = Some False, p_trail = None, p_size = Some 2.5,
               p_shimmer = None, p_shape = None\<rparr>) [0..<24]
     in (rays @ core, k + 9 * rayCount))"

definition goldFlower :: "(nat \<Rightarrow> real) \<Rightarrow> nat \<Rightarrow> real \<Rightarrow> real \<Rightarrow> particle list \<times> nat" where
  "goldFlower rnd k x y =
    (let outer = map (\<lambda>i.
           let angle = (pi * 2 * real i) / 100 + (rnd (k + 3 * i) * 0.1);
               speed = random (rnd (k + 3 * i + 1)) 6 9
           in \<lparr>p_x = x, p_y = y, p_vx = cos angle * speed, p_vy = sin angle * speed,
               p_alpha = 1, p_color = ''#FFC107'',
               p_decay = random (rnd (k + 3 * i + 2)) 0.045 0.07,
               p_useTrail = Some True, p_trail = None, p_size = Some 2,
               p_shimmer = None, p_shape = None\<rparr>) [0..<100];
         k1 = k + 3 * 100;
         inner = map (\<lambda>i.
           let angle = (pi * 2 * real i) / 50;
               speed = 3.5
           in \<lparr>p_x = x, p_y = y, p_vx = cos angle * speed, p_vy = sin angle * speed,
               p_alpha = 1,
               p_color = (if rnd (k1 + 2 * i) > 0.5 then ''#E0F7FA'' else ''#80DEEA''),
               p_decay = random (rnd (k1 + 2 * i + 1)) 0.06 0.09,
               p_useTrail = Some False, p_trail = None, p_size = Some 2.5,
               p_shimmer = Some True, p_shape = None\<rparr>) [0..<50]
     in (outer @ inner, k1 + 2 * 50))"

definition galaxy :: "(nat \<Rightarrow> real) \<Rightarrow> nat \<Rightarrow> real \<Rightarrow> real \<Rightarrow> particle list \<times> nat" where
  "galaxy rnd k x y =
    (let arms = 3;
         spiral = map (\<lambda>i.
           let t = real i / 80;
               speed = 1 + (t * 5);
               angle = (t * pi * 4) + (real (i mod arms) * (pi * 2 / real arms))
           in \<lparr>p_x = x, p_y = y, p_vx = cos angle * speed, p_vy = sin angle * speed,
               p_alpha = 1, p_color = (if t < 0.3 then ''255, 255, 255'' else ''0, 255, 255''),
               p_decay = random (rnd (k + i)) 0.06 0.08,
               p_useTrail = Some True, p_trail = None, p_size = Some 1.5,
               p_shimmer = None, p_shape = None\<rparr>) [0..<80];
         k1 = k + 80;
         halo = map (\<lambda>i.
           let angle = (pi * 2 * real i) / 60;
               speed = random (rnd (k1 + 2 * i)) 6 8
           in \<lparr>p_x = x, p_y = y, p_vx = cos angle * speed, p_vy = sin angle * speed,
               p_alpha = 1, p_color = ''138, 43, 226'',
               p_decay = random (rnd (k1 + 2 * i + 1)) 0.07 0.09,
               p_useTrail = Some False, p_trail = None, p_size = Some 2.2,
               p_shimmer = Some True, p_shape = None\<rparr>) [0..<60]
     in (spiral @ halo, k1 + 2 * 60))"

definition heartBurst :: "(nat \<Rightarrow> real) \<Rightarrow> nat \<Rightarrow> real \<Rightarrow> real \<Rightarrow> particle list \<times> nat" where
  "heartBurst rnd k x y =
    (let color = NEON_COLORS ! 0; count = 60
     in (map (\<lambda>i.
           let t = (pi * 2 * real i) / real count;
               hx = 16 * (sin t) ^ 3;
               hy = - (13 * cos t - 5 * cos (2 * t) - 2 * cos (3 * t) - cos (4 * t));
               scale = random (rnd (k + 2 * i)) 0.15 0.25
           in \<lparr>p_x = x, p_y = y, p_vx = hx * scale, p_vy = hy * scale,
               p_alpha = 1, p_color = color,
               p_decay = random (rnd (k + 2 * i + 1)) 0.05 0.07,
               p_useTrail = Some True, p_trail = None, p_size = Some 1.8,
               p_shimmer = Some True, p_shape = None\<rparr>) [0..<count],
         k + 2 * count))"

definition ringBurst :: "(nat \<Rightarrow> real) \<Rightarrow> nat \<Rightarrow> real \<Rightarrow> real \<Rightarrow> particle list \<times> nat" where
  "ringBurst rnd k x y =
    (let color = pick ICE_COLORS (rnd k); count = 50
     in (map (\<lambda>i.
           let angle = (pi * 2 * real i) / real count;
               speed = 4
           in \<lparr>p_x = x, p_y = y, p_vx = cos angle * speed, p_vy = sin angle * speed,
               p_alpha = 1, p_color = color,
               p_decay = random (rnd (k + 1 + i)) 0.05 0.07,
               p_useTrail = Some False, p_trail = None, p_size = Some 2,
               p_shimmer = None, p_shape = None\<rparr>) [0..<count],
         k + 1 + count))"

definition glitterBurst :: "(nat \<Rightarrow> real) \<Rightarrow> nat \<Rightarrow> real \<Rightarrow> real \<Rightarrow> particle list \<times> nat" where
  "glitterBurst rnd k x y =
    (let color = (if rnd k > 0.5 then ''255, 255, 255'' else ''175, 238, 238''); count = 100
     in (map (\<lambda>i.
           let angle = random (rnd (k + 1 + 3 * i)) 0 (pi * 2);
               speed = random (rnd (k + 1 + 3 * i + 1)) 1 6
           in \<lparr>p_x = x, p_y = y, p_vx = cos angle * speed, p_vy = sin angle * speed,
               p_alpha = 1, p_color = color,
               p_decay = random (rnd (k + 1 + 3 * i + 2)) 0.08 0.12,
               p_useTrail = Some False, p_trail = None, p_size = Some 1.5,
               p_shimmer = Some True, p_shape = None\<rparr>) [0..<count],
         k + 1 + 3 * count))"

definition palmBurst :: "(nat \<Rightarrow> real) \<Rightarrow> nat \<Rightarrow> real \<Rightarrow> real \<Rightarrow> particle list \<times> nat" where
  "palmBurst rnd k x y =
    (let randTheme = rnd k;
         theme = (if randTheme > 0.55 then ''BLUE'' else if randTheme > 0.15 then ''SILVER''
                  else ''GOLD'');
         baseColor = (if theme = ''BLUE'' then ''65, 105, 225''
                      else if theme = ''SILVER'' then ''192, 192, 192'' else ''255, 165, 0'');
         accentColor = (if theme = ''BLUE'' then ''224, 255, 255''
                        else if theme = ''SILVER'' then ''255, 250, 250'' else ''255, 215, 0'')
     in (map (\<lambda>i.
           let angle = random (rnd (k + 1 + 4 * i)) 0 (pi * 2);
               speed = random (rnd (k + 1 + 4 * i + 1)) 4 9;
               color = (if rnd (k + 1 + 4 * i + 2) > 0.3 then baseColor else accentColor)
           in \<lparr>p_x = x, p_y = y, p_vx = cos angle * speed, p_vy = sin angle * speed,
               p_alpha = 1, p_color = color,
               p_decay = random (rnd (k + 1 + 4 * i + 3)) 0.06 0.08,
               p_useTrail = Some True, p_trail = None, p_size = Some 2.8,
               p_shimmer = Some True, p_shape = None\<rparr>) [0..<80],
         k + 1 + 4 * 80))"

definition cosmicBurst :: "(nat \<Rightarrow> real) \<Rightarrow> nat \<Rightarrow> real \<Rightarrow> real \<Rightarrow> particle list \<times> nat" where
  "cosmicBurst rnd k x y =
    (let rays = 48; angleStep = (pi * 2) / real rays; raySpeed = 6;
         rayColor = pick COSMIC_RAY_COLORS (rnd k);
         rayPart = map (\<lambda>i.
           let angle = real i * angleStep
           in \<lparr>p_x = x, p_y = y, p_vx = cos angle * raySpeed, p_vy = sin angle * raySpeed,
               p_alpha = 1, p_color = rayColor, p_decay = 0.07,
               p_useTrail = Some True, p_trail = None, p_size = Some 1.5,
               p_shimmer = Some True, p_shape = None\<rparr>) [0..<rays];
         coreColor = pick NEON_COLORS (rnd (k + 1));
         k1 = k + 2;
         corePart = map (\<lambda>i.
           let angle = random (rnd (k1 + 3 * i)) 0 (pi * 2);
               speed = random (rnd (k1 + 3 * i + 1)) 0.5 2.5
           in \<lparr>p_x = x, p_y = y, p_vx = cos angle * speed, p_vy = sin angle * speed,
               p_alpha = 1, p_color = coreColor,
               p_decay = random (rnd (k1 + 3 * i + 2)) 0.07 0.09,
               p_useTrail = Some False, p_trail = None, p_size = Some 2,
               p_shimmer = None, p_shape = None\<rparr>) [0..<40]
     in (rayPart @ corePart, k1 + 3 * 40))"

definition streamerBurst :: "(nat \<Rightarrow> real) \<Rightarrow> nat \<Rightarrow> real \<Rightarrow> real \<Rightarrow> particle list \<times> nat" where
  "streamerBurst rnd k x y =
    (let color = pick STREAMER_COLORS (rnd k)
     in (map (\<lambda>i.
           let angle = random (rnd (k + 1 + 3 * i)) 0 (pi * 2);
               speed = random (rnd (k + 1 + 3 * i + 1)) 2 5
           in \<lparr>p_x = x, p_y = y, p_vx = cos angle * speed, p_vy = sin angle * speed,
               p_alpha = 1, p_color = color,
               p_decay = random (rnd (k + 1 + 3 * i + 2)) 0.05 0.07,
               p_useTrail = Some True, p_trail = None, p_size = Some 1.2,
               p_shimmer = Some True, p_shape = None\<rparr>) [0..<60],
         k + 1 + 3 * 60))"

text \<open>The last \<^verbatim>\<open>else\<close>: the default radial burst.\<close>

definition standardBurst :: "(nat \<Rightarrow> real) \<Rightarrow> nat \<Rightarrow> real \<Rightarrow> real \<Rightarrow> particle list \<times> nat" where
  "standardBurst rnd k x y =
    (let color = pick STANDARD_COLORS (rnd k)
     in (map (\<lambda>i.
           let angle = random (rnd (k + 1 + 4 * i)) 0 (pi * 2);
               speed = random (rnd (k + 1 + 4 * i + 1)) 1 5
           in \<lparr>p_x = x, p_y = y, p_vx = cos angle * speed, p_vy = sin angle * speed,
               p_alpha = random (rnd (k + 1 + 4 * i + 2)) 0.6 1, p_color = color,
               p_decay = random (rnd (k + 1 + 4 * i + 3)) 0.06 0.09,
               p_useTrail = Some False, p_trail = None, p_size = Some 2,
               p_shimmer = None, p_shape = None\<rparr>) [0..<60],
         k + 1 + 4 * 60))"

text \<open>
  \<^verbatim>\<open>createExplosion(x, y, hue, type = 'standard', customColor?)\<close> with the component's
  \<^verbatim>\<open>customShape\<close> prop (\<^verbatim>\<open>null\<close> is \<open>None\<close>). The string of a type tag is whatever the caller
  passes at run time; \<^verbatim>\<open>undefined\<close> (\<open>None\<close>) takes the default \<^verbatim>\<open>'standard'\<close>. The branches
  are tried in the order of the source. The result is the particle list after the pushes
  and the position of the next draw.
\<close>

definition createExplosion ::
  "point list option \<Rightarrow> (nat \<Rightarrow> real) \<Rightarrow> nat \<Rightarrow> particle list \<Rightarrow> real \<Rightarrow> real \<Rightarrow> real
    \<Rightarrow> string option \<Rightarrow> string option \<Rightarrow> particle list \<times> nat" where
  "createExplosion customShape rnd k particles x y hue typeArg customColor =
    (let type = (case typeArg of None \<Rightarrow> ''standard'' | Some t \<Rightarrow> t);
         burst =
          (if type = ''custom_shape''
              \<and> (case customShape of None \<Rightarrow> False | Some shape \<Rightarrow> length shape > 0)
           then droneDisplay (the customShape) rnd k x y
           else if truthy_str customColor then overrideBurst (the customColor) rnd k x y
           else if type = ''tree_burst'' then treeBurst rnd k x y
           else if type = ''love_burst'' then loveBurst rnd k x y
           else if type = ''neon_flower'' then neonFlower rnd k x y
           else if type = ''cyan_flower'' then cyanFlower rnd k x y
           else if type = ''floral_burst'' then floralBurst rnd k x y
           else if type = ''violet_burst'' then violetBurst rnd k x y
           else if type = ''strobe_flower'' then strobeFlower rnd k x y
           else if type = ''gold_flower'' then goldFlower rnd k x y
           else if type = ''galaxy'' then galaxy rnd k x y
           else if type = ''heart'' then heartBurst rnd k x y
           else if type = ''ring'' then ringBurst rnd k x y
           else if type = ''glitter'' then glitterBurst rnd k x y
           else if type = ''palm'' then palmBurst rnd k x y
           else if type = ''cosmic'' then cosmicBurst rnd k x y
           else if type = ''streamer'' then streamerBurst rnd k x y
           else standardBurst rnd k x y)
     in (particles @ fst burst, snd burst))"

text \<open>The tags that select a generator of their own.\<close>

definition recognizedTags :: "string list" where
  "recognizedTags =
    [''custom_shape'', ''tree_burst'', ''love_burst'', ''neon_flower'', ''cyan_flower'',
     ''floral_burst'', ''violet_burst'', ''strobe_flower'', ''gold_flower'', ''galaxy'',
     ''heart'', ''ring'', ''glitter'', ''palm'', ''cosmic'', ''streamer'']"

section \<open>The frame loop: projectiles\<close>

definition calculateDistance :: "real \<Rightarrow> real \<Rightarrow> real \<Rightarrow> real \<Rightarrow> real" where
  "calculateDistance x1 y1 x2 y2 = sqrt ((x2 - x1)\<^sup>2 + (y2 - y1)\<^sup>2)"

text \<open>
  The update of one projectile in \<^verbatim>\<open>animate\<close>: the trail history (\<^verbatim>\<open>pop\<close>, \<^verbatim>\<open>unshift\<close>), the
  two speed regimes, and the move.
\<close>

definition stepFirework :: "firework \<Rightarrow> firework" where
  "stepFirework fw =
    (let coordinates = \<lparr>pnt_x = fw_x fw, pnt_y = fw_y fw\<rparr> # butlast (fw_coordinates fw);
         (angle, speed) =
           (if truthy_str (fw_customColor fw)
            then (let speed1 = fw_speed fw * 0.96;
                      gravityX = 0;
                      gravityY = 0.15;
                      vx = cos (fw_angle fw) * speed1 + gravityX;
                      vy = sin (fw_angle fw) * speed1 + gravityY
                  in (atan2 vy vx, sqrt (vx * vx + vy * vy)))
            else (fw_angle fw, fw_speed fw * 1.015));
         vx = cos angle * speed;
         vy = sin angle * speed
     in fw\<lparr>fw_coordinates := coordinates, fw_angle := angle, fw_speed := speed,
           fw_distanceTraveled :=
             calculateDistance (fw_x fw) (fw_y fw) (fw_x fw + vx) (fw_y fw + vy)
               + fw_distanceTraveled fw,
           fw_x := fw_x fw + vx, fw_y := fw_y fw + vy\<rparr>)"

text \<open>The arrival test, on the projectile after its update.\<close>

definition arrived :: "firework \<Rightarrow> bool" where
  "arrived fw =
    (fw_distanceTraveled fw \<ge> fw_distanceToTarget fw
     \<or> (truthy_str (fw_customColor fw) \<and> fw_speed fw < 1.5))"

text \<open>
  The loop \<^verbatim>\<open>for (let i = fireworks.length - 1; i >= 0; i--)\<close> on the state (live
  projectiles, live particles, position of the next draw): the first argument \<open>Suc i\<close>
  is the iteration at index \<open>i\<close>. The projectile is updated in place; on arrival
  \<^verbatim>\<open>createExplosion\<close> is called and \<^verbatim>\<open>splice(i, 1)\<close> removes it.
\<close>

fun fireworksLoop ::
  "point list option \<Rightarrow> (nat \<Rightarrow> real) \<Rightarrow> nat
    \<Rightarrow> firework list \<times> particle list \<times> nat \<Rightarrow> firework list \<times> particle list \<times> nat" where
  "fireworksLoop customShape rnd 0 st = st"
| "fireworksLoop customShape rnd (Suc i) (fireworks, particles, k) =
    (let fw = stepFirework (fireworks ! i);
         fireworks1 = fireworks[i := fw]
     in if arrived fw
        then fireworksLoop customShape rnd i
              (take i fireworks1 @ drop (Suc i) fireworks1,
               createExplosion customShape rnd k particles
                 (fw_x fw) (fw_y fw) (fw_hue fw) (fw_type fw) (fw_customColor fw))
        else fireworksLoop customShape rnd i (fireworks1, particles, k))"

definition updateFireworks ::
  "point list option \<Rightarrow> (nat \<Rightarrow> real)
    \<Rightarrow> firework list \<times> particle list \<times> nat \<Rightarrow> firework list \<times> particle list \<times> nat" where
  "updateFireworks customShape rnd st = fireworksLoop customShape rnd (length (fst st)) st"

text \<open>
  For the statements. \<open>flight fw n\<close> is the projectile after \<open>n\<close> updates; \<open>inFlight fw n\<close>
  says that the arrival test failed after each of the first \<open>n\<close> updates; \<open>explodeAll\<close>
  calls \<^verbatim>\<open>createExplosion\<close> once for each projectile of a list, in order, with the
  projectile's position, hue, type and override colour.
\<close>

definition flight :: "firework \<Rightarrow> nat \<Rightarrow> firework" where
  "flight fw n = (stepFirework ^^ n) fw"

definition inFlight :: "firework \<Rightarrow> nat \<Rightarrow> bool" where
  "inFlight fw n = list_all (\<lambda>m. \<not> arrived (flight fw (Suc m))) [0..<n]"

fun explodeAll ::
  "point list option \<Rightarrow> (nat \<Rightarrow> real) \<Rightarrow> firework list \<Rightarrow> particle list \<times> nat
    \<Rightarrow> particle list \<times> nat" where
  "explodeAll customShape rnd [] pk = pk"
| "explodeAll customShape rnd (fw # fws) (particles, k) =
    explodeAll customShape rnd fws
      (createExplosion customShape rnd k particles
         (fw_x fw) (fw_y fw) (fw_hue fw) (fw_type fw) (fw_customColor fw))"

text \<open>
  The projectile of the scenario "launch from (400, 600) to (400, 100) with pattern
  standard", as \<^verbatim>\<open>launchFirework\<close> pushes it.
\<close>

definition standardRocket :: "(nat \<Rightarrow> real) \<Rightarrow> nat \<Rightarrow> firework" where
  "standardRocket rnd k = last (fst (launchFirework rnd k [] 400 600 400 100 (Some ''standard'')))"

section \<open>The frame loop: particles\<close>

definition FRICTION :: real where "FRICTION = 0.95"

definition GRAVITY :: real where "GRAVITY = 0"

text \<open>
  The update of one particle: drag, move, decay, then the shimmer (one draw for the
  test, one more for the new alpha when the test succeeds), then the trail. The alpha
  is computed in binary64: \<^verbatim>\<open>p.alpha -= p.decay\<close> is one rounded subtraction of the two
  stored fields, the test compares the draw with the binary64 value of \<^verbatim>\<open>0.85\<close>, and
  \<^verbatim>\<open>Math.random() * 0.4 + 0.6\<close> is one rounded multiplication and one rounded addition
  on the binary64 values of the two literals.
\<close>

definition stepParticle :: "(nat \<Rightarrow> real) \<Rightarrow> nat \<Rightarrow> particle \<Rightarrow> particle \<times> nat" where
  "stepParticle rnd k p =
    (let vx = p_vx p * FRICTION;
         vy = p_vy p * FRICTION + GRAVITY;
         x = p_x p + vx;
         y = p_y p + vy;
         alpha = fl64 (p_alpha p - p_decay p);
         (alpha2, k2) =
           (if truthy_bool (p_shimmer p)
            then (if rnd k > fl64 0.85
                  then (fl64 (fl64 (rnd (k + 1) * fl64 0.4) + fl64 0.6), k + 2)
                  else (alpha, k + 1))
            else (alpha, k));
         trail =
           (if truthy_bool (p_useTrail p)
            then (let t = (case p_trail p of None \<Rightarrow> [] | Some t \<Rightarrow> t) @ [\<lparr>pnt_x = x, pnt_y = y\<rparr>];
                      maxTrail = (if (case p_size p of None \<Rightarrow> False | Some s \<Rightarrow> s \<noteq> 0 \<and> s > 2)
                                  then 15 else 8 :: nat)
                  in Some (if length t > maxTrail then tl t else t))
            else p_trail p)
     in (p\<lparr>p_vx := vx, p_vy := vy, p_x := x, p_y := y, p_alpha := alpha2, p_trail := trail\<rparr>,
         k2))"

section \<open>Rendering a particle\<close>

datatype canvas_op =
    BeginPath
  | MoveTo real real
  | LineTo real real
  | BezierCurveTo real real real real real real
  | Arc real real real real real
  | StrokeStyle string
  | FillStyle string
  | LineWidth real
  | Stroke
  | Fill
  | Save
  | Restore
  | Translate real real
  | Scale real real

definition startsWith :: "string \<Rightarrow> string \<Rightarrow> bool" where
  "startsWith s prefix = (take (length prefix) s = prefix)"

text \<open>
  The colour expression of the trail stroke and of the dot fill,
  \<^verbatim>\<open>p.color.startsWith('hsl') ? p.color : p.color.startsWith('rgb') ? p.color :
  `rgba(${p.color}, ${p.alpha})`\<close>. The conversion of a number to a string in the template
  is the parameter \<open>fmt\<close>.
\<close>

definition particleStyle :: "(real \<Rightarrow> string) \<Rightarrow> particle \<Rightarrow> string" where
  "particleStyle fmt p =
    (if startsWith (p_color p) ''hsl'' then p_color p
     else if startsWith (p_color p) ''rgb'' then p_color p
     else ''rgba('' @ p_color p @ '', '' @ fmt (p_alpha p) @ '')'')"

text \<open>\<^verbatim>\<open>p.size || 2\<close>.\<close>

definition sizeOr2 :: "particle \<Rightarrow> real" where
  "sizeOr2 p = (case p_size p of None \<Rightarrow> 2 | Some s \<Rightarrow> if s = 0 then 2 else s)"

definition renderParticle :: "(real \<Rightarrow> string) \<Rightarrow> particle \<Rightarrow> canvas_op list" where
  "renderParticle fmt p =
    (if truthy_bool (p_useTrail p) \<and> (case p_trail p of None \<Rightarrow> False | Some t \<Rightarrow> length t > 1)
     then [BeginPath, MoveTo (pnt_x (the (p_trail p) ! 0)) (pnt_y (the (p_trail p) ! 0))]
          @ map (\<lambda>t. LineTo (pnt_x t) (pnt_y t)) (the (p_trail p))
          @ [StrokeStyle (particleStyle fmt p), LineWidth (sizeOr2 p * 0.5), Stroke]
     else [])
    @ (if p_shape p = Some ''heart''
       then (let s = sizeOr2 p; hx = p_x p; hy = p_y p - s * 0.5
             in [Save, Translate hx hy, Scale s s, BeginPath,
                 MoveTo 0 (- 0.4),
                 BezierCurveTo (- 0.5) (- 0.9) (- 1.1) (- 0.4) (- 1.1) 0.1,
                 BezierCurveTo (- 1.1) 0.6 0 1.3 0 1.3,
                 BezierCurveTo 0 1.3 1.1 0.6 1.1 0.1,
                 BezierCurveTo 1.1 (- 0.4) 0.5 (- 0.9) 0 (- 0.4),
                 FillStyle (p_color p), Fill,
                 LineWidth 0.2, StrokeStyle ''rgba(255, 255, 255, 0.8)'', Stroke, Restore])
       else if \<not> truthy_bool (p_useTrail p)
       then [BeginPath, Arc (p_x p) (p_y p) (sizeOr2 p) 0 (pi * 2),
             FillStyle (particleStyle fmt p), Fill]
       else [])"

text \<open>
  The loop \<^verbatim>\<open>for (let i = particles.length - 1; i >= 0; i--)\<close> on the state (live
  particles, position of the next draw, canvas operations issued so far): a particle
  whose alpha is \<open>\<le> 0\<close> after its update is spliced out, any other is drawn.
\<close>

fun particlesLoop ::
  "(real \<Rightarrow> string) \<Rightarrow> (nat \<Rightarrow> real) \<Rightarrow> nat
    \<Rightarrow> particle list \<times> nat \<times> canvas_op list \<Rightarrow> particle list \<times> nat \<times> canvas_op list" where
  "particlesLoop fmt rnd 0 st = st"
| "particlesLoop fmt rnd (Suc i) (particles, k, ops) =
    (let (p, k1) = stepParticle rnd k (particles ! i);
         particles1 = particles[i := p]
     in if p_alpha p \<le> 0
        then particlesLoop fmt rnd i (take i particles1 @ drop (Suc i) particles1, k1, ops)
        else particlesLoop fmt rnd i (particles1, k1, ops @ renderParticle fmt p))"

definition updateParticles ::
  "(real \<Rightarrow> string) \<Rightarrow> (nat \<Rightarrow> real)
    \<Rightarrow> particle list \<times> nat \<times> canvas_op list \<Rightarrow> particle list \<times> nat \<times> canvas_op list" where
  "updateParticles fmt rnd st = particlesLoop fmt rnd (length (fst st)) st"

text \<open>
  For the statements. \<open>stepAll\<close> updates every particle of a list, the last one first,
  as the loop does, and threads the position of the next draw. \<open>agedParticle rnd p n\<close>
  is a particle without shimmer after \<open>n\<close> updates (\<open>stepParticle\<close> takes no draw for
  it); \<open>stillLive rnd p n\<close> says that its alpha was positive after each of the first \<open>n\<close>
  updates. The generators above are written in exact arithmetic; \<open>stored p\<close> is the
  particle as the program holds it, the two fields that the alpha update reads rounded
  to binary64. \<open>ember\<close> is a particle of the burst of a finale projectile as the program
  holds it: alpha 1, decay the binary64 value of \<^verbatim>\<open>0.1\<close>, no shimmer.
\<close>

fun stepAll :: "(nat \<Rightarrow> real) \<Rightarrow> nat \<Rightarrow> particle list \<Rightarrow> particle list \<times> nat" where
  "stepAll rnd k [] = ([], k)"
| "stepAll rnd k (p # ps) =
    (let (ps', k1) = stepAll rnd k ps;
         (p', k2) = stepParticle rnd k1 p
     in (p' # ps', k2))"

definition agedParticle :: "(nat \<Rightarrow> real) \<Rightarrow> particle \<Rightarrow> nat \<Rightarrow> particle" where
  "agedParticle rnd p n = ((\<lambda>q. fst (stepParticle rnd 0 q)) ^^ n) p"

definition stillLive :: "(nat \<Rightarrow> real) \<Rightarrow> particle \<Rightarrow> nat \<Rightarrow> bool" where
  "stillLive rnd p n = list_all (\<lambda>m. 0 < p_alpha (agedParticle rnd p (Suc m))) [0..<n]"

definition stored :: "particle \<Rightarrow> particle" where
  "stored p = p\<lparr>p_alpha := fl64 (p_alpha p), p_decay := fl64 (p_decay p)\<rparr>"

definition ember :: particle where
  "ember = stored (hd (fst (overrideBurst ''hsl(0, 100%, 65%)'' (\<lambda>n. 1 / 2) 0 0 0)))"

section \<open>One frame\<close>

text \<open>
  The state that \<^verbatim>\<open>animate\<close> reads and writes (the refs of the component) and what one
  frame is given: the clock, the window, the props and the drawing flag (a ref that
  only the pointer handlers write). Stars and hand-drawn strokes are drawn by the frame
  but are read by nothing else; they are left out, and of the canvas only the
  operations that draw particles are recorded.
\<close>

record world =
  w_fireworks :: "firework list"
  w_particles :: "particle list"
  w_rng :: nat
  w_nextAutoFireTime :: real
  w_currentFireworkIndex :: nat

record frame_input =
  in_now :: real
  in_innerWidth :: real
  in_innerHeight :: real
  in_enableAutoFire :: bool
  in_isHandDrawingMode :: bool
  in_isDrawing :: bool
  in_customShape :: "point list option"

definition autoFire :: "(nat \<Rightarrow> real) \<Rightarrow> frame_input \<Rightarrow> world \<Rightarrow> world" where
  "autoFire rnd inp w =
    (if in_enableAutoFire inp \<and> \<not> in_isDrawing inp \<and> \<not> in_isHandDrawingMode inp
        \<and> in_now inp > w_nextAutoFireTime w
     then (let k = w_rng w;
               startX = in_innerWidth inp * 0.5 + (rnd k - 0.5) * 300;
               startY = in_innerHeight inp;
               targetX = in_innerWidth inp * 0.15 + rnd (k + 1) * in_innerWidth inp * 0.7;
               targetY = in_innerHeight inp * 0.15 + rnd (k + 2) * in_innerHeight inp * 0.35;
               (type, idx) = getNextFireworkType (w_currentFireworkIndex w);
               (fireworks, k1) =
                 launchFirework rnd (k + 3) (w_fireworks w) startX startY targetX targetY type
           in w\<lparr>w_fireworks := fireworks, w_currentFireworkIndex := idx,
                 w_nextAutoFireTime := in_now inp + random (rnd k1) 800 2000,
                 w_rng := k1 + 1\<rparr>)
     else w)"

definition animate ::
  "(real \<Rightarrow> string) \<Rightarrow> (nat \<Rightarrow> real) \<Rightarrow> frame_input \<Rightarrow> world \<Rightarrow> world \<times> canvas_op list" where
  "animate fmt rnd inp w =
    (let w1 = autoFire rnd inp w;
         (fireworks, particles, k) =
           updateFireworks (in_customShape inp) rnd (w_fireworks w1, w_particles w1, w_rng w1);
         (particles2, k2, ops) = updateParticles fmt rnd (particles, k, [])
     in (w1\<lparr>w_fireworks := fireworks, w_particles := particles2, w_rng := k2\<rparr>, ops))"

section \<open>Binary64 countdown\<close>

text \<open>
  To compute with it, a finite binary64 number is also represented by a pair \<open>(m, e)\<close>
  of integers with value \<open>m \<sqdot> 2\<^sup>e\<close>. \<open>b64_round m e\<close> rounds the exact value \<open>m \<sqdot> 2\<^sup>e\<close> to the
  nearest number of 53 significant bits (fewer below the smallest normal number, where
  the exponent stops at \<open>-1074\<close>), ties to even, with integer arithmetic; it is shown
  below to return \<open>fl64 (m \<sqdot> 2\<^sup>e)\<close>. \<open>b64_sub\<close> and \<open>b64_mul\<close> are the binary64 subtraction and
  multiplication on pairs, \<open>b64_tenth\<close> is the binary64 value of the literal \<^verbatim>\<open>0.1\<close>, and
  \<open>alpha64 alpha decay n\<close> is the result of \<open>n\<close> times \<^verbatim>\<open>alpha -= decay\<close>.
\<close>

type_synonym b64 = "int \<times> int"

definition b64_val :: "b64 \<Rightarrow> real" where
  "b64_val d = of_int (fst d) * 2 powi (snd d)"

definition b64_round :: "int \<Rightarrow> int \<Rightarrow> b64" where
  "b64_round m e =
    (let excess = max (bitlen \<bar>m\<bar> - 53) (- 1074 - e)
     in if excess \<le> 0 then (m, e)
        else (let q = m div 2 ^ nat excess;
                  r = m mod 2 ^ nat excess;
                  half = 2 ^ nat (excess - 1);
                  q' = (if r > half \<or> (r = half \<and> odd q) then q + 1 else q)
              in (q', e + excess)))"

definition b64_sub :: "b64 \<Rightarrow> b64 \<Rightarrow> b64" where
  "b64_sub a b =
    (let e = min (snd a) (snd b)
     in b64_round (fst a * 2 ^ nat (snd a - e) - fst b * 2 ^ nat (snd b - e)) e)"

definition b64_mul :: "b64 \<Rightarrow> b64 \<Rightarrow> b64" where
  "b64_mul a b = b64_round (fst a * fst b) (snd a + snd b)"

definition b64_tenth :: b64 where
  "b64_tenth = (7205759403792794, - 56)"

definition alpha64 :: "b64 \<Rightarrow> b64 \<Rightarrow> nat \<Rightarrow> b64" where
  "alpha64 alpha decay n = ((\<lambda>a. b64_sub a decay) ^^ n) alpha"

section \<open>Properties of the shape normalisation\<close>

lemma fold_min_Min: "fold (\<lambda>p m. min m (f p)) ps (a::real) = Min (insert a (f ` set ps))"
proof (induction ps arbitrary: a)
  case Nil then show ?case by simp
next
  case (Cons p ps)
  have "Min (insert (min a (f p)) (f ` set ps)) = Min (insert a (insert (f p) (f ` set ps)))"
    by (cases "f ` set ps = {}") (simp_all add: Min_insert min.assoc)
  with Cons show ?case by (simp add: insert_commute)
qed

lemma fold_max_Max: "fold (\<lambda>p m. max m (f p)) ps (a::real) = Max (insert a (f ` set ps))"
proof (induction ps arbitrary: a)
  case Nil then show ?case by simp
next
  case (Cons p ps)
  have "Max (insert (max a (f p)) (f ` set ps)) = Max (insert a (insert (f p) (f ` set ps)))"
    by (cases "f ` set ps = {}") (simp_all add: Max_insert max.assoc)
  with Cons show ?case by (simp add: insert_commute)
qed

lemma minOf_Min: "points \<noteq> [] \<Longrightarrow> minOf f points = Min (f ` set points)"
  by (cases points) (simp_all add: minOf_def fold_min_Min)

lemma maxOf_Max: "points \<noteq> [] \<Longrightarrow> maxOf f points = Max (f ` set points)"
  by (cases points) (simp_all add: maxOf_def fold_max_Max)

lemma minOf_affine:
  assumes "points \<noteq> []" and "0 < s" and that: "\<And>p. f (g p) = (h p - c) * s"
  shows "minOf f (map g points) = (minOf h points - c) * s"
proof -
  have m: "mono (\<lambda>v::real. (v - c) * s)" using assms(2) by (simp add: mono_def)
  have "minOf f (map g points) = Min ((\<lambda>p. (h p - c) * s) ` set points)"
    using assms(1) that by (simp add: minOf_Min image_image)
  also have "\<dots> = Min ((\<lambda>v. (v - c) * s) ` (h ` set points))" by (simp add: image_image)
  also have "\<dots> = (Min (h ` set points) - c) * s"
    using assms(1) by (subst mono_Min_commute [OF m]) simp_all
  finally show ?thesis using assms(1) by (simp add: minOf_Min)
qed

lemma maxOf_affine:
  assumes "points \<noteq> []" and "0 < s" and that: "\<And>p. f (g p) = (h p - c) * s"
  shows "maxOf f (map g points) = (maxOf h points - c) * s"
proof -
  have m: "mono (\<lambda>v::real. (v - c) * s)" using assms(2) by (simp add: mono_def)
  have "maxOf f (map g points) = Max ((\<lambda>p. (h p - c) * s) ` set points)"
    using assms(1) that by (simp add: maxOf_Max image_image)
  also have "\<dots> = Max ((\<lambda>v. (v - c) * s) ` (h ` set points))" by (simp add: image_image)
  also have "\<dots> = (Max (h ` set points) - c) * s"
    using assms(1) by (subst mono_Max_commute [OF m]) simp_all
  finally show ?thesis using assms(1) by (simp add: maxOf_Max)
qed

lemma minOf_le_maxOf: "points \<noteq> [] \<Longrightarrow> minOf f points \<le> maxOf f points"
  by (simp add: minOf_Min maxOf_Max)

lemma maxDim_pos: "points \<noteq> [] \<Longrightarrow> 0 < maxDim points"
  using minOf_le_maxOf [of points pnt_x] minOf_le_maxOf [of points pnt_y]
  by (auto simp: maxDim_def Let_def max_def)


lemma minOf_le: "p \<in> set points \<Longrightarrow> minOf f points \<le> f p"
  by (cases "points = []") (simp_all add: minOf_Min)

lemma le_maxOf: "p \<in> set points \<Longrightarrow> f p \<le> maxOf f points"
  by (cases "points = []") (simp_all add: maxOf_Max)

lemma normalize_centred:
  assumes "points \<noteq> []"
    and "minOf pnt_x points + maxOf pnt_x points = 0"
    and "minOf pnt_y points + maxOf pnt_y points = 0"
    and "max (maxOf pnt_x points - minOf pnt_x points)
             (maxOf pnt_y points - minOf pnt_y points) = 2"
  shows "normalizePath points = points"
proof -
  have "maxDim points = 2" using assms(4) by (simp add: maxDim_def Let_def)
  then show ?thesis
    using assms(1-3) by (simp add: normalizePath_def Let_def map_idI)
qed

lemma scalePoints_bounds:
  assumes "points \<noteq> []" and "0 < c"
  shows "minOf pnt_x (scalePoints c points) = c * minOf pnt_x points"
    and "maxOf pnt_x (scalePoints c points) = c * maxOf pnt_x points"
    and "minOf pnt_y (scalePoints c points) = c * minOf pnt_y points"
    and "maxOf pnt_y (scalePoints c points) = c * maxOf pnt_y points"
  using minOf_affine [OF assms, of pnt_x _ pnt_x 0] maxOf_affine [OF assms, of pnt_x _ pnt_x 0]
    minOf_affine [OF assms, of pnt_y _ pnt_y 0] maxOf_affine [OF assms, of pnt_y _ pnt_y 0]
  by (simp_all add: scalePoints_def mult.commute)

lemma flat_coordinate:
  assumes "p \<in> set points" and "maxOf f points - minOf f points \<le> 0"
  shows "f p = (minOf f points + maxOf f points) / 2"
  using minOf_le [OF assms(1), of f] le_maxOf [OF assms(1), of f] assms(2) by simp

lemma normalize_scale:
  assumes "0 < c"
  shows "normalizePath (scalePoints c points) = normalizePath points"
proof (cases "points = []")
  case True
  then show ?thesis by (simp add: normalizePath_def scalePoints_def)
next
  case False
  note b = scalePoints_bounds [OF False assms]
  let ?w = "maxOf pnt_x points - minOf pnt_x points"
  let ?h = "maxOf pnt_y points - minOf pnt_y points"
  let ?cx = "(minOf pnt_x points + maxOf pnt_x points) / 2"
  let ?cy = "(minOf pnt_y points + maxOf pnt_y points) / 2"
  have wh: "0 \<le> ?w" "0 \<le> ?h"
    using minOf_le_maxOf [OF False, of pnt_x] minOf_le_maxOf [OF False, of pnt_y] by simp_all
  have mx: "max (c * maxOf pnt_x points - c * minOf pnt_x points)
                (c * maxOf pnt_y points - c * minOf pnt_y points) = c * max ?w ?h"
    using assms by (simp add: max_def right_diff_distrib [symmetric])
  have dim: "maxDim (scalePoints c points) = (if max ?w ?h = 0 then 1 else c * max ?w ?h)"
    using assms by (simp add: maxDim_def Let_def b mx)
  have ne: "scalePoints c points \<noteq> []" using False by (simp add: scalePoints_def)
  have lhs: "normalizePath (scalePoints c points) =
      map (\<lambda>p. \<lparr>pnt_x = (c * pnt_x p - c * ?cx) * (2 / maxDim (scalePoints c points)),
                 pnt_y = (c * pnt_y p - c * ?cy) * (2 / maxDim (scalePoints c points))\<rparr>) points"
    using ne unfolding normalizePath_def Let_def b
    by (simp add: scalePoints_def o_def distrib_left)
  have rhs: "normalizePath points =
      map (\<lambda>p. \<lparr>pnt_x = (pnt_x p - ?cx) * (2 / maxDim points),
                 pnt_y = (pnt_y p - ?cy) * (2 / maxDim points)\<rparr>) points"
    using False by (simp add: normalizePath_def Let_def)
  show ?thesis
  proof (cases "max ?w ?h = 0")
    case True
    then have flat: "?w \<le> 0" "?h \<le> 0" using wh by (simp_all add: max_def split: if_splits)
    have z: "c * pnt_x p - c * ?cx = 0 \<and> pnt_x p - ?cx = 0
        \<and> c * pnt_y p - c * ?cy = 0 \<and> pnt_y p - ?cy = 0" if "p \<in> set points" for p
      using flat_coordinate [OF that flat(1)] flat_coordinate [OF that flat(2)] by simp
    show ?thesis unfolding lhs rhs
    proof (intro map_cong refl)
      fix p assume "p \<in> set points"
      from z [OF this] show "\<lparr>pnt_x = (c * pnt_x p - c * ?cx) * (2 / maxDim (scalePoints c points)),
                 pnt_y = (c * pnt_y p - c * ?cy) * (2 / maxDim (scalePoints c points))\<rparr>
        = \<lparr>pnt_x = (pnt_x p - ?cx) * (2 / maxDim points),
                 pnt_y = (pnt_y p - ?cy) * (2 / maxDim points)\<rparr>"
        by (simp only: mult_zero_left)
    qed
  next
    case nz: False
    have d1: "maxDim (scalePoints c points) = c * maxDim points"
      using nz by (simp add: dim) (simp add: maxDim_def Let_def)
    have d2: "maxDim points \<noteq> 0" using maxDim_pos [OF False] by simp
    have "(c * v - c * u) * (2 / (c * maxDim points)) = (v - u) * (2 / maxDim points)" for u v
      using assms d2 by (simp add: field_simps)
    then show ?thesis unfolding lhs rhs d1 by (simp only:)
  qed
qed

lemma normalize_single:
  "normalizePath [p] = [\<lparr>pnt_x = 0, pnt_y = 0\<rparr>] \<and> maxDim [p] = 1"
  by (simp add: normalizePath_def maxDim_def minOf_def maxOf_def)


lemma normalize_bounds:
  assumes "points \<noteq> []"
  defines "s \<equiv> 2 / maxDim points"
  shows "minOf pnt_x (normalizePath points)
           = (minOf pnt_x points - (minOf pnt_x points + maxOf pnt_x points) / 2) * s"
    and "maxOf pnt_x (normalizePath points)
           = (maxOf pnt_x points - (minOf pnt_x points + maxOf pnt_x points) / 2) * s"
    and "minOf pnt_y (normalizePath points)
           = (minOf pnt_y points - (minOf pnt_y points + maxOf pnt_y points) / 2) * s"
    and "maxOf pnt_y (normalizePath points)
           = (maxOf pnt_y points - (minOf pnt_y points + maxOf pnt_y points) / 2) * s"
proof -
  have s: "0 < s" using maxDim_pos [OF assms(1)] by (simp add: s_def)
  have n: "normalizePath points =
      map (\<lambda>p. \<lparr>pnt_x = (pnt_x p - (minOf pnt_x points + maxOf pnt_x points) / 2) * s,
                 pnt_y = (pnt_y p - (minOf pnt_y points + maxOf pnt_y points) / 2) * s\<rparr>) points"
    using assms(1) by (simp add: normalizePath_def Let_def s_def)
  show "minOf pnt_x (normalizePath points)
           = (minOf pnt_x points - (minOf pnt_x points + maxOf pnt_x points) / 2) * s"
    unfolding n by (rule minOf_affine [OF assms(1) s]) simp
  show "maxOf pnt_x (normalizePath points)
           = (maxOf pnt_x points - (minOf pnt_x points + maxOf pnt_x points) / 2) * s"
    unfolding n by (rule maxOf_affine [OF assms(1) s]) simp
  show "minOf pnt_y (normalizePath points)
           = (minOf pnt_y points - (minOf pnt_y points + maxOf pnt_y points) / 2) * s"
    unfolding n by (rule minOf_affine [OF assms(1) s]) simp
  show "maxOf pnt_y (normalizePath points)
           = (maxOf pnt_y points - (minOf pnt_y points + maxOf pnt_y points) / 2) * s"
    unfolding n by (rule maxOf_affine [OF assms(1) s]) simp
qed

lemma normalize_twice: "normalizePath (normalizePath points) = normalizePath points"
proof (cases "points = []")
  case True
  then show ?thesis by (simp add: normalizePath_def)
next
  case False
  let ?q = "normalizePath points"
  let ?w = "maxOf pnt_x points - minOf pnt_x points"
  let ?h = "maxOf pnt_y points - minOf pnt_y points"
  let ?s = "2 / maxDim points"
  note b = normalize_bounds [OF False]
  have q: "?q \<noteq> []" using False by (simp add: normalizePath_def Let_def)
  have s: "0 < ?s" using maxDim_pos [OF False] by simp
  have cx: "minOf pnt_x ?q + maxOf pnt_x ?q = 0" and cy: "minOf pnt_y ?q + maxOf pnt_y ?q = 0"
    unfolding b by (simp_all add: algebra_simps)
  have wq: "maxOf pnt_x ?q - minOf pnt_x ?q = ?w * ?s"
    and hq: "maxOf pnt_y ?q - minOf pnt_y ?q = ?h * ?s"
    unfolding b by (simp_all add: algebra_simps)
  have mq: "max (maxOf pnt_x ?q - minOf pnt_x ?q) (maxOf pnt_y ?q - minOf pnt_y ?q)
      = max ?w ?h * ?s"
    unfolding wq hq using s max_mult_distrib_right [of ?w ?h ?s] by (simp only: less_imp_le if_True)
  show ?thesis
  proof (cases "max ?w ?h = 0")
    case True
    have wh: "0 \<le> ?w" "0 \<le> ?h"
      using minOf_le_maxOf [OF False, of pnt_x] minOf_le_maxOf [OF False, of pnt_y] by simp_all
    then have flat: "?w \<le> 0" "?h \<le> 0" using True by (simp_all add: max_def split: if_splits)
    have zero: "p = \<lparr>pnt_x = 0, pnt_y = 0\<rparr>" if "p \<in> set ?q" for p
    proof -
      from that obtain r where r: "r \<in> set points"
        and p: "p = \<lparr>pnt_x = (pnt_x r - (minOf pnt_x points + maxOf pnt_x points) / 2) * ?s,
                     pnt_y = (pnt_y r - (minOf pnt_y points + maxOf pnt_y points) / 2) * ?s\<rparr>"
        using False by (auto simp: normalizePath_def Let_def)
      show ?thesis
        unfolding p using flat_coordinate [OF r flat(1)] flat_coordinate [OF r flat(2)]
        by simp
    qed
    have dq: "maxDim ?q = 1" using mq True by (simp add: maxDim_def Let_def)
    have "normalizePath ?q =
        map (\<lambda>p. \<lparr>pnt_x = (pnt_x p - 0 / 2) * (2 / 1), pnt_y = (pnt_y p - 0 / 2) * (2 / 1)\<rparr>) ?q"
      using q unfolding normalizePath_def [of ?q] Let_def cx cy dq by simp
    also have "\<dots> = map (\<lambda>p. p) ?q"
    proof (intro map_cong refl)
      fix p assume "p \<in> set ?q"
      from zero [OF this] show "\<lparr>pnt_x = (pnt_x p - 0 / 2) * (2 / 1),
          pnt_y = (pnt_y p - 0 / 2) * (2 / 1)\<rparr> = p" by simp
    qed
    finally show ?thesis by simp
  next
    case nz: False
    then have "maxDim points = max ?w ?h" by (simp add: maxDim_def Let_def)
    then have "max ?w ?h * ?s = 2" using nz by simp
    then show ?thesis using normalize_centred [OF q cx cy] mq by simp
  qed
qed

text \<open>The capture returns no shape for fewer than five points.\<close>

lemma length_normalizePath: "length (normalizePath points) = length points"
  by (simp add: normalizePath_def Let_def)

lemma getCapturedShape_threshold:
  "(length (concat completedPaths @ currentPath) < 5 \<longrightarrow>
      getCapturedShape completedPaths currentPath = None)
   \<and> (5 \<le> length (concat completedPaths @ currentPath) \<longrightarrow>
      getCapturedShape completedPaths currentPath
        = Some (normalizePath (concat completedPaths @ currentPath))
      \<and> length (normalizePath (concat completedPaths @ currentPath))
        = length (concat completedPaths @ currentPath))"
  by (simp add: getCapturedShape_def Let_def length_normalizePath)

text \<open>
  C3. \<^verbatim>\<open>normalizePath\<close> is idempotent and scale-invariant (in exact arithmetic):
  a non-empty point set whose bounding box is centred at the origin and whose larger
  dimension is 2 is returned unchanged, and so normalising twice is normalising once;
  multiplying every coordinate by a positive constant \<open>c\<close> before normalising does
  not change the result; for a single point the divisor is the fallback 1 (not 0) and
  the result is the origin.
\<close>

theorem C3_normalizePath_idempotent_scale_invariant:
  "(points \<noteq> [] \<longrightarrow>
      minOf pnt_x points + maxOf pnt_x points = 0 \<longrightarrow>
      minOf pnt_y points + maxOf pnt_y points = 0 \<longrightarrow>
      max (maxOf pnt_x points - minOf pnt_x points)
          (maxOf pnt_y points - minOf pnt_y points) = 2 \<longrightarrow>
      normalizePath points = points)
   \<and> normalizePath (normalizePath points) = normalizePath points
   \<and> (0 < c \<longrightarrow> normalizePath (scalePoints c points) = normalizePath points)
   \<and> maxDim [p] = 1
   \<and> normalizePath [p] = [\<lparr>pnt_x = 0, pnt_y = 0\<rparr>]"
  using normalize_centred [of points] normalize_twice [of points]
    normalize_scale [of c points] normalize_single [of p]
  by blast

theorem C3_normalizePath_witness:
  "normalizePath unitSquare = unitSquare
   \<and> normalizePath (normalizePath unitSquare) = normalizePath unitSquare
   \<and> normalizePath (scalePoints 3 unitSquare) = normalizePath unitSquare
   \<and> maxDim [\<lparr>pnt_x = 7, pnt_y = 5\<rparr>] = 1
   \<and> normalizePath [\<lparr>pnt_x = 7, pnt_y = 5\<rparr>] = [\<lparr>pnt_x = 0, pnt_y = 0\<rparr>]"
proof -
  have "unitSquare \<noteq> []"
    and "minOf pnt_x unitSquare + maxOf pnt_x unitSquare = 0"
    and "minOf pnt_y unitSquare + maxOf pnt_y unitSquare = 0"
    and "max (maxOf pnt_x unitSquare - minOf pnt_x unitSquare)
          (maxOf pnt_y unitSquare - minOf pnt_y unitSquare) = 2"
    and "(0::real) < 3"
    by (simp_all add: unitSquare_def minOf_def maxOf_def)
  then show ?thesis
    using C3_normalizePath_idempotent_scale_invariant
      [of unitSquare 3 "\<lparr>pnt_x = 7, pnt_y = 5\<rparr>"]
    by blast
qed
section \<open>Properties of the sequential selector\<close>

lemma length_FIREWORK_TYPES: "length FIREWORK_TYPES = 16"
  by (simp add: FIREWORK_TYPES_def)

lemma distinct_FIREWORK_TYPES: "distinct FIREWORK_TYPES"
  by (simp add: FIREWORK_TYPES_def)

lemma custom_shape_not_listed: "''custom_shape'' \<notin> set FIREWORK_TYPES"
  by (simp add: FIREWORK_TYPES_def)

lemma length_selections: "length (selections n idx) = n"
  by (induction n arbitrary: idx) simp_all

lemma selections_nth:
  "idx < 16 \<Longrightarrow> k < n \<Longrightarrow>
    selections n idx ! k = Some (FIREWORK_TYPES ! ((idx + k) mod 16))"
proof (induction n arbitrary: idx k)
  case 0
  then show ?case by simp
next
  case (Suc n)
  show ?case
  proof (cases k)
    case 0
    with Suc.prems show ?thesis
      by (simp add: getNextFireworkType_def length_FIREWORK_TYPES)
  next
    case (Suc j)
    have "(idx + 1) mod 16 < (16::nat)" by simp
    moreover have "j < n" using Suc Suc.prems by simp
    ultimately have "selections n ((idx + 1) mod 16) ! j
        = Some (FIREWORK_TYPES ! (((idx + 1) mod 16 + j) mod 16))"
      by (rule Suc.IH)
    moreover have "((idx + 1) mod 16 + j) mod 16 = (idx + Suc j) mod 16"
      by (simp add: mod_add_left_eq)
    ultimately show ?thesis
      using Suc by (simp add: getNextFireworkType_def length_FIREWORK_TYPES)
  qed
qed

lemma selections_subset:
  "idx < 16 \<Longrightarrow> set (selections n idx) \<subseteq> Some ` set FIREWORK_TYPES"
proof
  fix t assume lt: "idx < 16" and "t \<in> set (selections n idx)"
  then obtain k where k: "k < n" and t: "t = selections n idx ! k"
    by (auto simp: in_set_conv_nth length_selections)
  have "(idx + k) mod 16 < length FIREWORK_TYPES"
    by (simp add: length_FIREWORK_TYPES)
  then have "FIREWORK_TYPES ! ((idx + k) mod 16) \<in> set FIREWORK_TYPES"
    by (rule nth_mem)
  then show "t \<in> Some ` set FIREWORK_TYPES"
    using selections_nth [OF lt k] t by simp
qed

lemma wrap_back:
  "idx < 16 \<Longrightarrow> j < 16 \<Longrightarrow> (idx + (j + 16 - idx) mod 16) mod 16 = (j::nat)"
  by (metis add.commute le_add_diff_inverse less_imp_le_nat mod_add_right_eq
      mod_add_self2 mod_less trans_less_add1 Nat.add_diff_assoc2)

lemma selections_cover:
  assumes lt: "idx < 16" and n: "16 \<le> n"
  shows "Some ` set FIREWORK_TYPES \<subseteq> set (selections n idx)"
proof
  fix t assume "t \<in> Some ` set FIREWORK_TYPES"
  then obtain j where j: "j < 16" and t: "t = Some (FIREWORK_TYPES ! j)"
    by (auto simp: in_set_conv_nth length_FIREWORK_TYPES)
  define k where "k = (j + 16 - idx) mod 16"
  have k: "k < n" using n by (simp add: k_def less_le_trans [of _ 16])
  have "(idx + k) mod 16 = j"
    using lt j unfolding k_def by (rule wrap_back)
  then have "selections n idx ! k = t"
    using selections_nth [OF lt k] t by simp
  then show "t \<in> set (selections n idx)"
    using k by (metis length_selections nth_mem)
qed

text \<open>
  C4. The round-robin selector used by auto-fire never returns the drone-display tag
  \<^verbatim>\<open>'custom_shape'\<close>. From every index the selector can hold (\<open>idx < 16\<close>; it starts at 0)
  and for every number \<open>n \<ge> 16\<close> of consecutive calls: the \<open>k\<close>-th call returns entry
  \<open>(idx + k) mod 16\<close> of the fixed list (a fixed wrapping sequence), the calls return
  each of the 16 listed types at least once and nothing else, \<^verbatim>\<open>'custom_shape'\<close> is not
  among them, and the index stays below 16. The list has 16 distinct entries.
\<close>

theorem C4_round_robin_excludes_custom_shape:
  assumes "idx < 16" and "16 \<le> n"
  shows "length FIREWORK_TYPES = 16 \<and> distinct FIREWORK_TYPES
    \<and> set (selections n idx) = Some ` set FIREWORK_TYPES
    \<and> Some ''custom_shape'' \<notin> set (selections n idx)
    \<and> (\<forall>k<n. selections n idx ! k = Some (FIREWORK_TYPES ! ((idx + k) mod 16)))
    \<and> snd (getNextFireworkType idx) < 16"
proof -
  have eq: "set (selections n idx) = Some ` set FIREWORK_TYPES"
    using selections_subset [OF assms(1)] selections_cover [OF assms] by blast
  have "Some ''custom_shape'' \<notin> Some ` set FIREWORK_TYPES"
    using custom_shape_not_listed by blast
  then show ?thesis
    using eq assms(1) selections_nth [OF assms(1)]
    by (simp add: length_FIREWORK_TYPES distinct_FIREWORK_TYPES getNextFireworkType_def)
qed

theorem C4_round_robin_witness:
  "length FIREWORK_TYPES = 16 \<and> distinct FIREWORK_TYPES
    \<and> set (selections 17 3) = Some ` set FIREWORK_TYPES
    \<and> Some ''custom_shape'' \<notin> set (selections 17 3)
    \<and> selections 17 3 ! 14 = Some ''cosmic''
    \<and> snd (getNextFireworkType 3) < 16"
proof -
  have a: "(3::nat) < 16" and b: "(16::nat) \<le> 17" by simp_all
  have "FIREWORK_TYPES ! ((3 + 14) mod 16) = ''cosmic''"
    by (simp add: FIREWORK_TYPES_def)
  moreover have "Some ''custom_shape'' \<notin> Some ` set FIREWORK_TYPES"
    using custom_shape_not_listed by blast
  ultimately show ?thesis
    using C4_round_robin_excludes_custom_shape [OF a b] by simp
qed
section \<open>Properties of the binary64 rounding\<close>

lemma rne_floor: "\<lfloor>y\<rfloor> \<le> rne y"
  by (simp add: rne_def Let_def)

lemma rne_ceiling: "rne y \<le> \<lceil>y\<rceil>"
proof (cases "y = of_int \<lfloor>y\<rfloor>")
  case True
  then have "rne y = \<lfloor>y\<rfloor>" by (simp add: rne_def Let_def)
  then show ?thesis by (simp add: floor_le_ceiling)
next
  case False
  then have "\<lceil>y\<rceil> = \<lfloor>y\<rfloor> + 1" by (simp add: ceiling_altdef)
  then show ?thesis by (simp add: rne_def Let_def)
qed

lemma rne_le: "y \<le> of_int n \<Longrightarrow> rne y \<le> n"
proof -
  assume "y \<le> of_int n"
  then have "\<lceil>y\<rceil> \<le> n" by (simp add: ceiling_le)
  then show ?thesis using rne_ceiling [of y] by linarith
qed

lemma rne_ge: "of_int n \<le> y \<Longrightarrow> n \<le> rne y"
proof -
  assume "of_int n \<le> y"
  then have "n \<le> \<lfloor>y\<rfloor>" by (simp add: le_floor_iff)
  then show ?thesis using rne_floor [of y] by linarith
qed

lemma rne_of_int: "rne (of_int n) = n"
  by (simp add: rne_def)

lemma rne_div:
  assumes "0 < k"
  shows "rne (of_int m / 2 ^ k) =
    (if m mod 2 ^ k > 2 ^ (k - 1) \<or> (m mod 2 ^ k = 2 ^ (k - 1) \<and> odd (m div 2 ^ k))
     then m div 2 ^ k + 1 else m div 2 ^ k)"
proof -
  let ?q = "m div 2 ^ k" and ?r = "m mod 2 ^ k"
  have fl: "\<lfloor>real_of_int m / 2 ^ k\<rfloor> = ?q"
    using floor_divide_of_int_eq [of m "2 ^ k"] by simp
  have "m = ?q * 2 ^ k + ?r" by (simp only: div_mult_mod_eq)
  then have "real_of_int m = real_of_int (?q * 2 ^ k + ?r)" by (simp only:)
  then have "real_of_int m = of_int ?q * 2 ^ k + of_int ?r" by simp
  then have fr: "real_of_int m / 2 ^ k - of_int ?q = of_int ?r / 2 ^ k"
    by (simp add: field_simps)
  have p: "(2::real) ^ k = 2 * 2 ^ (k - 1)" "(2::int) ^ k = 2 * 2 ^ (k - 1)"
    using assms by (simp_all add: power_eq_if)
  have lt: "real_of_int ?r / 2 ^ k < 1 / 2 \<longleftrightarrow> ?r < 2 ^ (k - 1)"
  proof -
    have "real_of_int ?r / 2 ^ k < 1 / 2 \<longleftrightarrow> real_of_int ?r < 2 ^ (k - 1)"
      by (simp add: p(1) field_simps)
    also have "\<dots> \<longleftrightarrow> ?r < 2 ^ (k - 1)"
      using of_int_less_iff [of ?r "2 ^ (k - 1)", where ?'a = real] by simp
    finally show ?thesis .
  qed
  have gt: "1 / 2 < real_of_int ?r / 2 ^ k \<longleftrightarrow> 2 ^ (k - 1) < ?r"
  proof -
    have "1 / 2 < real_of_int ?r / 2 ^ k \<longleftrightarrow> 2 ^ (k - 1) < real_of_int ?r"
      by (simp add: p(1) field_simps)
    also have "\<dots> \<longleftrightarrow> 2 ^ (k - 1) < ?r"
      using of_int_less_iff [of "2 ^ (k - 1)" ?r, where ?'a = real] by simp
    finally show ?thesis .
  qed
  show ?thesis
    unfolding rne_def Let_def fl fr lt gt by auto
qed

text \<open>
  Rounding does not cross a representable number: a number that is at most (at least)
  a non-negative binary64 number \<open>M \<sqdot> 2\<^sup>t \<sqdot> 2\<^sup>-\<^sup>1\<^sup>0\<^sup>7\<^sup>4\<close> is rounded to a number that is at most (at
  least) it.
\<close>

lemma fl64_le_rep:
  assumes "x \<le> of_int M * 2 ^ t / 2 ^ 1074" and "0 \<le> M" and "M < 2 ^ 53"
  shows "fl64 x \<le> of_int M * 2 ^ t / 2 ^ 1074"
proof -
  define P where "P = (2::real) ^ 1074"
  have P: "0 < P" by (simp add: P_def)
  define N where "N = \<lfloor>\<bar>x\<bar> * P\<rfloor>"
  define s where "s = nat (bitlen N - 53)"
  have fl: "fl64 x = of_int (rne (x * P / 2 ^ s)) * 2 ^ s / P"
    unfolding fl64_def Let_def s_def N_def P_def ..
  have a1: "x \<le> of_int M * 2 ^ t / P" using assms(1) unfolding P_def .
  have X: "x * P \<le> of_int (M * 2 ^ t)"
    using a1 P by (simp add: field_simps)
  have "fl64 x \<le> of_int M * 2 ^ t / P"
  proof (cases "x \<le> 0")
    case True
    then have "x * P / 2 ^ s \<le> of_int 0"
      using P by (simp add: mult_nonpos_nonneg divide_nonpos_pos)
    then have "rne (x * P / 2 ^ s) \<le> 0" by (rule rne_le)
    then have "real_of_int (rne (x * P / 2 ^ s)) * 2 ^ s / P \<le> 0"
      using P by (simp add: mult_nonpos_nonneg divide_nonpos_pos)
    also have "0 \<le> real_of_int M * 2 ^ t / P" using assms(2) P by simp
    finally show ?thesis unfolding fl .
  next
    case False
    then have ax: "\<bar>x\<bar> = x" by simp
    have NV: "N \<le> M * 2 ^ t"
      unfolding N_def ax using X by (simp only: floor_le_iff)
    have st: "s \<le> t"
    proof (rule ccontr)
      assume "\<not> s \<le> t"
      then have "int t + 54 \<le> bitlen N" by (simp add: s_def)
      then have "2 ^ (t + 53) \<le> N"
        by (simp add: bitlen_ge_iff_power nat_add_distrib add.commute)
      moreover have "M * 2 ^ t < 2 ^ (t + 53)"
        using assms(3) by (simp add: power_add)
      ultimately show False using NV by linarith
    qed
    then have "M * 2 ^ t = (M * 2 ^ (t - s)) * 2 ^ s"
      by (simp add: power_add [symmetric])
    then have e: "real_of_int (M * 2 ^ t) = of_int (M * 2 ^ (t - s)) * 2 ^ s"
      by (metis of_int_mult of_int_numeral of_int_power)
    have "x * P / 2 ^ s \<le> of_int (M * 2 ^ (t - s))"
      using X unfolding e by (simp add: field_simps)
    then have "rne (x * P / 2 ^ s) \<le> M * 2 ^ (t - s)" by (rule rne_le)
    then have "real_of_int (rne (x * P / 2 ^ s)) \<le> of_int (M * 2 ^ (t - s))"
      by (simp only: of_int_le_iff)
    then have "real_of_int (rne (x * P / 2 ^ s)) * 2 ^ s \<le> of_int (M * 2 ^ (t - s)) * 2 ^ s"
      by (simp add: mult_right_mono)
    also have "\<dots> = of_int M * 2 ^ t"
      using e by (metis of_int_mult of_int_numeral of_int_power)
    finally show ?thesis unfolding fl using P by (simp add: divide_right_mono)
  qed
  then show ?thesis unfolding P_def .
qed

lemma fl64_ge_rep:
  assumes "of_int M * 2 ^ t / 2 ^ 1074 \<le> x" and "0 \<le> M" and "M < 2 ^ 53"
  shows "of_int M * 2 ^ t / 2 ^ 1074 \<le> fl64 x"
proof -
  define P where "P = (2::real) ^ 1074"
  have P: "0 < P" by (simp add: P_def)
  define N where "N = \<lfloor>\<bar>x\<bar> * P\<rfloor>"
  define s where "s = nat (bitlen N - 53)"
  have fl: "fl64 x = of_int (rne (x * P / 2 ^ s)) * 2 ^ s / P"
    unfolding fl64_def Let_def s_def N_def P_def ..
  have a1: "of_int M * 2 ^ t / P \<le> x" using assms(1) unfolding P_def .
  have "0 \<le> real_of_int M * 2 ^ t / P" using assms(2) P by simp
  then have x0: "0 \<le> x" using a1 by linarith
  then have ax: "\<bar>x\<bar> = x" by simp
  have X: "of_int (M * 2 ^ t) \<le> x * P"
    using a1 P by (simp add: field_simps)
  have NX: "of_int N \<le> x * P"
    unfolding N_def ax by simp
  have goal: "of_int (M * 2 ^ t) \<le> real_of_int (rne (x * P / 2 ^ s)) * 2 ^ s"
  proof (cases "s \<le> t")
    case True
    then have "M * 2 ^ t = (M * 2 ^ (t - s)) * 2 ^ s"
      by (simp add: power_add [symmetric])
    then have e: "real_of_int (M * 2 ^ t) = of_int (M * 2 ^ (t - s)) * 2 ^ s"
      by (metis of_int_mult of_int_numeral of_int_power)
    have "of_int (M * 2 ^ (t - s)) \<le> x * P / 2 ^ s"
      using X unfolding e by (simp add: field_simps)
    then have "M * 2 ^ (t - s) \<le> rne (x * P / 2 ^ s)" by (rule rne_ge)
    then have "real_of_int (M * 2 ^ (t - s)) \<le> of_int (rne (x * P / 2 ^ s))"
      by (simp only: of_int_le_iff)
    then have "real_of_int (M * 2 ^ (t - s)) * 2 ^ s \<le> of_int (rne (x * P / 2 ^ s)) * 2 ^ s"
      by (simp add: mult_right_mono)
    then show ?thesis by (simp only: e)
  next
    case False
    then have s: "t < s" "0 < s" by simp_all
    then have bl: "bitlen N = int s + 53" by (simp add: s_def)
    then have "0 < N" using bitlen_eq_zero_iff [of N] by linarith
    then have "2 ^ nat (bitlen N - 1) \<le> N" using bitlen_bounds by blast
    then have "2 ^ (s + 52) \<le> N" by (simp add: bl nat_add_distrib add.commute)
    then have "real_of_int (2 ^ (s + 52)) \<le> of_int N" by (simp only: of_int_le_iff)
    moreover have "real_of_int (2 ^ (s + 52)) = 2 ^ (s + 52)" by simp
    ultimately have "(2::real) ^ (s + 52) \<le> x * P" using NX by linarith
    then have "of_int (2 ^ 52) \<le> x * P / 2 ^ s"
      by (simp add: power_add field_simps)
    then have "2 ^ 52 \<le> rne (x * P / 2 ^ s)" by (rule rne_ge)
    then have "real_of_int (2 ^ 52) \<le> of_int (rne (x * P / 2 ^ s))"
      by (simp only: of_int_le_iff)
    then have "real_of_int (2 ^ 52) * 2 ^ s \<le> of_int (rne (x * P / 2 ^ s)) * 2 ^ s"
      by (simp add: mult_right_mono)
    moreover have "real_of_int (M * 2 ^ t) \<le> real_of_int (2 ^ 52) * 2 ^ s"
    proof -
      have "M * 2 ^ t \<le> 2 ^ 53 * 2 ^ t" using assms(3) by simp
      also have "\<dots> = 2 ^ 52 * (2::int) ^ (Suc t)" by simp
      also have "\<dots> \<le> 2 ^ 52 * 2 ^ s"
        using s(1) by (simp add: Suc_le_eq power_increasing del: power_Suc)
      finally have "M * 2 ^ t \<le> 2 ^ 52 * 2 ^ s" .
      then have "real_of_int (M * 2 ^ t) \<le> of_int (2 ^ 52 * 2 ^ s)" by (simp only: of_int_le_iff)
      then show ?thesis by simp
    qed
    ultimately show ?thesis by linarith
  qed
  have "real_of_int M * 2 ^ t / P \<le> real_of_int (rne (x * P / 2 ^ s)) * 2 ^ s / P"
    using goal P by (simp add: divide_right_mono)
  then show ?thesis unfolding fl P_def .
qed

text \<open>The rounding on pairs computes \<open>fl64\<close>.\<close>

lemma powi_shift:
  assumes "- 1074 \<le> e"
  shows "(2::real) powi e = 2 ^ nat (e + 1074) / 2 ^ 1074"
proof -
  have "(2::real) powi e = 2 powi (int (nat (e + 1074)) - int 1074)"
    using assms by simp
  also have "\<dots> = 2 powi int (nat (e + 1074)) / 2 powi int 1074"
    by (rule power_int_diff) simp
  finally show ?thesis by (simp only: power_int_of_nat)
qed

lemma fl64_0: "fl64 0 = 0"
  by (simp add: fl64_def rne_def)

lemma fl64_b64_round:
  assumes "- 1074 \<le> e"
  shows "fl64 (of_int m * 2 powi e) = b64_val (b64_round m e)"
proof -
  define P where "P = (2::real) ^ 1074"
  have P: "0 < P" by (simp add: P_def)
  define j where "j = nat (e + 1074)"
  define x where "x = real_of_int m * 2 powi e"
  have pe: "(2::real) powi e = 2 ^ j / P"
    unfolding j_def P_def using assms by (rule powi_shift)
  have xP: "x * P = of_int (m * 2 ^ j)"
    using P by (simp add: x_def pe)
  have "\<bar>x\<bar> * P = \<bar>x * P\<bar>" using P by (simp add: abs_mult)
  also have "\<dots> = of_int (\<bar>m\<bar> * 2 ^ j)" unfolding xP by (simp add: abs_mult)
  finally have N: "\<lfloor>\<bar>x\<bar> * P\<rfloor> = \<bar>m\<bar> * 2 ^ j" by (simp only: floor_of_int)
  define s where "s = nat (bitlen (\<bar>m\<bar> * 2 ^ j) - 53)"
  have fl: "fl64 x = of_int (rne (x * P / 2 ^ s)) * 2 ^ s / P"
    unfolding fl64_def Let_def s_def N [symmetric] P_def ..
  have xval: "x = of_int m * 2 ^ j / P" by (simp add: x_def pe)
  have "fl64 x = b64_val (b64_round m e)"
  proof (cases "m = 0")
    case True
    then have "x = 0" by (simp add: x_def)
    moreover have "b64_round 0 e = (0, e)"
      using assms by (simp add: b64_round_def Let_def)
    ultimately show ?thesis
      using True by (simp add: fl64_0 b64_val_def)
  next
    case False
    then have m: "0 < \<bar>m\<bar>" by simp
    then have bl: "bitlen (\<bar>m\<bar> * 2 ^ j) = bitlen \<bar>m\<bar> + int j" by simp
    have b1: "1 \<le> bitlen \<bar>m\<bar>"
      using m bitlen_eq_zero_iff [of "\<bar>m\<bar>"] bitlen_nonneg [of "\<bar>m\<bar>"] by linarith
    have je: "- 1074 - e = - int j" using assms by (simp add: j_def)
    show ?thesis
    proof (cases "bitlen \<bar>m\<bar> \<le> 53")
      case True
      then have r: "b64_round m e = (m, e)"
        by (simp add: b64_round_def Let_def je)
      have sj: "s \<le> j" using True by (simp add: s_def bl)
      then have "m * 2 ^ j = (m * 2 ^ (j - s)) * 2 ^ s"
        by (simp add: power_add [symmetric])
      then have e: "real_of_int (m * 2 ^ j) = of_int (m * 2 ^ (j - s)) * 2 ^ s"
        by (metis of_int_mult of_int_numeral of_int_power)
      have "x * P / 2 ^ s = of_int (m * 2 ^ (j - s))"
        unfolding xP e by simp
      then have "rne (x * P / 2 ^ s) = m * 2 ^ (j - s)"
        by (simp only: rne_of_int)
      then have "fl64 x = of_int (m * 2 ^ (j - s)) * 2 ^ s / P"
        by (simp only: fl)
      also have "\<dots> = real_of_int (m * 2 ^ j) / P" by (simp only: e)
      also have "\<dots> = x" by (simp add: xval)
      finally show ?thesis by (simp add: r b64_val_def x_def)
    next
      case False
      define k where "k = nat (bitlen \<bar>m\<bar> - 53)"
      have k: "0 < k" "int k = bitlen \<bar>m\<bar> - 53" using False by (simp_all add: k_def)
      have ex: "max (bitlen \<bar>m\<bar> - 53) (- 1074 - e) = int k"
        using k by (simp add: je)
      have sk: "s = k + j" using k by (simp add: s_def bl nat_add_distrib)
      define q where "q = (if m mod 2 ^ k > 2 ^ (k - 1) \<or> (m mod 2 ^ k = 2 ^ (k - 1) \<and> odd (m div 2 ^ k))
           then m div 2 ^ k + 1 else m div 2 ^ k)"
      have r: "b64_round m e = (q, e + int k)"
        using k(1) by (simp add: b64_round_def Let_def ex q_def nat_diff_distrib)
      have "x * P / 2 ^ s = of_int m / 2 ^ k"
        unfolding xP sk by (simp add: power_add)
      then have "rne (x * P / 2 ^ s) = q"
        using rne_div [OF k(1), of m] by (simp only: q_def)
      then have "fl64 x = of_int q * 2 ^ (k + j) / P"
        by (simp only: fl sk)
      moreover have "(2::real) powi (e + int k) = 2 ^ (k + j) / P"
      proof -
        have "nat (e + int k + 1074) = k + j" using assms by (simp add: j_def)
        moreover have "- 1074 \<le> e + int k" using assms by simp
        ultimately show ?thesis using powi_shift [of "e + int k"] by (simp add: P_def)
      qed
      ultimately show ?thesis by (simp add: r b64_val_def)
    qed
  qed
  then show ?thesis by (simp only: x_def)
qed

text \<open>
  Evaluation: a number of the normal range whose scaled value is within less than a
  half of an integer is rounded to that integer; bounds by binary64 numbers written as
  \<open>M / 2\<^sup>k\<close>; numbers of at most 53 bits are fixed.
\<close>

lemma rne_near:
  assumes "\<bar>y - of_int n\<bar> < 1 / 2"
  shows "rne y = n"
proof (cases "of_int n \<le> y")
  case True
  moreover have "y < of_int n + 1" using assms by linarith
  ultimately have "\<lfloor>y\<rfloor> = n" by (rule floor_unique)
  then show ?thesis using assms True by (simp add: rne_def Let_def)
next
  case False
  have "real_of_int (n - 1) = of_int n - 1" by simp
  then have "of_int (n - 1) \<le> y" using assms by linarith
  moreover have "y < of_int (n - 1) + 1" using False by simp
  ultimately have "\<lfloor>y\<rfloor> = n - 1" by (rule floor_unique)
  then show ?thesis using assms False by (simp add: rne_def Let_def)
qed

lemma fl64_literal:
  assumes "k \<le> 1074" and "2 ^ 52 \<le> x * 2 ^ k" and "x * 2 ^ k < 2 ^ 53"
    and "\<bar>x * 2 ^ k - of_int n\<bar> < 1 / 2"
  shows "fl64 x = of_int n / 2 ^ k"
proof -
  define P where "P = (2::real) ^ 1074"
  define j where "j = 1074 - k"
  have Pk: "P = 2 ^ k * 2 ^ j"
    using assms(1) by (simp add: P_def j_def power_add [symmetric])
  have "0 < x * 2 ^ k" using assms(2) by (rule less_le_trans [rotated]) simp
  then have x: "0 < x" by (simp add: zero_less_mult_iff)
  define N where "N = \<lfloor>\<bar>x\<bar> * P\<rfloor>"
  have NP: "\<bar>x\<bar> * P = (x * 2 ^ k) * 2 ^ j" using x by (simp add: Pk)
  have lo: "(2::real) ^ (52 + j) \<le> (x * 2 ^ k) * 2 ^ j"
    using assms(2) by (simp add: power_add mult_right_mono)
  have hi: "(x * 2 ^ k) * 2 ^ j < 2 ^ (53 + j)"
    using assms(3) by (simp add: power_add mult_strict_right_mono)
  have "real_of_int (2 ^ (52 + j)) \<le> \<bar>x\<bar> * P" unfolding NP using lo by simp
  then have N1: "2 ^ (52 + j) \<le> N" unfolding N_def by (simp only: le_floor_iff)
  have "\<bar>x\<bar> * P < real_of_int (2 ^ (53 + j))" unfolding NP using hi by simp
  then have N2: "N < 2 ^ (53 + j)" unfolding N_def by (simp only: floor_less_iff)
  have "bitlen N \<le> int (53 + j)"
    by (metis N2 bitlen_le_iff_power nat_int of_nat_0_le_iff)
  moreover have "int (53 + j) \<le> bitlen N"
    using N1 by (simp add: bitlen_ge_iff_power nat_add_distrib)
  ultimately have "bitlen N = int (53 + j)" by linarith
  then have s: "nat (bitlen N - 53) = j" by simp
  have "fl64 x = of_int (rne (x * P / 2 ^ j)) * 2 ^ j / P"
    unfolding fl64_def Let_def N_def [symmetric, unfolded P_def] s P_def ..
  also have "x * P / 2 ^ j = x * 2 ^ k" by (simp add: Pk)
  also have "rne (x * 2 ^ k) = n" using assms(4) by (rule rne_near)
  also have "real_of_int n * 2 ^ j / P = of_int n / 2 ^ k" by (simp add: Pk)
  finally show ?thesis .
qed

lemma fl64_le_dyadic:
  assumes "x \<le> of_int M / 2 ^ k" and "0 \<le> M" and "M < 2 ^ 53" and "k \<le> 1074"
  shows "fl64 x \<le> of_int M / 2 ^ k"
proof -
  define P where "P = (2::real) ^ 1074"
  have Pk: "P = 2 ^ (1074 - k) * 2 ^ k"
    unfolding P_def using assms(4) by (simp add: power_add [symmetric])
  have e: "real_of_int M / 2 ^ k = of_int M * 2 ^ (1074 - k) / P"
    unfolding Pk by simp
  show ?thesis
    using fl64_le_rep [of x M "1074 - k", folded P_def] assms(1-3) unfolding e by blast
qed

lemma fl64_ge_dyadic:
  assumes "of_int M / 2 ^ k \<le> x" and "0 \<le> M" and "M < 2 ^ 53" and "k \<le> 1074"
  shows "of_int M / 2 ^ k \<le> fl64 x"
proof -
  define P where "P = (2::real) ^ 1074"
  have Pk: "P = 2 ^ (1074 - k) * 2 ^ k"
    unfolding P_def using assms(4) by (simp add: power_add [symmetric])
  have e: "real_of_int M / 2 ^ k = of_int M * 2 ^ (1074 - k) / P"
    unfolding Pk by simp
  show ?thesis
    using fl64_ge_rep [of M "1074 - k" x, folded P_def] assms(1-3) unfolding e by blast
qed

lemma fl64_dyadic:
  assumes "k \<le> 1074"
  shows "fl64 (of_int m / 2 ^ k) = b64_val (b64_round m (- int k))"
proof -
  have "real_of_int m / 2 ^ k = of_int m * 2 powi (- int k)"
    by (simp add: power_int_minus field_simps)
  then show ?thesis using fl64_b64_round [of "- int k" m] assms by simp
qed

lemma b64_round_small:
  assumes "\<bar>m\<bar> < 2 ^ 53" and "- 1074 \<le> e"
  shows "b64_round m e = (m, e)"
proof -
  have "bitlen \<bar>m\<bar> \<le> 53" using assms(1) by (simp add: bitlen_le_iff_power)
  then show ?thesis using assms(2) by (simp add: b64_round_def Let_def)
qed

lemma fl64_fixes:
  assumes "\<bar>m\<bar> < 2 ^ 53" and "k \<le> 1074"
  shows "fl64 (of_int m / 2 ^ k) = of_int m / 2 ^ k"
  using fl64_dyadic [OF assms(2), of m] b64_round_small [OF assms(1), of "- int k"] assms(2)
  by (simp add: b64_val_def power_int_minus field_simps)

text \<open>The literals of the source that are rounded, and the two ranges.\<close>

lemma literals:
  "fl64 0.1 = 7205759403792794 / 2 ^ 56"
  "fl64 0.4 = 7205759403792794 / 2 ^ 54"
  "fl64 0.6 = 5404319552844595 / 2 ^ 53"
  "fl64 0.85 = 7656119366529843 / 2 ^ 53"
proof -
  show "fl64 0.1 = 7205759403792794 / 2 ^ 56"
    using fl64_literal [of 56 "0.1" 7205759403792794] by simp
  show "fl64 0.4 = 7205759403792794 / 2 ^ 54"
    using fl64_literal [of 54 "0.4" 7205759403792794] by simp
  show "fl64 0.6 = 5404319552844595 / 2 ^ 53"
    using fl64_literal [of 53 "0.6" 5404319552844595] by simp
  show "fl64 0.85 = 7656119366529843 / 2 ^ 53"
    using fl64_literal [of 53 "0.85" 7656119366529843] by simp
qed

lemma speed_range:
  assumes "0 \<le> r" and "r < 1"
  shows "8 \<le> fl64 (8 + fl64 (r * 3))" and "fl64 (8 + fl64 (r * 3)) \<le> 11"
proof -
  have "real_of_int 0 / 2 ^ 0 \<le> r * 3" using assms(1) by simp
  then have "real_of_int 0 / 2 ^ 0 \<le> fl64 (r * 3)" by (rule fl64_ge_dyadic) simp_all
  then have a: "0 \<le> fl64 (r * 3)" by simp
  have "r * 3 \<le> real_of_int 3 / 2 ^ 0" using assms(2) by simp
  then have "fl64 (r * 3) \<le> real_of_int 3 / 2 ^ 0" by (rule fl64_le_dyadic) simp_all
  then have b: "fl64 (r * 3) \<le> 3" by simp
  have "real_of_int 8 / 2 ^ 0 \<le> 8 + fl64 (r * 3)" using a by simp
  then have "real_of_int 8 / 2 ^ 0 \<le> fl64 (8 + fl64 (r * 3))" by (rule fl64_ge_dyadic) simp_all
  then show "8 \<le> fl64 (8 + fl64 (r * 3))" by simp
  have "8 + fl64 (r * 3) \<le> real_of_int 11 / 2 ^ 0" using b by simp
  then have "fl64 (8 + fl64 (r * 3)) \<le> real_of_int 11 / 2 ^ 0" by (rule fl64_le_dyadic) simp_all
  then show "fl64 (8 + fl64 (r * 3)) \<le> 11" by simp
qed

lemma brighten_range:
  assumes "0 \<le> r" and "r < 1"
  shows "fl64 0.6 \<le> fl64 (fl64 (r * fl64 0.4) + fl64 0.6)"
    and "fl64 (fl64 (r * fl64 0.4) + fl64 0.6) \<le> 1"
proof -
  let ?c4 = "real_of_int 7205759403792794 / 2 ^ 54"
  let ?c6 = "real_of_int 5404319552844595 / 2 ^ 53"
  have c4: "fl64 0.4 = ?c4" and c6: "fl64 0.6 = ?c6" by (simp_all only: literals of_int_numeral)
  have "real_of_int 0 / 2 ^ 0 \<le> r * ?c4" using assms(1) by simp
  then have "real_of_int 0 / 2 ^ 0 \<le> fl64 (r * ?c4)" by (rule fl64_ge_dyadic) simp_all
  then have a: "0 \<le> fl64 (r * ?c4)" by simp
  have "r * ?c4 \<le> ?c4" using assms(2) by simp
  then have b: "fl64 (r * ?c4) \<le> ?c4" by (rule fl64_le_dyadic) simp_all
  have "?c6 \<le> fl64 (r * ?c4) + ?c6" using a by simp
  then have lo: "?c6 \<le> fl64 (fl64 (r * ?c4) + ?c6)" by (rule fl64_ge_dyadic) simp_all
  have "fl64 (r * ?c4) + ?c6 \<le> real_of_int 1 / 2 ^ 0" using b by simp
  then have "fl64 (fl64 (r * ?c4) + ?c6) \<le> real_of_int 1 / 2 ^ 0" by (rule fl64_le_dyadic) simp_all
  then have hi: "fl64 (fl64 (r * ?c4) + ?c6) \<le> 1" by simp
  show "fl64 0.6 \<le> fl64 (fl64 (r * fl64 0.4) + fl64 0.6)" unfolding c4 c6 by (rule lo)
  show "fl64 (fl64 (r * fl64 0.4) + fl64 0.6) \<le> 1" unfolding c4 c6 by (rule hi)
qed

text \<open>
  The draws \<open>1 - 2\<^sup>-\<^sup>5\<^sup>2\<close> and \<open>1 - 2\<^sup>-\<^sup>5\<^sup>3\<close>, the largest binary64 numbers below 1 on the grids
  of 52 and of 53 bits: both are binary64 numbers, the finale speed of the first is 11
  and the re-brightened alpha of the second is 1.
\<close>

lemma rounding_bitlens:
  "bitlen (13510798882111485::int) = 54"
  "bitlen (24769797950537726::int) = 55"
  "bitlen (64903710731685341753751502218854::int) = 106"
  "bitlen (18014398509481983::int) = 54"
  by code_simp+

lemma speed_at_last_draw:
  "fl64 ((1 - 1 / 2 ^ 52) * 3) = 6755399441055742 / 2 ^ 51"
  "fl64 (8 + 6755399441055742 / 2 ^ 51) = 11"
proof -
  have "(1 - 1 / 2 ^ 52) * 3 = real_of_int 13510798882111485 / 2 ^ 52" by simp
  moreover have "b64_round 13510798882111485 (- 52) = (6755399441055742, - 51)"
    by (simp add: b64_round_def Let_def rounding_bitlens)
  ultimately show "fl64 ((1 - 1 / 2 ^ 52) * 3) = 6755399441055742 / 2 ^ 51"
    using fl64_dyadic [of 52 13510798882111485]
    by (simp add: b64_val_def power_int_minus field_simps)
  have "8 + 6755399441055742 / 2 ^ 51 = real_of_int 24769797950537726 / 2 ^ 51" by simp
  moreover have "b64_round 24769797950537726 (- 51) = (6192449487634432, - 49)"
    by (simp add: b64_round_def Let_def rounding_bitlens)
  ultimately show "fl64 (8 + 6755399441055742 / 2 ^ 51) = 11"
    using fl64_dyadic [of 51 24769797950537726]
    by (simp add: b64_val_def power_int_minus field_simps)
qed

lemma brighten_at_last_draw:
  "fl64 ((1 - 1 / 2 ^ 53) * fl64 0.4) = 7205759403792793 / 2 ^ 54"
  "fl64 (7205759403792793 / 2 ^ 54 + fl64 0.6) = 1"
proof -
  have "(1 - 1 / 2 ^ 53) * (7205759403792794 / 2 ^ 54)
      = real_of_int 64903710731685341753751502218854 / 2 ^ 107" by simp
  moreover have "b64_round 64903710731685341753751502218854 (- 107) = (7205759403792793, - 54)"
    by (simp add: b64_round_def Let_def rounding_bitlens)
  ultimately show "fl64 ((1 - 1 / 2 ^ 53) * fl64 0.4) = 7205759403792793 / 2 ^ 54"
    unfolding literals using fl64_dyadic [of 107 64903710731685341753751502218854]
    by (simp add: b64_val_def power_int_minus field_simps)
  have "7205759403792793 / 2 ^ 54 + 5404319552844595 / 2 ^ 53
      = real_of_int 18014398509481983 / 2 ^ 54" by simp
  moreover have "b64_round 18014398509481983 (- 54) = (9007199254740992, - 53)"
    by (simp add: b64_round_def Let_def rounding_bitlens)
  ultimately show "fl64 (7205759403792793 / 2 ^ 54 + fl64 0.6) = 1"
    unfolding literals using fl64_dyadic [of 54 18014398509481983]
    by (simp add: b64_val_def power_int_minus field_simps)
qed

lemma quarter_steps:
  "fl64 1 = 1" "fl64 (3 / 4) = 3 / 4" "fl64 (1 / 2) = 1 / 2" "fl64 (1 / 4) = 1 / 4"
  using fl64_fixes [of 1 0] fl64_fixes [of 3 2] fl64_fixes [of 1 1] fl64_fixes [of 1 2]
  by simp_all

lemma speed_at_half: "fl64 (3 / 2) = 3 / 2" "fl64 (19 / 2) = 19 / 2"
  using fl64_fixes [of 3 1] fl64_fixes [of 19 1] by simp_all

lemma draws_are_binary64:
  "fl64 (1 - 1 / 2 ^ 52) = 1 - 1 / 2 ^ 52"
  "fl64 (1 - 1 / 2 ^ 53) = 1 - 1 / 2 ^ 53"
  using fl64_fixes [of 4503599627370495 52] fl64_fixes [of 9007199254740991 53]
  by simp_all

section \<open>Properties of the finale\<close>

lemma finaleRay_fields:
  "fw_x (finaleRay w h rnd k i) = w / 2"
  "fw_y (finaleRay w h rnd k i) = h"
  "fw_angle (finaleRay w h rnd k i) = - pi * 0.9 + real i * (0.8 * pi / 60)"
  "fw_speed (finaleRay w h rnd k i) = fl64 (8 + fl64 (rnd (k + i) * 3))"
  "fw_customColor (finaleRay w h rnd k i) = Some (finaleColor (real i / 60))"
  "fw_type (finaleRay w h rnd k i) = Some ''streamer''"
  "fw_distanceTraveled (finaleRay w h rnd k i) = 0"
  by (simp_all add: finaleRay_def Let_def algebra_simps)

lemma nth_map_upt_7: "map f [0..<60] ! 7 = f 7"
  by simp

lemma finaleColor_bands:
  "map (\<lambda>i. finaleColor (real i / 60)) [0..<60] =
    replicate 9 ''hsl(200, 100%, 60%)'' @ replicate 9 ''hsl(170, 100%, 50%)''
    @ replicate 9 ''hsl(120, 100%, 60%)'' @ replicate 9 ''hsl(60, 100%, 60%)''
    @ replicate 9 ''hsl(0, 100%, 65%)'' @ replicate 9 ''hsl(300, 100%, 60%)''
    @ replicate 6 ''hsl(270, 100%, 65%)''"
  by (simp add: finaleColor_def upt_rec numeral_eq_Suc)

text \<open>
  C5. \<^verbatim>\<open>triggerFinale\<close> appends exactly 60 projectiles to the live set and takes 60
  draws. Every one starts at bottom-centre \<open>(width/2, height)\<close>. The launch angle of
  the \<open>i\<close>-th is \<open>-0.9\<pi> + i \<sqdot> (0.8\<pi>/60)\<close>: strictly increasing in \<open>i\<close>, from \<open>-0.9\<pi>\<close>, below
  \<open>-0.1\<pi>\<close>. The override colours are, in the order of the fan, 9 times the hue 200
  (blue), 9 times 170 (cyan), 9 times 120 (green), 9 times 60 (yellow), 9 times 0 (red),
  9 times 300 (magenta) and 6 times 270 (violet). The initial speed of the \<open>i\<close>-th is the
  binary64 value of \<open>8 + draw \<sqdot> 3\<close>; with draws in \<open>[0, 1)\<close> every initial speed is in the
  closed band \<open>[8, 11]\<close>.
\<close>

theorem C5_triggerFinale_fan:
  "fst (triggerFinale w h rnd k fws) = fws @ drop (length fws) (fst (triggerFinale w h rnd k fws))
   \<and> length (drop (length fws) (fst (triggerFinale w h rnd k fws))) = 60
   \<and> snd (triggerFinale w h rnd k fws) = k + 60
   \<and> (\<forall>i<60. fw_x (fst (triggerFinale w h rnd k fws) ! (length fws + i)) = w / 2
           \<and> fw_y (fst (triggerFinale w h rnd k fws) ! (length fws + i)) = h
           \<and> fw_angle (fst (triggerFinale w h rnd k fws) ! (length fws + i))
               = - pi * 0.9 + real i * (0.8 * pi / 60)
           \<and> fw_angle (fst (triggerFinale w h rnd k fws) ! (length fws + i)) < - pi * 0.1)
   \<and> (\<forall>i j. i < j \<longrightarrow> j < 60 \<longrightarrow>
         fw_angle (fst (triggerFinale w h rnd k fws) ! (length fws + i))
           < fw_angle (fst (triggerFinale w h rnd k fws) ! (length fws + j)))
   \<and> map fw_customColor (drop (length fws) (fst (triggerFinale w h rnd k fws))) =
        map Some
         (replicate 9 ''hsl(200, 100%, 60%)'' @ replicate 9 ''hsl(170, 100%, 50%)''
          @ replicate 9 ''hsl(120, 100%, 60%)'' @ replicate 9 ''hsl(60, 100%, 60%)''
          @ replicate 9 ''hsl(0, 100%, 65%)'' @ replicate 9 ''hsl(300, 100%, 60%)''
          @ replicate 6 ''hsl(270, 100%, 65%)'')
   \<and> (\<forall>i<60. fw_speed (fst (triggerFinale w h rnd k fws) ! (length fws + i))
           = fl64 (8 + fl64 (rnd (k + i) * 3)))
   \<and> (unitDraws rnd \<longrightarrow>
        (\<forall>i<60. 8 \<le> fw_speed (fst (triggerFinale w h rnd k fws) ! (length fws + i))
              \<and> fw_speed (fst (triggerFinale w h rnd k fws) ! (length fws + i)) \<le> 11))"
proof -
  let ?new = "map (finaleRay w h rnd k) [0..<60]"
  have f: "fst (triggerFinale w h rnd k fws) = fws @ ?new"
    and s: "snd (triggerFinale w h rnd k fws) = k + 60"
    by (simp_all add: triggerFinale_def)
  have nth: "(fws @ ?new) ! (length fws + i) = finaleRay w h rnd k i" if "i < 60" for i
    using that by (simp add: nth_append)
  have ang: "fw_angle (finaleRay w h rnd k i) < - pi * 0.1" if "i < 60" for i
  proof -
    have "real i < 60" using that by simp
    then have "real i * (0.8 * pi / 60) < 60 * (0.8 * pi / 60)"
      by (intro mult_strict_right_mono) simp_all
    then have "real i * (0.8 * pi / 60) < 0.8 * pi" by simp
    then show ?thesis unfolding finaleRay_fields(3) by linarith
  qed
  have inc: "fw_angle (finaleRay w h rnd k i) < fw_angle (finaleRay w h rnd k j)"
    if "i < j" for i j
  proof -
    have "real i < real j" using that by simp
    then have "real i * (0.8 * pi / 60) < real j * (0.8 * pi / 60)"
      by (intro mult_strict_right_mono) simp_all
    then show ?thesis unfolding finaleRay_fields(3) by linarith
  qed
  have col: "map fw_customColor ?new = map Some (map (\<lambda>i. finaleColor (real i / 60)) [0..<60])"
    by (simp add: finaleRay_fields o_def)
  have spd: "8 \<le> fw_speed (finaleRay w h rnd k i) \<and> fw_speed (finaleRay w h rnd k i) \<le> 11"
    if "unitDraws rnd" for i
  proof -
    have "0 \<le> rnd (k + i)" and "rnd (k + i) < 1"
      using that by (simp_all add: unitDraws_def)
    then show ?thesis
      unfolding finaleRay_fields(4) using speed_range [of "rnd (k + i)"] by blast
  qed
  have 1: "\<forall>i<60. fw_x ((fws @ ?new) ! (length fws + i)) = w / 2
           \<and> fw_y ((fws @ ?new) ! (length fws + i)) = h
           \<and> fw_angle ((fws @ ?new) ! (length fws + i)) = - pi * 0.9 + real i * (0.8 * pi / 60)
           \<and> fw_angle ((fws @ ?new) ! (length fws + i)) < - pi * 0.1"
  proof (intro allI impI)
    fix i :: nat assume i: "i < 60"
    show "fw_x ((fws @ ?new) ! (length fws + i)) = w / 2
           \<and> fw_y ((fws @ ?new) ! (length fws + i)) = h
           \<and> fw_angle ((fws @ ?new) ! (length fws + i)) = - pi * 0.9 + real i * (0.8 * pi / 60)
           \<and> fw_angle ((fws @ ?new) ! (length fws + i)) < - pi * 0.1"
      unfolding nth [OF i]
      using finaleRay_fields(1-3) [of w h rnd k i] ang [OF i] by blast
  qed
  have 2: "\<forall>i j. i < j \<longrightarrow> j < 60 \<longrightarrow>
         fw_angle ((fws @ ?new) ! (length fws + i)) < fw_angle ((fws @ ?new) ! (length fws + j))"
  proof (intro allI impI)
    fix i j :: nat assume ij: "i < j" "j < 60"
    then have "i < 60" by simp
    from nth [OF this] nth [OF ij(2)] inc [OF ij(1)]
    show "fw_angle ((fws @ ?new) ! (length fws + i)) < fw_angle ((fws @ ?new) ! (length fws + j))"
      by simp
  qed
  have 3: "unitDraws rnd \<longrightarrow>
        (\<forall>i<60. 8 \<le> fw_speed ((fws @ ?new) ! (length fws + i))
              \<and> fw_speed ((fws @ ?new) ! (length fws + i)) \<le> 11)"
  proof (intro allI impI)
    fix i :: nat assume u: "unitDraws rnd" and i: "i < 60"
    show "8 \<le> fw_speed ((fws @ ?new) ! (length fws + i))
              \<and> fw_speed ((fws @ ?new) ! (length fws + i)) \<le> 11"
      unfolding nth [OF i] by (rule spd [OF u])
  qed
  have 4: "\<forall>i<60. fw_speed ((fws @ ?new) ! (length fws + i))
           = fl64 (8 + fl64 (rnd (k + i) * 3))"
  proof (intro allI impI)
    fix i :: nat assume i: "i < 60"
    show "fw_speed ((fws @ ?new) ! (length fws + i)) = fl64 (8 + fl64 (rnd (k + i) * 3))"
      unfolding nth [OF i] by (rule finaleRay_fields(4))
  qed
  have c0: "fws @ ?new = fws @ drop (length fws) (fws @ ?new)"
    and c1: "length (drop (length fws) (fws @ ?new)) = 60"
    by simp_all
  have c2: "map fw_customColor (drop (length fws) (fws @ ?new)) =
        map Some
         (replicate 9 ''hsl(200, 100%, 60%)'' @ replicate 9 ''hsl(170, 100%, 50%)''
          @ replicate 9 ''hsl(120, 100%, 60%)'' @ replicate 9 ''hsl(60, 100%, 60%)''
          @ replicate 9 ''hsl(0, 100%, 65%)'' @ replicate 9 ''hsl(300, 100%, 60%)''
          @ replicate 6 ''hsl(270, 100%, 65%)'')"
    using col by (simp only: finaleColor_bands drop_append length_map diff_self_eq_0
        drop_all order_refl append_Nil drop_0)
  show ?thesis
    unfolding f s by (intro conjI) (rule c0 c1 refl 1 2 c2 4 3)+
qed

theorem C5_triggerFinale_witness:
  "length (fst (triggerFinale 800 600 (\<lambda>n. 1 / 2) 0 [])) = 60
   \<and> fw_x (fst (triggerFinale 800 600 (\<lambda>n. 1 / 2) 0 []) ! 7) = 400
   \<and> fw_y (fst (triggerFinale 800 600 (\<lambda>n. 1 / 2) 0 []) ! 7) = 600
   \<and> fw_angle (fst (triggerFinale 800 600 (\<lambda>n. 1 / 2) 0 []) ! 7)
        < fw_angle (fst (triggerFinale 800 600 (\<lambda>n. 1 / 2) 0 []) ! 8)
   \<and> fw_customColor (fst (triggerFinale 800 600 (\<lambda>n. 1 / 2) 0 []) ! 9)
        = Some ''hsl(170, 100%, 50%)''
   \<and> fw_speed (fst (triggerFinale 800 600 (\<lambda>n. 1 / 2) 0 []) ! 7) = 19 / 2
   \<and> 8 \<le> fw_speed (fst (triggerFinale 800 600 (\<lambda>n. 1 / 2) 0 []) ! 7)
   \<and> fw_speed (fst (triggerFinale 800 600 (\<lambda>n. 1 / 2) 0 []) ! 7) \<le> 11"
proof -
  have u: "unitDraws (\<lambda>n. 1 / 2)" by (simp add: unitDraws_def)
  have c: "fw_customColor (fst (triggerFinale 800 600 (\<lambda>n. 1 / 2) 0 []) ! 9)
        = Some ''hsl(170, 100%, 50%)''"
    by (simp add: triggerFinale_def finaleRay_fields finaleColor_def)
  show ?thesis
    using C5_triggerFinale_fan [of 800 600 "\<lambda>n. 1 / 2" 0 "[]"] u c
    by (simp add: speed_at_half)
qed

text \<open>
  The claim as stated puts every initial speed in the half-open band \<open>[8, 11)\<close>. The
  draw \<open>1 - 2\<^sup>-\<^sup>5\<^sup>2\<close> is a binary64 number in \<open>[0, 1)\<close>; with it the product rounds to
  \<open>3 - 2\<^sup>-\<^sup>5\<^sup>0\<close> and the sum to 11, so that the projectile is launched with speed exactly 11.
\<close>

theorem C5_speed_eleven_counterexample:
  "unitDraws (\<lambda>n. 1 - 1 / 2 ^ 52)
   \<and> fl64 (1 - 1 / 2 ^ 52) = 1 - 1 / 2 ^ 52
   \<and> length (fst (triggerFinale 800 600 (\<lambda>n. 1 - 1 / 2 ^ 52) 0 [])) = 60
   \<and> fw_speed (fst (triggerFinale 800 600 (\<lambda>n. 1 - 1 / 2 ^ 52) 0 []) ! 7) = 11"
proof -
  have "unitDraws (\<lambda>n. 1 - 1 / 2 ^ 52)" by (simp add: unitDraws_def)
  moreover have "fw_speed (fst (triggerFinale 800 600 (\<lambda>n. 1 - 1 / 2 ^ 52) 0 []) ! 7) = 11"
    by (simp only: triggerFinale_def fst_conv append_Nil nth_map_upt_7 finaleRay_fields(4)
        speed_at_last_draw)
  moreover have "length (fst (triggerFinale 800 600 (\<lambda>n. 1 - 1 / 2 ^ 52) 0 [])) = 60"
    by (simp add: triggerFinale_def)
  ultimately show ?thesis using draws_are_binary64(1) by blast
qed

section \<open>Properties of the explosion generators\<close>

lemma pick_in_palette:
  assumes "palette \<noteq> []" and "0 \<le> r" and "r < 1"
  shows "pick palette r \<in> set palette"
proof -
  let ?n = "real (length palette)"
  have n: "0 < ?n" using assms(1) by simp
  have "r * ?n < ?n" using assms(3) n by simp
  then have "\<lfloor>r * ?n\<rfloor> < int (length palette)" by (simp add: floor_less_iff)
  moreover have "0 \<le> \<lfloor>r * ?n\<rfloor>" using assms(2) n by simp
  ultimately have "nat \<lfloor>r * ?n\<rfloor> < length palette" by linarith
  then show ?thesis unfolding pick_def by (rule nth_mem)
qed

lemma random_range:
  assumes "0 \<le> r" and "r < 1" and "mn < mx"
  shows "mn \<le> random r mn mx" and "random r mn mx < mx"
proof -
  have "0 \<le> r * (mx - mn)" using assms by simp
  then show "mn \<le> random r mn mx" by (simp add: random_def)
  have "r * (mx - mn) < 1 * (mx - mn)"
    using assms by (intro mult_strict_right_mono) simp_all
  then show "random r mn mx < mx" by (simp add: random_def)
qed

subsection \<open>The default burst\<close>

lemma standardBurst_length: "length (fst (standardBurst rnd k x y)) = 60"
  by (simp add: standardBurst_def Let_def)

lemma standardBurst_draws: "snd (standardBurst rnd k x y) = k + 241"
  by (simp add: standardBurst_def Let_def)

lemma standardBurst_particle:
  assumes "p \<in> set (fst (standardBurst rnd k x y))"
  shows "p_color p = pick STANDARD_COLORS (rnd k)"
    and "\<exists>i<60. p_alpha p = random (rnd (k + 1 + 4 * i + 2)) 0.6 1"
    and "p_x p = x" and "p_y p = y" and "p_useTrail p = Some False"
  using assms by (auto simp: standardBurst_def Let_def)

lemma standardBurst_palette:
  assumes "unitDraws rnd" and "p \<in> set (fst (standardBurst rnd k x y))"
  shows "p_color p \<in> set STANDARD_COLORS" and "0.6 \<le> p_alpha p" and "p_alpha p < 1"
proof -
  have r: "0 \<le> rnd n" "rnd n < 1" for n using assms(1) by (simp_all add: unitDraws_def)
  have "STANDARD_COLORS \<noteq> []" by (simp add: STANDARD_COLORS_def)
  then show "p_color p \<in> set STANDARD_COLORS"
    using standardBurst_particle(1) [OF assms(2)] pick_in_palette r by simp
  from standardBurst_particle(2) [OF assms(2)]
  obtain i where a: "p_alpha p = random (rnd (k + 1 + 4 * i + 2)) 0.6 1" by blast
  show "0.6 \<le> p_alpha p" "p_alpha p < 1"
    unfolding a
    using random_range [where r = "rnd (k + 1 + 4 * i + 2)" and mn = "0.6" and mx = 1] r
    by simp_all
qed

lemma STANDARD_COLORS_six: "length STANDARD_COLORS = 6 \<and> distinct STANDARD_COLORS"
  by (simp add: STANDARD_COLORS_def)

subsection \<open>The override burst and the drone display\<close>

lemma overrideBurst_length: "length (fst (overrideBurst c rnd k x y)) = 10"
  by (simp add: overrideBurst_def)

lemma overrideBurst_particle:
  "p \<in> set (fst (overrideBurst c rnd k x y)) \<Longrightarrow>
     p_color p = c \<and> p_alpha p = 1 \<and> p_decay p = 0.1 \<and> p_shimmer p = None"
  by (auto simp: overrideBurst_def)

lemma droneDisplay_length: "length (fst (droneDisplay shape rnd k x y)) = length shape"
  by (simp add: droneDisplay_def)

lemma droneDisplay_nth:
  "i < length shape \<Longrightarrow>
    fst (droneDisplay shape rnd k x y) ! i = droneParticle rnd (k + 4 * i) x y (shape ! i)"
  by (simp add: droneDisplay_def)

lemma droneParticle_fields:
  "p_x (droneParticle rnd k x y p) = x + pnt_x p * 60"
  "p_y (droneParticle rnd k x y p) = y + pnt_y p * 60"
  "p_vx (droneParticle rnd k x y p) = (rnd (k + 1) - 0.5) * 0.15"
  "p_vy (droneParticle rnd k x y p) = (rnd (k + 2) - 0.5) * 0.15"
  "p_useTrail (droneParticle rnd k x y p) = Some False"
  "p_alpha (droneParticle rnd k x y p) = 1"
  "p_shimmer (droneParticle rnd k x y p) = Some True"
  "p_color (droneParticle rnd k x y p) \<in> {''#00FFFF'', ''#FFFFFF'', ''#1E90FF''}"
  by (simp_all add: droneParticle_def Let_def)

lemma jitter_bound:
  assumes "0 \<le> r" and "r < 1"
  shows "\<bar>(r - 0.5) * 0.15\<bar> \<le> (0.075::real)"
  using assms by (simp add: abs_le_iff field_simps)

subsection \<open>Dispatch\<close>

lemma createExplosion_drone:
  assumes "shape \<noteq> []"
  shows "createExplosion (Some shape) rnd k particles x y hue (Some ''custom_shape'') cc
    = (particles @ fst (droneDisplay shape rnd k x y), k + 4 * length shape)"
  using assms by (simp add: createExplosion_def droneDisplay_def)

lemma createExplosion_override:
  assumes "truthy_str cc"
    and "typeArg \<noteq> Some ''custom_shape'' \<or> customShape = None \<or> customShape = Some []"
  shows "createExplosion customShape rnd k particles x y hue typeArg cc
    = (particles @ fst (overrideBurst (the cc) rnd k x y), k + 20)"
proof -
  have "\<not> ((case typeArg of None \<Rightarrow> ''standard'' | Some t \<Rightarrow> t) = ''custom_shape''
      \<and> (case customShape of None \<Rightarrow> False | Some shape \<Rightarrow> length shape > 0))"
    using assms(2) by (auto split: option.splits)
  then show ?thesis
    using assms(1) unfolding createExplosion_def Let_def
    by (simp only: if_False if_True) (simp add: overrideBurst_def)
qed

lemma createExplosion_default:
  assumes "\<not> truthy_str cc"
    and "(case typeArg of None \<Rightarrow> ''standard'' | Some t \<Rightarrow> t) \<notin> set recognizedTags
         \<or> (typeArg = Some ''custom_shape'' \<and> (customShape = None \<or> customShape = Some []))"
  shows "createExplosion customShape rnd k particles x y hue typeArg cc
    = (particles @ fst (standardBurst rnd k x y), k + 241)"
proof -
  let ?t = "case typeArg of None \<Rightarrow> ''standard'' | Some t \<Rightarrow> t"
  have shape: "\<not> (?t = ''custom_shape''
      \<and> (case customShape of None \<Rightarrow> False | Some shape \<Rightarrow> length shape > 0))"
    using assms(2) by (auto simp: recognizedTags_def split: option.splits)
  have tags: "?t \<noteq> ''tree_burst''" "?t \<noteq> ''love_burst''" "?t \<noteq> ''neon_flower''"
    "?t \<noteq> ''cyan_flower''" "?t \<noteq> ''floral_burst''" "?t \<noteq> ''violet_burst''"
    "?t \<noteq> ''strobe_flower''" "?t \<noteq> ''gold_flower''" "?t \<noteq> ''galaxy''" "?t \<noteq> ''heart''"
    "?t \<noteq> ''ring''" "?t \<noteq> ''glitter''" "?t \<noteq> ''palm''" "?t \<noteq> ''cosmic''"
    "?t \<noteq> ''streamer''"
    using assms(2) by (auto simp: recognizedTags_def)
  show ?thesis
    unfolding createExplosion_def Let_def
    using shape tags assms(1) by (simp only: if_False standardBurst_draws)
qed

lemma concat_heads_nonempty: "n > 0 \<Longrightarrow> concat (map (\<lambda>i. f i # g i) [0..<n]) \<noteq> []"
  by (cases n) (simp_all add: upt_conv_Cons del: upt_Suc)

lemma burst_nonempty:
  "fst (treeBurst rnd k x y) \<noteq> []" "fst (loveBurst rnd k x y) \<noteq> []"
  "fst (neonFlower rnd k x y) \<noteq> []" "fst (cyanFlower rnd k x y) \<noteq> []"
  "fst (floralBurst rnd k x y) \<noteq> []" "fst (goldFlower rnd k x y) \<noteq> []"
  "fst (galaxy rnd k x y) \<noteq> []" "fst (heartBurst rnd k x y) \<noteq> []"
  "fst (ringBurst rnd k x y) \<noteq> []" "fst (glitterBurst rnd k x y) \<noteq> []"
  "fst (palmBurst rnd k x y) \<noteq> []" "fst (cosmicBurst rnd k x y) \<noteq> []"
  "fst (streamerBurst rnd k x y) \<noteq> []" "fst (standardBurst rnd k x y) \<noteq> []"
  "fst (overrideBurst c rnd k x y) \<noteq> []"
  by (simp_all add: treeBurst_def loveBurst_def neonFlower_def cyanFlower_def floralBurst_def
      goldFlower_def galaxy_def heartBurst_def ringBurst_def glitterBurst_def palmBurst_def
      cosmicBurst_def streamerBurst_def standardBurst_def overrideBurst_def Let_def)

lemma burst_nonempty2:
  "fst (violetBurst rnd k x y) \<noteq> []" "fst (strobeFlower rnd k x y) \<noteq> []"
  unfolding violetBurst_def strobeFlower_def Let_def fst_conv
  by (simp_all only: concat_heads_nonempty append_is_Nil_conv zero_less_numeral
       simp_thms)

lemma if_nonempty:
  "\<lbrakk>c \<Longrightarrow> fst a \<noteq> []; \<not> c \<Longrightarrow> fst b \<noteq> []\<rbrakk> \<Longrightarrow> fst (if c then a else b) \<noteq> []"
  by simp

lemma createExplosion_never_nothing:
  "length (fst (createExplosion customShape rnd k particles x y hue typeArg cc)) > length particles"
proof -
  have n: "xs \<noteq> [] \<Longrightarrow> length (particles @ xs) > length particles" for xs :: "particle list"
    by simp
  have d: "fst (droneDisplay (the customShape) rnd k x y) \<noteq> []"
    if "t = ''custom_shape'' \<and> (case customShape of None \<Rightarrow> False | Some shape \<Rightarrow> length shape > 0)"
    for t :: string
    using that by (cases customShape) (simp_all add: droneDisplay_def)
  show ?thesis
    unfolding createExplosion_def Let_def fst_conv
    by (rule n) (intro if_nonempty burst_nonempty burst_nonempty2 d)
qed

section \<open>Explosion claims\<close>

text \<open>
  C7. A call of \<^verbatim>\<open>createExplosion\<close> with type \<^verbatim>\<open>'custom_shape'\<close> and a non-empty stored
  shape appends exactly one particle for each point of the shape, in order, at
  \<open>origin + point \<sqdot> 60\<close>, with the trail flag \<^verbatim>\<open>false\<close> and a colour of the palette
  \<^verbatim>\<open>#00FFFF\<close>, \<^verbatim>\<open>#FFFFFF\<close>, \<^verbatim>\<open>#1E90FF\<close>; with draws in \<open>[0, 1)\<close> each velocity component is
  at most 0.075 in magnitude. For the unit square at the origin the four particles are
  at (-60, -60), (60, -60), (60, 60), (-60, 60).
\<close>

theorem C7_drone_display_one_particle_per_point:
  assumes "shape \<noteq> []"
  shows "fst (createExplosion (Some shape) rnd k particles x y hue (Some ''custom_shape'') cc)
      = particles @ fst (droneDisplay shape rnd k x y)
    \<and> length (fst (droneDisplay shape rnd k x y)) = length shape
    \<and> (\<forall>i<length shape.
          p_x (fst (droneDisplay shape rnd k x y) ! i) = x + pnt_x (shape ! i) * 60
        \<and> p_y (fst (droneDisplay shape rnd k x y) ! i) = y + pnt_y (shape ! i) * 60
        \<and> p_useTrail (fst (droneDisplay shape rnd k x y) ! i) = Some False
        \<and> p_color (fst (droneDisplay shape rnd k x y) ! i)
             \<in> {''#00FFFF'', ''#FFFFFF'', ''#1E90FF''}
        \<and> (unitDraws rnd \<longrightarrow>
              \<bar>p_vx (fst (droneDisplay shape rnd k x y) ! i)\<bar> \<le> 0.075
            \<and> \<bar>p_vy (fst (droneDisplay shape rnd k x y) ! i)\<bar> \<le> 0.075))"
proof -
  have v: "\<bar>p_vx (droneParticle rnd j x y p)\<bar> \<le> 0.075 \<and> \<bar>p_vy (droneParticle rnd j x y p)\<bar> \<le> 0.075"
    if "unitDraws rnd" for j p
    using that jitter_bound [of "rnd (j + 1)"] jitter_bound [of "rnd (j + 2)"]
    by (simp add: droneParticle_fields unitDraws_def)
  have "\<forall>i<length shape.
          p_x (fst (droneDisplay shape rnd k x y) ! i) = x + pnt_x (shape ! i) * 60
        \<and> p_y (fst (droneDisplay shape rnd k x y) ! i) = y + pnt_y (shape ! i) * 60
        \<and> p_useTrail (fst (droneDisplay shape rnd k x y) ! i) = Some False
        \<and> p_color (fst (droneDisplay shape rnd k x y) ! i)
             \<in> {''#00FFFF'', ''#FFFFFF'', ''#1E90FF''}
        \<and> (unitDraws rnd \<longrightarrow>
              \<bar>p_vx (fst (droneDisplay shape rnd k x y) ! i)\<bar> \<le> 0.075
            \<and> \<bar>p_vy (fst (droneDisplay shape rnd k x y) ! i)\<bar> \<le> 0.075)"
  proof (intro allI impI conjI)
    fix i assume i: "i < length shape"
    note n = droneDisplay_nth [OF i, of rnd k x y]
    show "p_x (fst (droneDisplay shape rnd k x y) ! i) = x + pnt_x (shape ! i) * 60"
      unfolding n by (rule droneParticle_fields)
    show "p_y (fst (droneDisplay shape rnd k x y) ! i) = y + pnt_y (shape ! i) * 60"
      unfolding n by (rule droneParticle_fields)
    show "p_useTrail (fst (droneDisplay shape rnd k x y) ! i) = Some False"
      unfolding n by (rule droneParticle_fields)
    show "p_color (fst (droneDisplay shape rnd k x y) ! i) \<in> {''#00FFFF'', ''#FFFFFF'', ''#1E90FF''}"
      unfolding n by (rule droneParticle_fields)
    assume u: "unitDraws rnd"
    show "\<bar>p_vx (fst (droneDisplay shape rnd k x y) ! i)\<bar> \<le> 0.075"
      unfolding n using v [OF u] by blast
    show "\<bar>p_vy (fst (droneDisplay shape rnd k x y) ! i)\<bar> \<le> 0.075"
      unfolding n using v [OF u] by blast
  qed
  then show ?thesis
    using createExplosion_drone [OF assms, of rnd k particles x y hue cc] droneDisplay_length
    by simp
qed

theorem C7_unit_square_witness:
  "length (fst (createExplosion (Some unitSquare) (\<lambda>n. 1 / 2) 0 [] 0 0 0
       (Some ''custom_shape'') None)) = 4
   \<and> map (\<lambda>p. (p_x p, p_y p))
        (fst (createExplosion (Some unitSquare) (\<lambda>n. 1 / 2) 0 [] 0 0 0
          (Some ''custom_shape'') None))
      = [(- 60, - 60), (60, - 60), (60, 60), (- 60, 60)]
   \<and> map p_useTrail
        (fst (createExplosion (Some unitSquare) (\<lambda>n. 1 / 2) 0 [] 0 0 0
          (Some ''custom_shape'') None))
      = [Some False, Some False, Some False, Some False]
   \<and> \<bar>p_vx (fst (droneDisplay unitSquare (\<lambda>n. 1 / 2) 0 0 0) ! 2)\<bar> \<le> 0.075
   \<and> \<bar>p_vy (fst (droneDisplay unitSquare (\<lambda>n. 1 / 2) 0 0 0) ! 2)\<bar> \<le> 0.075"
proof -
  have ne: "unitSquare \<noteq> []" by (simp add: unitSquare_def)
  have u: "unitDraws (\<lambda>n. 1 / 2)" by (simp add: unitDraws_def)
  have len: "length unitSquare = 4" by (simp add: unitSquare_def)
  note t = C7_drone_display_one_particle_per_point [OF ne, of "\<lambda>n. 1 / 2" 0 "[]" 0 0 0 None]
  from t have e: "fst (createExplosion (Some unitSquare) (\<lambda>n. 1 / 2) 0 [] 0 0 0
       (Some ''custom_shape'') None) = fst (droneDisplay unitSquare (\<lambda>n. 1 / 2) 0 0 0)"
    by simp
  from t have l: "length (fst (droneDisplay unitSquare (\<lambda>n. 1 / 2) 0 0 0)) = 4"
    using len by simp
  from t u len have f: "\<forall>i<4.
          p_x (fst (droneDisplay unitSquare (\<lambda>n. 1 / 2) 0 0 0) ! i) = pnt_x (unitSquare ! i) * 60
        \<and> p_y (fst (droneDisplay unitSquare (\<lambda>n. 1 / 2) 0 0 0) ! i) = pnt_y (unitSquare ! i) * 60
        \<and> p_useTrail (fst (droneDisplay unitSquare (\<lambda>n. 1 / 2) 0 0 0) ! i) = Some False
        \<and> \<bar>p_vx (fst (droneDisplay unitSquare (\<lambda>n. 1 / 2) 0 0 0) ! i)\<bar> \<le> 0.075
        \<and> \<bar>p_vy (fst (droneDisplay unitSquare (\<lambda>n. 1 / 2) 0 0 0) ! i)\<bar> \<le> 0.075"
    by simp
  have m: "map g xs = [g (xs ! 0), g (xs ! 1), g (xs ! 2), g (xs ! 3)]"
    if "length xs = 4" for g :: "particle \<Rightarrow> 'b" and xs
    using that by (auto simp: numeral_eq_Suc length_Suc_conv)
  have i4: "(0::nat) < 4" "(1::nat) < 4" "(2::nat) < 4" "(3::nat) < 4" by simp_all
  show ?thesis
    unfolding e m [OF l] using l f [rule_format, OF i4(1)] f [rule_format, OF i4(2)]
      f [rule_format, OF i4(3)] f [rule_format, OF i4(4)]
    by (simp add: unitSquare_def)
qed

text \<open>
  C9 (as amended). For every type tag that is not one of the recognized generator tags:
  a call without an override colour (\<^verbatim>\<open>undefined\<close> or the empty string) appends the
  default burst, 60 particles that share one colour of the standard palette, and takes
  241 draws; a call with an override colour appends the override burst of 10 particles
  in that colour. No arguments make the call append nothing.
\<close>

theorem C9_unknown_tag_falls_back:
  assumes "tag \<notin> set recognizedTags"
  shows "(\<not> truthy_str cc \<longrightarrow>
            createExplosion customShape rnd k particles x y hue (Some tag) cc
              = (particles @ fst (standardBurst rnd k x y), k + 241))
    \<and> length (fst (standardBurst rnd k x y)) = 60
    \<and> (unitDraws rnd \<longrightarrow>
          list_all (\<lambda>p. p_color p \<in> set STANDARD_COLORS) (fst (standardBurst rnd k x y)))
    \<and> (c \<noteq> [] \<longrightarrow>
            createExplosion customShape rnd k particles x y hue (Some tag) (Some c)
              = (particles @ fst (overrideBurst c rnd k x y), k + 20))
    \<and> length (fst (overrideBurst c rnd k x y)) = 10
    \<and> length (fst (createExplosion customShape rnd k particles x y hue (Some tag) cc))
        > length particles"
proof -
  have t: "(case Some tag of None \<Rightarrow> ''standard'' | Some t \<Rightarrow> t) \<notin> set recognizedTags"
    using assms by simp
  have c: "Some tag \<noteq> Some ''custom_shape''"
    using assms by (auto simp: recognizedTags_def)
  have 1: "\<not> truthy_str cc \<longrightarrow>
            createExplosion customShape rnd k particles x y hue (Some tag) cc
              = (particles @ fst (standardBurst rnd k x y), k + 241)"
    using createExplosion_default [of cc "Some tag" customShape rnd k particles x y hue] t
    by blast
  have 2: "c \<noteq> [] \<longrightarrow>
            createExplosion customShape rnd k particles x y hue (Some tag) (Some c)
              = (particles @ fst (overrideBurst c rnd k x y), k + 20)"
    using createExplosion_override [of "Some c" "Some tag" customShape rnd k particles x y hue] c
    by simp
  have 3: "unitDraws rnd \<longrightarrow>
          list_all (\<lambda>p. p_color p \<in> set STANDARD_COLORS) (fst (standardBurst rnd k x y))"
    using standardBurst_palette(1) [of rnd _ k x y] by (auto simp: list_all_iff)
  show ?thesis
    by (intro conjI) (rule 1 standardBurst_length 3 2 overrideBurst_length
        createExplosion_never_nothing)+
qed

theorem C9_unknown_tag_witness:
  "createExplosion None (\<lambda>n. 1 / 2) 0 [] 0 0 0 (Some ''sparkler'') None
      = (fst (standardBurst (\<lambda>n. 1 / 2) 0 0 0), 241)
   \<and> length (fst (standardBurst (\<lambda>n. 1 / 2) 0 0 0)) = 60
   \<and> list_all (\<lambda>p. p_color p \<in> set STANDARD_COLORS) (fst (standardBurst (\<lambda>n. 1 / 2) 0 0 0))
   \<and> length (fst (createExplosion None (\<lambda>n. 1 / 2) 0 [] 0 0 0 (Some ''sparkler'') None)) > 0"
proof -
  have a: "''sparkler'' \<notin> set recognizedTags" by (simp add: recognizedTags_def)
  have u: "unitDraws (\<lambda>n. 1 / 2)" by (simp add: unitDraws_def)
  show ?thesis
    using C9_unknown_tag_falls_back [OF a, where cc = None and customShape = None
        and rnd = "\<lambda>n. 1 / 2" and k = 0 and particles = "[]" and x = 0 and y = 0 and hue = 0] u
    by simp
qed

text \<open>
  The claim as stated fails when the call carries an override colour: the branch
  \<^verbatim>\<open>if (customColor)\<close> comes before the dispatch on the tag.
\<close>

theorem C9_override_colour_counterexample:
  "''sparkler'' \<notin> set recognizedTags
   \<and> length (fst (createExplosion None (\<lambda>n. 1 / 2) 0 [] 0 0 0
        (Some ''sparkler'') (Some ''hsl(0, 100%, 65%)''))) = 10
   \<and> list_all (\<lambda>p. p_color p = ''hsl(0, 100%, 65%)'' \<and> p_color p \<notin> set STANDARD_COLORS)
       (fst (createExplosion None (\<lambda>n. 1 / 2) 0 [] 0 0 0
        (Some ''sparkler'') (Some ''hsl(0, 100%, 65%)'')))
   \<and> length (fst (standardBurst (\<lambda>n. 1 / 2) 0 0 0)) = 60"
proof -
  have e: "createExplosion None (\<lambda>n. 1 / 2) 0 [] 0 0 0
        (Some ''sparkler'') (Some ''hsl(0, 100%, 65%)'')
      = ([] @ fst (overrideBurst (the (Some ''hsl(0, 100%, 65%)'')) (\<lambda>n. 1 / 2) 0 0 0), 0 + 20)"
    by (rule createExplosion_override) simp_all
  have "list_all (\<lambda>p. p_color p = ''hsl(0, 100%, 65%)'' \<and> p_color p \<notin> set STANDARD_COLORS)
       (fst (overrideBurst ''hsl(0, 100%, 65%)'' (\<lambda>n. 1 / 2) 0 0 0))"
    using overrideBurst_particle [of _ "''hsl(0, 100%, 65%)''" "\<lambda>n. 1 / 2" 0 0 0]
    by (auto simp: list_all_iff STANDARD_COLORS_def)
  then show ?thesis
    unfolding e by (simp add: overrideBurst_length standardBurst_length recognizedTags_def)
qed

text \<open>
  C10 (as amended). A call with type \<^verbatim>\<open>'custom_shape'\<close> while the stored shape is
  \<^verbatim>\<open>null\<close> or empty never produces the drone display and never appends nothing:
  without an override colour it appends the default burst of 60 particles, with an
  override colour the override burst of 10 particles.
\<close>

theorem C10_custom_shape_without_shape:
  assumes "customShape = None \<or> customShape = Some []"
  shows "(\<not> truthy_str cc \<longrightarrow>
            createExplosion customShape rnd k particles x y hue (Some ''custom_shape'') cc
              = (particles @ fst (standardBurst rnd k x y), k + 241))
    \<and> length (fst (standardBurst rnd k x y)) = 60
    \<and> (c \<noteq> [] \<longrightarrow>
            createExplosion customShape rnd k particles x y hue (Some ''custom_shape'') (Some c)
              = (particles @ fst (overrideBurst c rnd k x y), k + 20))
    \<and> length (fst (overrideBurst c rnd k x y)) = 10
    \<and> length (fst (createExplosion customShape rnd k particles x y hue
                     (Some ''custom_shape'') cc)) > length particles"
proof -
  have 1: "\<not> truthy_str cc \<longrightarrow>
            createExplosion customShape rnd k particles x y hue (Some ''custom_shape'') cc
              = (particles @ fst (standardBurst rnd k x y), k + 241)"
    using createExplosion_default [of cc "Some ''custom_shape''" customShape rnd k particles x y hue]
      assms by blast
  have 2: "c \<noteq> [] \<longrightarrow>
            createExplosion customShape rnd k particles x y hue (Some ''custom_shape'') (Some c)
              = (particles @ fst (overrideBurst c rnd k x y), k + 20)"
    using createExplosion_override [of "Some c" "Some ''custom_shape''" customShape rnd k particles x y hue]
      assms by auto
  show ?thesis
    by (intro conjI) (rule 1 standardBurst_length 2 overrideBurst_length
        createExplosion_never_nothing)+
qed

theorem C10_custom_shape_witness:
  "createExplosion (Some []) (\<lambda>n. 1 / 2) 0 [] 0 0 0 (Some ''custom_shape'') None
      = (fst (standardBurst (\<lambda>n. 1 / 2) 0 0 0), 241)
   \<and> createExplosion None (\<lambda>n. 1 / 2) 0 [] 0 0 0 (Some ''custom_shape'') None
      = (fst (standardBurst (\<lambda>n. 1 / 2) 0 0 0), 241)
   \<and> length (fst (standardBurst (\<lambda>n. 1 / 2) 0 0 0)) = 60"
  using C10_custom_shape_without_shape [where customShape = "Some []" and cc = None
      and rnd = "\<lambda>n. 1 / 2" and k = 0 and particles = "[]" and x = 0 and y = 0 and hue = 0]
    C10_custom_shape_without_shape [where customShape = None and cc = None
      and rnd = "\<lambda>n. 1 / 2" and k = 0 and particles = "[]" and x = 0 and y = 0 and hue = 0]
  by simp

text \<open>
  The claim as stated fails when the call carries an override colour.
\<close>

theorem C10_override_colour_counterexample:
  "length (fst (createExplosion None (\<lambda>n. 1 / 2) 0 [] 0 0 0
        (Some ''custom_shape'') (Some ''hsl(0, 100%, 65%)''))) = 10
   \<and> list_all (\<lambda>p. p_color p = ''hsl(0, 100%, 65%)'' \<and> p_color p \<notin> set STANDARD_COLORS)
       (fst (createExplosion None (\<lambda>n. 1 / 2) 0 [] 0 0 0
        (Some ''custom_shape'') (Some ''hsl(0, 100%, 65%)'')))
   \<and> length (fst (standardBurst (\<lambda>n. 1 / 2) 0 0 0)) = 60"
proof -
  have e: "createExplosion None (\<lambda>n. 1 / 2) 0 [] 0 0 0
        (Some ''custom_shape'') (Some ''hsl(0, 100%, 65%)'')
      = ([] @ fst (overrideBurst (the (Some ''hsl(0, 100%, 65%)'')) (\<lambda>n. 1 / 2) 0 0 0), 0 + 20)"
    by (rule createExplosion_override) simp_all
  have "list_all (\<lambda>p. p_color p = ''hsl(0, 100%, 65%)'' \<and> p_color p \<notin> set STANDARD_COLORS)
       (fst (overrideBurst ''hsl(0, 100%, 65%)'' (\<lambda>n. 1 / 2) 0 0 0))"
    using overrideBurst_particle [of _ "''hsl(0, 100%, 65%)''" "\<lambda>n. 1 / 2" 0 0 0]
    by (auto simp: list_all_iff STANDARD_COLORS_def)
  then show ?thesis
    unfolding e by (simp add: overrideBurst_length standardBurst_length)
qed

section \<open>Properties of the projectile loop\<close>

lemma explodeAll_append:
  "explodeAll cs rnd (xs @ ys) pk = explodeAll cs rnd ys (explodeAll cs rnd xs pk)"
  by (induction cs rnd xs pk rule: explodeAll.induct) simp_all

lemma explodeAll_single:
  "explodeAll cs rnd [fw] (ps, k) =
     createExplosion cs rnd k ps (fw_x fw) (fw_y fw) (fw_hue fw) (fw_type fw) (fw_customColor fw)"
  by (cases "createExplosion cs rnd k ps (fw_x fw) (fw_y fw) (fw_hue fw) (fw_type fw)
      (fw_customColor fw)") simp

lemma fireworksLoop_filter:
  "n \<le> length fws \<Longrightarrow>
    fireworksLoop cs rnd n (fws, ps, k) =
      (filter (\<lambda>fw. \<not> arrived fw) (map stepFirework (take n fws)) @ drop n fws,
       explodeAll cs rnd (rev (filter arrived (map stepFirework (take n fws)))) (ps, k))"
proof (induction n arbitrary: fws ps k)
  case 0
  then show ?case by simp
next
  case (Suc n)
  let ?fw = "stepFirework (fws ! n)"
  have n: "n < length fws" using Suc.prems by simp
  have tk: "take (Suc n) fws = take n fws @ [fws ! n]"
    using n by (simp add: take_Suc_conv_app_nth)
  show ?case
  proof (cases "arrived ?fw")
    case True
    let ?fws = "take n fws @ drop (Suc n) fws"
    obtain ps1 k1 where ce: "createExplosion cs rnd k ps
        (fw_x ?fw) (fw_y ?fw) (fw_hue ?fw) (fw_type ?fw) (fw_customColor ?fw) = (ps1, k1)"
      by (cases "createExplosion cs rnd k ps
        (fw_x ?fw) (fw_y ?fw) (fw_hue ?fw) (fw_type ?fw) (fw_customColor ?fw)") blast
    have len: "n \<le> length ?fws" using n by simp
    have t: "take n ?fws = take n fws" and d: "drop n ?fws = drop (Suc n) fws"
      using n by simp_all
    have "fireworksLoop cs rnd (Suc n) (fws, ps, k) = fireworksLoop cs rnd n (?fws, ps1, k1)"
      using True n ce by (simp add: Let_def)
    also have "\<dots> = (filter (\<lambda>fw. \<not> arrived fw) (map stepFirework (take n fws)) @ drop (Suc n) fws,
       explodeAll cs rnd (rev (filter arrived (map stepFirework (take n fws)))) (ps1, k1))"
      using Suc.IH [OF len, of ps1 k1] unfolding t d .
    finally show ?thesis
      using True ce by (simp add: tk)
  next
    case False
    let ?fws = "fws[n := ?fw]"
    have len: "n \<le> length ?fws" using n by simp
    have t: "take n ?fws = take n fws" by simp
    have d: "drop n ?fws = ?fw # drop (Suc n) fws"
      using n by (simp add: drop_update_cancel Cons_nth_drop_Suc [symmetric] upd_conv_take_nth_drop)
    have "fireworksLoop cs rnd (Suc n) (fws, ps, k) = fireworksLoop cs rnd n (?fws, ps, k)"
      using False by (simp add: Let_def)
    also have "\<dots> = (filter (\<lambda>fw. \<not> arrived fw) (map stepFirework (take n fws)) @ ?fw # drop (Suc n) fws,
       explodeAll cs rnd (rev (filter arrived (map stepFirework (take n fws)))) (ps, k))"
      using Suc.IH [OF len, of ps k] unfolding t d .
    finally show ?thesis
      using False by (simp add: tk)
  qed
qed

lemma updateFireworks_filter:
  "updateFireworks cs rnd (fws, ps, k) =
      (filter (\<lambda>fw. \<not> arrived fw) (map stepFirework fws),
       explodeAll cs rnd (rev (filter arrived (map stepFirework fws))) (ps, k))"
  by (simp add: updateFireworks_def fireworksLoop_filter)

lemma inFlight_iff: "inFlight fw n \<longleftrightarrow> (\<forall>m<n. \<not> arrived (flight fw (Suc m)))"
  by (auto simp: inFlight_def list_all_iff)

lemma inFlight_Suc: "inFlight fw (Suc n) \<longleftrightarrow> inFlight fw n \<and> \<not> arrived (flight fw (Suc n))"
  by (auto simp: inFlight_iff less_Suc_eq)

lemma flight_Suc: "flight fw (Suc n) = stepFirework (flight fw n)"
  by (simp add: flight_def)

lemma live_after_frames:
  "fst ((updateFireworks cs rnd ^^ n) (fws, ps, k)) =
     map (\<lambda>fw. flight fw n) (filter (\<lambda>fw. inFlight fw n) fws)"
proof (induction n)
  case 0
  then show ?case by (simp add: flight_def inFlight_def)
next
  case (Suc n)
  obtain fws' ps' k' where st: "(updateFireworks cs rnd ^^ n) (fws, ps, k) = (fws', ps', k')"
    by (cases "(updateFireworks cs rnd ^^ n) (fws, ps, k)") blast
  have "fst ((updateFireworks cs rnd ^^ Suc n) (fws, ps, k)) =
      filter (\<lambda>fw. \<not> arrived fw) (map stepFirework fws')"
    by (simp add: st updateFireworks_filter)
  also have "fws' = map (\<lambda>fw. flight fw n) (filter (\<lambda>fw. inFlight fw n) fws)"
    using Suc.IH st by simp
  finally show ?case
    by (simp add: filter_map o_def flight_Suc inFlight_Suc conj_commute)
qed


subsection \<open>Distance and speed along a flight\<close>

lemma calculateDistance_nonneg: "0 \<le> calculateDistance x1 y1 x2 y2"
  by (simp add: calculateDistance_def)

lemma step_distance_mono: "fw_distanceTraveled fw \<le> fw_distanceTraveled (stepFirework fw)"
  using calculateDistance_nonneg
  by (simp add: stepFirework_def Let_def split: prod.splits)

lemma polar_length: "sqrt ((cos a * s)\<^sup>2 + (sin a * s)\<^sup>2) = \<bar>s\<bar>"
proof -
  have "(cos a * s)\<^sup>2 + (sin a * s)\<^sup>2 = (sin a)\<^sup>2 * s\<^sup>2 + (cos a)\<^sup>2 * s\<^sup>2"
    by (simp only: power_mult_distrib add.commute)
  also have "\<dots> = ((sin a)\<^sup>2 + (cos a)\<^sup>2) * s\<^sup>2"
    by (simp only: distrib_right)
  also have "\<dots> = s\<^sup>2" by (simp only: sin_cos_squared_add mult_1_left)
  finally show ?thesis by simp
qed

lemma step_distance:
  "fw_distanceTraveled (stepFirework fw)
     = fw_distanceTraveled fw + \<bar>fw_speed (stepFirework fw)\<bar>"
  by (simp add: stepFirework_def Let_def calculateDistance_def polar_length split: prod.splits)

lemma step_keeps:
  "fw_customColor (stepFirework fw) = fw_customColor fw"
  "fw_distanceToTarget (stepFirework fw) = fw_distanceToTarget fw"
  "fw_type (stepFirework fw) = fw_type fw"
  "fw_hue (stepFirework fw) = fw_hue fw"
  by (simp_all add: stepFirework_def Let_def split: prod.splits)

lemma step_default:
  "\<not> truthy_str (fw_customColor fw) \<Longrightarrow>
     fw_speed (stepFirework fw) = fw_speed fw * 1.015 \<and> fw_angle (stepFirework fw) = fw_angle fw"
  by (simp add: stepFirework_def Let_def)

lemma flight_keeps:
  "fw_customColor (flight fw n) = fw_customColor fw"
  "fw_distanceToTarget (flight fw n) = fw_distanceToTarget fw"
  "fw_type (flight fw n) = fw_type fw"
  "fw_hue (flight fw n) = fw_hue fw"
  by (induction n) (simp_all add: flight_Suc step_keeps, simp_all add: flight_def)

lemma flight_distance_mono: "m \<le> n \<Longrightarrow> fw_distanceTraveled (flight fw m) \<le> fw_distanceTraveled (flight fw n)"
proof (induction n)
  case 0
  then show ?case by simp
next
  case (Suc n)
  show ?case
  proof (cases "m = Suc n")
    case True
    then show ?thesis by simp
  next
    case False
    then have "fw_distanceTraveled (flight fw m) \<le> fw_distanceTraveled (flight fw n)"
      using Suc by simp
    also have "\<dots> \<le> fw_distanceTraveled (flight fw (Suc n))"
      unfolding flight_Suc by (rule step_distance_mono)
    finally show ?thesis .
  qed
qed

lemma flight_default:
  assumes "\<not> truthy_str (fw_customColor fw)"
  shows "fw_speed (flight fw n) = fw_speed fw * 1.015 ^ n
    \<and> fw_angle (flight fw n) = fw_angle fw
    \<and> fw_distanceTraveled (flight fw n)
        = fw_distanceTraveled fw + \<bar>fw_speed fw\<bar> * (203 / 3) * (1.015 ^ n - 1)"
proof (induction n)
  case 0
  then show ?case by (simp add: flight_def)
next
  case (Suc n)
  have c: "\<not> truthy_str (fw_customColor (flight fw n))"
    using assms by (simp add: flight_keeps)
  have s: "fw_speed (flight fw (Suc n)) = fw_speed fw * 1.015 ^ Suc n"
    using step_default [OF c] Suc by (simp add: flight_Suc)
  have "\<bar>fw_speed fw * 1.015 ^ Suc n\<bar> = \<bar>fw_speed fw\<bar> * 1.015 ^ Suc n"
    by (simp add: abs_mult)
  then have "fw_distanceTraveled (flight fw (Suc n))
      = fw_distanceTraveled fw + \<bar>fw_speed fw\<bar> * (203 / 3) * (1.015 ^ n - 1)
        + \<bar>fw_speed fw\<bar> * 1.015 ^ Suc n"
    using step_distance [of "flight fw n"] Suc s by (simp add: flight_Suc)
  also have "\<dots> = fw_distanceTraveled fw + \<bar>fw_speed fw\<bar> * (203 / 3) * (1.015 ^ Suc n - 1)"
    by (simp add: field_simps)
  finally show ?case
    using s step_default [OF c] Suc by (simp add: flight_Suc)
qed

lemma distance_lower_bound:
  assumes "\<forall>m<n. c \<le> \<bar>fw_speed (flight fw (Suc m))\<bar>"
  shows "fw_distanceTraveled fw + c * real n \<le> fw_distanceTraveled (flight fw n)"
  using assms
proof (induction n)
  case 0
  then show ?case by (simp add: flight_def)
next
  case (Suc n)
  then have "fw_distanceTraveled fw + c * real n \<le> fw_distanceTraveled (flight fw n)"
    and "c \<le> \<bar>fw_speed (flight fw (Suc n))\<bar>"
    by simp_all
  then show ?case
    using step_distance [of "flight fw n"] by (simp add: flight_Suc algebra_simps)
qed

lemma eventually_arrives:
  assumes "truthy_str (fw_customColor fw) \<or> fw_speed fw \<noteq> 0"
  shows "\<exists>n. arrived (flight fw (Suc n))"
proof -
  define c where "c = (if truthy_str (fw_customColor fw) then 1.5 else \<bar>fw_speed fw\<bar>)"
  have c: "0 < c" using assms by (auto simp: c_def)
  obtain n where n: "fw_distanceToTarget fw - fw_distanceTraveled fw < real n * c"
    using c by (meson ex_less_of_nat_mult)
  show ?thesis
  proof (rule ccontr)
    assume "\<not> ?thesis"
    then have na: "\<not> arrived (flight fw (Suc m))" for m by blast
    have "c \<le> \<bar>fw_speed (flight fw (Suc m))\<bar>" for m
    proof (cases "truthy_str (fw_customColor fw)")
      case True
      then show ?thesis
        using na [of m] by (simp add: arrived_def flight_keeps c_def)
    next
      case False
      have p: "(1::real) \<le> 1.015 ^ Suc m" by (rule one_le_power) simp
      then have "\<bar>fw_speed fw\<bar> * 1 \<le> \<bar>fw_speed fw\<bar> * 1.015 ^ Suc m"
        by (intro mult_left_mono) simp_all
      moreover have "fw_speed (flight fw (Suc m)) = fw_speed fw * 1.015 ^ Suc m"
        using flight_default [OF False, of "Suc m"] by blast
      then have "\<bar>fw_speed (flight fw (Suc m))\<bar> = \<bar>fw_speed fw\<bar> * \<bar>1.015 ^ Suc m\<bar>"
        by (simp only: abs_mult)
      moreover have "\<bar>(1.015::real) ^ Suc m\<bar> = 1.015 ^ Suc m"
        using p by (intro abs_of_nonneg) linarith
      moreover have "c = \<bar>fw_speed fw\<bar>" using False by (simp add: c_def)
      ultimately show ?thesis by (simp only: mult_1_right)
    qed
    then have "fw_distanceTraveled fw + c * real (Suc n) \<le> fw_distanceTraveled (flight fw (Suc n))"
      by (intro distance_lower_bound) simp
    moreover have "real n * c \<le> c * real (Suc n)" using c by (simp add: algebra_simps)
    ultimately have "fw_distanceToTarget fw \<le> fw_distanceTraveled (flight fw (Suc n))"
      using n by linarith
    then have "arrived (flight fw (Suc n))" by (simp add: arrived_def flight_keeps)
    then show False using na by blast
  qed
qed

lemma removed_exactly_once:
  assumes "truthy_str (fw_customColor fw) \<or> fw_speed fw \<noteq> 0"
  shows "\<exists>!n. inFlight fw n \<and> arrived (flight fw (Suc n))"
proof -
  define P where "P n = arrived (flight fw (Suc n))" for n
  from eventually_arrives [OF assms] have ex: "\<exists>n. P n" by (simp add: P_def)
  define n where "n = (LEAST n. P n)"
  have Pn: "P n" unfolding n_def using ex by (metis LeastI)
  have least: "\<not> P m" if "m < n" for m using that not_less_Least unfolding n_def by blast
  show ?thesis
  proof (rule ex1I [of _ n])
    show "inFlight fw n \<and> arrived (flight fw (Suc n))"
      using Pn least by (simp add: inFlight_iff P_def)
  next
    fix m assume m: "inFlight fw m \<and> arrived (flight fw (Suc m))"
    then have "\<not> m < n" using least by (auto simp: P_def)
    moreover have "\<not> n < m" using m Pn by (auto simp: inFlight_iff P_def)
    ultimately show "m = n" by simp
  qed
qed

subsection \<open>The standard rocket\<close>

lemma launch_standardRocket:
  "launchFirework rnd k fws 400 600 400 100 (Some ''standard'') = (fws @ [standardRocket rnd k], k + 1)"
  by (simp add: launchFirework_def standardRocket_def Let_def)

lemma standardRocket_fields:
  "fw_speed (standardRocket rnd k) = 2"
  "fw_customColor (standardRocket rnd k) = None"
  "fw_type (standardRocket rnd k) = Some ''standard''"
  "fw_distanceToTarget (standardRocket rnd k) = 500"
  "fw_distanceTraveled (standardRocket rnd k) = 0"
  "fw_angle (standardRocket rnd k) = - pi / 2"
  "fw_x (standardRocket rnd k) = 400"
  "fw_y (standardRocket rnd k) = 600"
  by (simp_all add: launchFirework_def standardRocket_def Let_def atan2_def)

lemma standardRocket_distance:
  "fw_distanceTraveled (flight (standardRocket rnd k) n) = (406 / 3) * (1.015 ^ n - 1)"
  using flight_default [of "standardRocket rnd k" n] by (simp add: standardRocket_fields)

lemma standardRocket_arrived:
  "arrived (flight (standardRocket rnd k) n) \<longleftrightarrow> 500 \<le> fw_distanceTraveled (flight (standardRocket rnd k) n)"
  by (simp add: arrived_def flight_keeps standardRocket_fields)

lemma standardRocket_frame_104:
  "fw_distanceTraveled (flight (standardRocket rnd k) 103) < 500"
  "500 \<le> fw_distanceTraveled (flight (standardRocket rnd k) 104)"
  unfolding standardRocket_distance by (simp_all add: power_divide)

lemma animate_fireworks:
  "w_fireworks (fst (animate fmt rnd inp w)) =
     filter (\<lambda>fw. \<not> arrived fw) (map stepFirework (w_fireworks (autoFire rnd inp w)))"
  by (simp add: animate_def Let_def updateFireworks_filter split: prod.splits)

lemma launchFirework_speed:
  "fw_speed (last (fst (launchFirework rnd k fws sx sy tx ty typeArg))) = 2
   \<and> fw_customColor (last (fst (launchFirework rnd k fws sx sy tx ty typeArg))) = None"
  by (simp add: launchFirework_def Let_def)

lemma finaleRay_override: "truthy_str (fw_customColor (finaleRay w h rnd k i))"
  by (simp add: finaleRay_def Let_def finaleColor_def)

lemma step_keeps_moving:
  assumes "truthy_str (fw_customColor fw) \<or> fw_speed fw \<noteq> 0"
  shows "truthy_str (fw_customColor (stepFirework fw)) \<or> fw_speed (stepFirework fw) \<noteq> 0"
  using assms step_default [of fw] by (auto simp: step_keeps)

text \<open>
  C1. The distance travelled by a projectile never decreases from one frame step to
  the next. The arrival test is \<open>distanceTraveled \<ge> distanceToTarget\<close> or, for a
  projectile with an override colour, \<open>speed < 1.5\<close>. One pass of the projectile loop
  (and so one call of \<^verbatim>\<open>animate\<close>) updates every live projectile once, keeps exactly
  those that fail the test after their update, and calls \<^verbatim>\<open>createExplosion\<close> exactly once
  for each one it removes, in the same pass. After \<open>n\<close> frames the live set consists of
  the projectiles that failed the test in each of these frames, so a projectile leaves
  the live set at the first frame at which the test holds and is never seen again. For
  every projectile with an override colour or a speed other than 0 there is exactly one
  such frame, and the next update keeps that property; \<^verbatim>\<open>launchFirework\<close> launches with
  speed 2 and the finale with an override colour, so this covers every projectile of the
  live set.
\<close>

theorem C1_projectile_removed_once_with_one_explosion:
  "fw_distanceTraveled fw \<le> fw_distanceTraveled (stepFirework fw)
   \<and> (m \<le> n \<longrightarrow> fw_distanceTraveled (flight fw m) \<le> fw_distanceTraveled (flight fw n))
   \<and> arrived fw = (fw_distanceToTarget fw \<le> fw_distanceTraveled fw
                    \<or> (truthy_str (fw_customColor fw) \<and> fw_speed fw < 1.5))
   \<and> updateFireworks cs rnd (fws, ps, k) =
        (filter (\<lambda>fw. \<not> arrived fw) (map stepFirework fws),
         explodeAll cs rnd (rev (filter arrived (map stepFirework fws))) (ps, k))
   \<and> w_fireworks (fst (animate fmt rnd inp w)) =
        filter (\<lambda>fw. \<not> arrived fw) (map stepFirework (w_fireworks (autoFire rnd inp w)))
   \<and> fst ((updateFireworks cs rnd ^^ n) (fws, ps, k)) =
        map (\<lambda>fw. flight fw n) (filter (\<lambda>fw. inFlight fw n) fws)
   \<and> (truthy_str (fw_customColor fw) \<or> fw_speed fw \<noteq> 0 \<longrightarrow>
        (\<exists>!j. inFlight fw j \<and> arrived (flight fw (Suc j)))
        \<and> (truthy_str (fw_customColor (stepFirework fw)) \<or> fw_speed (stepFirework fw) \<noteq> 0))
   \<and> fw_speed (last (fst (launchFirework rnd k fws sx sy tx ty typeArg))) = 2
   \<and> truthy_str (fw_customColor (finaleRay width height rnd k i))"
proof -
  have 1: "m \<le> n \<longrightarrow> fw_distanceTraveled (flight fw m) \<le> fw_distanceTraveled (flight fw n)"
    using flight_distance_mono by blast
  have 2: "arrived fw = (fw_distanceToTarget fw \<le> fw_distanceTraveled fw
                    \<or> (truthy_str (fw_customColor fw) \<and> fw_speed fw < 1.5))"
    by (simp add: arrived_def)
  have 3: "truthy_str (fw_customColor fw) \<or> fw_speed fw \<noteq> 0 \<longrightarrow>
        (\<exists>!j. inFlight fw j \<and> arrived (flight fw (Suc j)))
        \<and> (truthy_str (fw_customColor (stepFirework fw)) \<or> fw_speed (stepFirework fw) \<noteq> 0)"
    using removed_exactly_once [of fw] step_keeps_moving [of fw] by blast
  have 4: "fw_speed (last (fst (launchFirework rnd k fws sx sy tx ty typeArg))) = 2"
    using launchFirework_speed by blast
  show ?thesis
    by (intro conjI) (rule step_distance_mono 1 2 updateFireworks_filter animate_fireworks
        live_after_frames 3 4 finaleRay_override)+
qed

theorem C1_projectile_witness:
  "fw_distanceTraveled (flight (standardRocket (\<lambda>n. 1 / 2) 0) 103)
      \<le> fw_distanceTraveled (flight (standardRocket (\<lambda>n. 1 / 2) 0) 104)
   \<and> (\<exists>!j. inFlight (standardRocket (\<lambda>n. 1 / 2) 0) j
             \<and> arrived (flight (standardRocket (\<lambda>n. 1 / 2) 0) (Suc j)))
   \<and> fst ((updateFireworks None (\<lambda>n. 1 / 2) ^^ 104) ([standardRocket (\<lambda>n. 1 / 2) 0], [], 1)) =
        map (\<lambda>fw. flight fw 104)
          (filter (\<lambda>fw. inFlight fw 104) [standardRocket (\<lambda>n. 1 / 2) 0])"
proof -
  have a: "(103::nat) \<le> 104" by simp
  have b: "truthy_str (fw_customColor (standardRocket (\<lambda>n. 1 / 2) 0))
      \<or> fw_speed (standardRocket (\<lambda>n. 1 / 2) 0) \<noteq> 0"
    by (simp add: standardRocket_fields)
  show ?thesis
    using C1_projectile_removed_once_with_one_explosion
      [of "standardRocket (\<lambda>n. 1 / 2) 0" 103 104 None "\<lambda>n. 1 / 2"
          "[standardRocket (\<lambda>n. 1 / 2) 0]" "[]" 1] a b
    by blast
qed

text \<open>
  C6. The projectile launched from (400, 600) to (400, 100) with pattern \<^verbatim>\<open>'standard'\<close>
  is appended to the live set with target distance 500. If frame \<open>n + 1\<close> is the first
  frame at which its distance travelled is \<open>\<ge> 500\<close>, then it is live after \<open>n\<close> frames,
  and the projectile loop of frame \<open>n + 1\<close> removes it and appends exactly 60 particles
  to the particle set (241 draws); with draws in \<open>[0, 1)\<close> each of them has a colour of
  the standard palette of six colours and an initial alpha in \<open>[0.6, 1]\<close>.
\<close>

theorem C6_standard_rocket_explodes_into_sixty:
  assumes "\<forall>m\<le>n. fw_distanceTraveled (flight (standardRocket rnd k0) m) < 500"
    and "500 \<le> fw_distanceTraveled (flight (standardRocket rnd k0) (Suc n))"
  shows "launchFirework rnd k0 fws 400 600 400 100 (Some ''standard'')
           = (fws @ [standardRocket rnd k0], k0 + 1)
    \<and> fw_distanceToTarget (standardRocket rnd k0) = 500
    \<and> fst ((updateFireworks cs rnd ^^ n) ([standardRocket rnd k0], ps, k))
         = [flight (standardRocket rnd k0) n]
    \<and> fst ((updateFireworks cs rnd ^^ Suc n) ([standardRocket rnd k0], ps, k)) = []
    \<and> updateFireworks cs rnd ([flight (standardRocket rnd k0) n], ps, k)
         = ([], ps @ fst (standardBurst rnd k
                      (fw_x (flight (standardRocket rnd k0) (Suc n)))
                      (fw_y (flight (standardRocket rnd k0) (Suc n)))),
            k + 241)
    \<and> length (fst (standardBurst rnd k
                      (fw_x (flight (standardRocket rnd k0) (Suc n)))
                      (fw_y (flight (standardRocket rnd k0) (Suc n))))) = 60
    \<and> (unitDraws rnd \<longrightarrow>
         list_all (\<lambda>p. p_color p \<in> set STANDARD_COLORS \<and> 0.6 \<le> p_alpha p \<and> p_alpha p \<le> 1)
           (fst (standardBurst rnd k
                      (fw_x (flight (standardRocket rnd k0) (Suc n)))
                      (fw_y (flight (standardRocket rnd k0) (Suc n))))))
    \<and> length STANDARD_COLORS = 6"
proof -
  let ?fw = "standardRocket rnd k0"
  let ?x = "fw_x (flight ?fw (Suc n))" and ?y = "fw_y (flight ?fw (Suc n))"
  have live: "inFlight ?fw n"
    using assms(1) by (simp add: inFlight_iff standardRocket_arrived not_le Suc_le_eq)
  have arr: "arrived (flight ?fw (Suc n))"
    using assms(2) by (simp add: standardRocket_arrived)
  have 1: "fst ((updateFireworks cs rnd ^^ n) ([?fw], ps, k)) = [flight ?fw n]"
    unfolding live_after_frames using live by simp
  have 2: "fst ((updateFireworks cs rnd ^^ Suc n) ([?fw], ps, k)) = []"
    unfolding live_after_frames using arr by (simp add: inFlight_Suc)
  have "createExplosion cs rnd k ps ?x ?y (fw_hue (flight ?fw (Suc n)))
          (fw_type (flight ?fw (Suc n))) (fw_customColor (flight ?fw (Suc n)))
        = (ps @ fst (standardBurst rnd k ?x ?y), k + 241)"
    unfolding flight_keeps standardRocket_fields
    by (rule createExplosion_default) (simp_all add: recognizedTags_def)
  then have 3: "updateFireworks cs rnd ([flight ?fw n], ps, k)
         = ([], ps @ fst (standardBurst rnd k ?x ?y), k + 241)"
    unfolding updateFireworks_filter using arr by (simp add: flight_Suc)
  have 4: "unitDraws rnd \<longrightarrow>
         list_all (\<lambda>p. p_color p \<in> set STANDARD_COLORS \<and> 0.6 \<le> p_alpha p \<and> p_alpha p \<le> 1)
           (fst (standardBurst rnd k ?x ?y))"
    using standardBurst_palette [of rnd _ k ?x ?y] by (fastforce simp: list_all_iff)
  have 5: "length STANDARD_COLORS = 6" using STANDARD_COLORS_six by blast
  show ?thesis
    by (intro conjI) (rule launch_standardRocket standardRocket_fields 1 2 3
        standardBurst_length 4 5)+
qed

theorem C6_standard_rocket_witness:
  "launchFirework (\<lambda>n. 1 / 2) 0 [] 400 600 400 100 (Some ''standard'')
           = ([standardRocket (\<lambda>n. 1 / 2) 0], 1)
    \<and> fst ((updateFireworks None (\<lambda>n. 1 / 2) ^^ 103) ([standardRocket (\<lambda>n. 1 / 2) 0], [], 1))
         = [flight (standardRocket (\<lambda>n. 1 / 2) 0) 103]
    \<and> fst ((updateFireworks None (\<lambda>n. 1 / 2) ^^ 104) ([standardRocket (\<lambda>n. 1 / 2) 0], [], 1)) = []
    \<and> length (fst (snd (updateFireworks None (\<lambda>n. 1 / 2)
                 ([flight (standardRocket (\<lambda>n. 1 / 2) 0) 103], [], 1)))) = 60
    \<and> list_all (\<lambda>p. p_color p \<in> set STANDARD_COLORS \<and> 0.6 \<le> p_alpha p \<and> p_alpha p \<le> 1)
           (fst (snd (updateFireworks None (\<lambda>n. 1 / 2)
                 ([flight (standardRocket (\<lambda>n. 1 / 2) 0) 103], [], 1))))"
proof -
  let ?fw = "standardRocket (\<lambda>n. 1 / 2) 0"
  have a: "\<forall>m\<le>103. fw_distanceTraveled (flight ?fw m) < 500"
    using flight_distance_mono [of _ 103 ?fw] standardRocket_frame_104(1) [of "\<lambda>n. 1 / 2" 0]
    by (meson le_less_trans)
  have b: "500 \<le> fw_distanceTraveled (flight ?fw (Suc 103))"
    using standardRocket_frame_104(2) [of "\<lambda>n. 1 / 2" 0] by simp
  have u: "unitDraws (\<lambda>n. 1 / 2)" by (simp add: unitDraws_def)
  note t = C6_standard_rocket_explodes_into_sixty [OF a b, of "[]" None "[]" 1]
  have s: "Suc 103 = 104" by simp
  show ?thesis
    using t u unfolding s by simp
qed

section \<open>Properties of the particle loop\<close>

lemma stepAll_snoc:
  "stepAll rnd k (ps @ [p]) =
    (let (p', k1) = stepParticle rnd k p; (ps', k2) = stepAll rnd k1 ps in (ps' @ [p'], k2))"
  by (induction ps) (simp_all add: Let_def split: prod.splits)

lemma particlesLoop_filter:
  "n \<le> length ps \<Longrightarrow>
    particlesLoop fmt rnd n (ps, k, ops) =
      (filter (\<lambda>q. 0 < p_alpha q) (fst (stepAll rnd k (take n ps))) @ drop n ps,
       snd (stepAll rnd k (take n ps)),
       ops @ concat (map (renderParticle fmt)
                (rev (filter (\<lambda>q. 0 < p_alpha q) (fst (stepAll rnd k (take n ps)))))))"
proof (induction n arbitrary: ps k ops)
  case 0
  then show ?case by simp
next
  case (Suc n)
  have n: "n < length ps" using Suc.prems by simp
  obtain p k1 where sp: "stepParticle rnd k (ps ! n) = (p, k1)"
    by (cases "stepParticle rnd k (ps ! n)") blast
  obtain qs k2 where sa: "stepAll rnd k1 (take n ps) = (qs, k2)"
    by (cases "stepAll rnd k1 (take n ps)") blast
  have tk: "take (Suc n) ps = take n ps @ [ps ! n]"
    using n by (simp add: take_Suc_conv_app_nth)
  have all: "stepAll rnd k (take (Suc n) ps) = (qs @ [p], k2)"
    unfolding tk stepAll_snoc by (simp add: sp sa)
  show ?case
  proof (cases "p_alpha p \<le> 0")
    case True
    let ?ps = "take n ps @ drop (Suc n) ps"
    have len: "n \<le> length ?ps" using n by simp
    have t: "take n ?ps = take n ps" and d: "drop n ?ps = drop (Suc n) ps"
      using n by simp_all
    have "particlesLoop fmt rnd (Suc n) (ps, k, ops) = particlesLoop fmt rnd n (?ps, k1, ops)"
      using True n sp by (simp add: Let_def)
    also have "\<dots> = (filter (\<lambda>q. 0 < p_alpha q) qs @ drop (Suc n) ps, k2,
        ops @ concat (map (renderParticle fmt) (rev (filter (\<lambda>q. 0 < p_alpha q) qs))))"
      using Suc.IH [OF len, of k1 ops] unfolding t d sa by simp
    finally show ?thesis
      using True by (simp add: all)
  next
    case False
    let ?ps = "ps[n := p]"
    have len: "n \<le> length ?ps" using n by simp
    have t: "take n ?ps = take n ps" by simp
    have d: "drop n ?ps = p # drop (Suc n) ps"
      using n by (simp add: upd_conv_take_nth_drop)
    have "particlesLoop fmt rnd (Suc n) (ps, k, ops)
        = particlesLoop fmt rnd n (?ps, k1, ops @ renderParticle fmt p)"
      using False sp by (simp add: Let_def)
    also have "\<dots> = (filter (\<lambda>q. 0 < p_alpha q) qs @ p # drop (Suc n) ps, k2,
        (ops @ renderParticle fmt p)
          @ concat (map (renderParticle fmt) (rev (filter (\<lambda>q. 0 < p_alpha q) qs))))"
      using Suc.IH [OF len, of k1 "ops @ renderParticle fmt p"] unfolding t d sa by simp
    finally show ?thesis
      using False by (simp add: all)
  qed
qed

lemma updateParticles_filter:
  "updateParticles fmt rnd (ps, k, ops) =
      (filter (\<lambda>q. 0 < p_alpha q) (fst (stepAll rnd k ps)),
       snd (stepAll rnd k ps),
       ops @ concat (map (renderParticle fmt)
                (rev (filter (\<lambda>q. 0 < p_alpha q) (fst (stepAll rnd k ps))))))"
  by (simp add: updateParticles_def particlesLoop_filter)

lemma step_plain:
  assumes "\<not> truthy_bool (p_shimmer p)"
  shows "p_alpha (fst (stepParticle rnd k p)) = fl64 (p_alpha p - p_decay p)"
    and "snd (stepParticle rnd k p) = k"
    and "fst (stepParticle rnd k p) = fst (stepParticle rnd 0 p)"
  using assms by (simp_all add: stepParticle_def Let_def)

lemma step_keeps_flags:
  "p_shimmer (fst (stepParticle rnd k p)) = p_shimmer p"
  "p_decay (fst (stepParticle rnd k p)) = p_decay p"
  by (simp_all add: stepParticle_def Let_def split: prod.splits)

lemma step_shimmer:
  assumes "truthy_bool (p_shimmer p)"
  shows "p_alpha (fst (stepParticle rnd k p)) =
      (if rnd k > fl64 0.85 then fl64 (fl64 (rnd (k + 1) * fl64 0.4) + fl64 0.6)
       else fl64 (p_alpha p - p_decay p))"
  using assms by (simp add: stepParticle_def Let_def)

lemma aged_Suc: "agedParticle rnd p (Suc n) = fst (stepParticle rnd 0 (agedParticle rnd p n))"
  by (simp add: agedParticle_def)

lemma aged_flags:
  "p_shimmer (agedParticle rnd p n) = p_shimmer p"
  "p_decay (agedParticle rnd p n) = p_decay p"
  by (induction n) (simp_all add: aged_Suc step_keeps_flags, simp_all add: agedParticle_def)

lemma aged_alpha:
  assumes "\<not> truthy_bool (p_shimmer p)"
    and "\<forall>j<n. fl64 (p_alpha p - real (Suc j) * p_decay p)
            = p_alpha p - real (Suc j) * p_decay p"
  shows "p_alpha (agedParticle rnd p n) = p_alpha p - real n * p_decay p"
  using assms(2)
proof (induction n)
  case 0
  then show ?case by (simp add: agedParticle_def)
next
  case (Suc n)
  then have ih: "p_alpha (agedParticle rnd p n) = p_alpha p - real n * p_decay p"
    and fx: "fl64 (p_alpha p - real (Suc n) * p_decay p) = p_alpha p - real (Suc n) * p_decay p"
    by simp_all
  have "\<not> truthy_bool (p_shimmer (agedParticle rnd p n))"
    using assms(1) by (simp add: aged_flags)
  then have "p_alpha (agedParticle rnd p (Suc n))
      = fl64 (p_alpha (agedParticle rnd p n) - p_decay (agedParticle rnd p n))"
    unfolding aged_Suc by (rule step_plain(1))
  also have "p_alpha (agedParticle rnd p n) - p_decay (agedParticle rnd p n)
      = p_alpha p - real (Suc n) * p_decay p"
    by (simp add: ih aged_flags algebra_simps)
  finally show ?case by (simp only: fx)
qed

lemma stepAll_plain:
  assumes "list_all (\<lambda>q. \<not> truthy_bool (p_shimmer q)) ps"
  shows "stepAll rnd k ps = (map (\<lambda>q. fst (stepParticle rnd 0 q)) ps, k)"
  using assms
proof (induction ps)
  case Nil
  then show ?case by simp
next
  case (Cons p ps)
  then have p: "\<not> truthy_bool (p_shimmer p)" by simp
  have "stepParticle rnd k p = (fst (stepParticle rnd 0 p), k)"
    using step_plain(2,3) [OF p, of rnd k] by (metis prod.collapse)
  then show ?case using Cons by simp
qed

lemma stillLive_Suc:
  "stillLive rnd p (Suc n) \<longleftrightarrow> stillLive rnd p n \<and> 0 < p_alpha (agedParticle rnd p (Suc n))"
  by (auto simp: stillLive_def list_all_iff less_Suc_eq)

lemma plain_after_frames:
  assumes "list_all (\<lambda>q. \<not> truthy_bool (p_shimmer q)) ps"
  shows "(updateParticles fmt rnd ^^ n) (ps, k, ops) =
      (map (\<lambda>q. agedParticle rnd q n) (filter (\<lambda>q. stillLive rnd q n) ps), k,
       snd (snd ((updateParticles fmt rnd ^^ n) (ps, k, ops))))"
proof (induction n)
  case 0
  then show ?case by (simp add: agedParticle_def stillLive_def)
next
  case (Suc n)
  let ?qs = "map (\<lambda>q. agedParticle rnd q n) (filter (\<lambda>q. stillLive rnd q n) ps)"
  obtain ops' where st: "(updateParticles fmt rnd ^^ n) (ps, k, ops) = (?qs, k, ops')"
    using Suc by (metis)
  have pl: "list_all (\<lambda>q. \<not> truthy_bool (p_shimmer q)) ?qs"
    using assms by (auto simp: list_all_iff aged_flags)
  have "(updateParticles fmt rnd ^^ Suc n) (ps, k, ops) = updateParticles fmt rnd (?qs, k, ops')"
    by (simp add: st)
  also have "fst \<dots> = filter (\<lambda>q. 0 < p_alpha q) (map (\<lambda>q. fst (stepParticle rnd 0 q)) ?qs)"
    and "fst (snd (updateParticles fmt rnd (?qs, k, ops'))) = k"
    unfolding updateParticles_filter stepAll_plain [OF pl] by simp_all
  ultimately have "fst ((updateParticles fmt rnd ^^ Suc n) (ps, k, ops))
        = filter (\<lambda>q. 0 < p_alpha q) (map (\<lambda>q. fst (stepParticle rnd 0 q)) ?qs)"
    and "fst (snd ((updateParticles fmt rnd ^^ Suc n) (ps, k, ops))) = k"
    by simp_all
  moreover have "filter (\<lambda>q. 0 < p_alpha q) (map (\<lambda>q. fst (stepParticle rnd 0 q)) ?qs)
      = map (\<lambda>q. agedParticle rnd q (Suc n)) (filter (\<lambda>q. stillLive rnd q (Suc n)) ps)"
    by (simp add: filter_map o_def aged_Suc stillLive_Suc conj_commute)
  ultimately show ?case
    by (metis prod.collapse)
qed

section \<open>Properties of the binary64 countdown\<close>

text \<open>
  The rounding returns a number within half a unit in the last place of the exact
  value, with a significand of at most 53 bits, and the subtraction rounds the exact
  difference.
\<close>

lemma b64_round_nearest:
  assumes "b64_round m e = (q, e')"
  shows "e \<le> e' \<and> \<bar>q * 2 ^ nat (e' - e) - m\<bar> * 2 \<le> 2 ^ nat (e' - e)"
proof -
  define x where "x = max (bitlen \<bar>m\<bar> - 53) (- 1074 - e)"
  show ?thesis
  proof (cases "x \<le> 0")
    case True
    then have "b64_round m e = (m, e)" by (simp add: b64_round_def x_def Let_def)
    with assms show ?thesis by simp
  next
    case False
    define d :: int where "d = 2 ^ nat x"
    define h :: int where "h = 2 ^ nat (x - 1)"
    have hd: "h * 2 = d"
      using False unfolding h_def d_def
      by (metis (no_types, opaque_lifting) Suc_nat_eq_nat_zadd1 add.commute diff_add_cancel
          mult.commute not_le power_Suc zle_diff1_eq)
    have dpos: "0 < d" by (simp add: d_def)
    have r: "0 \<le> m mod d" "m mod d < d" using dpos by simp_all
    have m: "m = m div d * d + m mod d" by simp
    have res: "q = (if m mod d > h \<or> (m mod d = h \<and> odd (m div d)) then m div d + 1 else m div d)"
      and e': "e' = e + x"
      using assms False by (auto simp: b64_round_def x_def [symmetric] Let_def d_def h_def)
    have ex: "nat (e' - e) = nat x" using e' by simp
    show ?thesis
    proof (cases "m mod d > h \<or> (m mod d = h \<and> odd (m div d))")
      case True
      then have q: "q = m div d + 1" and ge: "h \<le> m mod d" using res by auto
      have "q * d - m = d - m mod d"
        unfolding q using m by (simp add: algebra_simps)
      then have "\<bar>q * d - m\<bar> * 2 \<le> d" using ge r hd by simp
      then show ?thesis using e' False by (simp add: ex d_def)
    next
      case nr: False
      then have q: "q = m div d" and le: "m mod d \<le> h" using res by auto
      have "q * d - m = - (m mod d)"
        unfolding q using m by (simp add: algebra_simps)
      then have "\<bar>q * d - m\<bar> * 2 \<le> d" using le r hd by simp
      then show ?thesis using e' False by (simp add: ex d_def)
    qed
  qed
qed

lemma shift_value:
  assumes "e \<le> a"
  shows "real_of_int (m * 2 ^ nat (a - e)) * 2 powi e = real_of_int m * 2 powi a"
proof -
  have "(2::real) ^ nat (a - e) = 2 powi (a - e)"
    using assms by (simp add: power_int_def)
  then have "real_of_int (m * 2 ^ nat (a - e)) * 2 powi e = real_of_int m * (2 powi (a - e) * 2 powi e)"
    by simp
  also have "(2::real) powi (a - e) * 2 powi e = 2 powi (a - e + e)"
    by (intro power_int_add [symmetric]) simp
  finally show ?thesis by simp
qed

lemma b64_sub_rounds_difference:
  "b64_sub a b = b64_round (fst a * 2 ^ nat (snd a - min (snd a) (snd b))
                             - fst b * 2 ^ nat (snd b - min (snd a) (snd b)))
                           (min (snd a) (snd b))
   \<and> real_of_int (fst a * 2 ^ nat (snd a - min (snd a) (snd b))
                   - fst b * 2 ^ nat (snd b - min (snd a) (snd b)))
        * 2 powi (min (snd a) (snd b))
      = b64_val a - b64_val b"
proof -
  let ?e = "min (snd a) (snd b)"
  have "real_of_int (fst a * 2 ^ nat (snd a - ?e) - fst b * 2 ^ nat (snd b - ?e)) * 2 powi ?e
      = real_of_int (fst a * 2 ^ nat (snd a - ?e)) * 2 powi ?e
        - real_of_int (fst b * 2 ^ nat (snd b - ?e)) * 2 powi ?e"
    by (simp add: algebra_simps)
  also have "\<dots> = b64_val a - b64_val b"
    unfolding b64_val_def by (simp only: shift_value min.cobounded1 min.cobounded2)
  finally show ?thesis by (simp add: b64_sub_def Let_def)
qed

text \<open>The operations on pairs compute the rounded operations on the values.\<close>

lemma fl64_sub:
  assumes "- 1074 \<le> snd a" and "- 1074 \<le> snd b"
  shows "fl64 (b64_val a - b64_val b) = b64_val (b64_sub a b)"
    and "- 1074 \<le> snd (b64_sub a b)"
proof -
  let ?e = "min (snd a) (snd b)"
  let ?m = "fst a * 2 ^ nat (snd a - ?e) - fst b * 2 ^ nat (snd b - ?e)"
  have e: "- 1074 \<le> ?e" using assms by simp
  have r: "b64_sub a b = b64_round ?m ?e"
    and v: "real_of_int ?m * 2 powi ?e = b64_val a - b64_val b"
    using b64_sub_rounds_difference [of a b] by blast+
  show "fl64 (b64_val a - b64_val b) = b64_val (b64_sub a b)"
    using fl64_b64_round [OF e, of ?m] by (simp only: r v)
  obtain q e' where q: "b64_round ?m ?e = (q, e')" by (cases "b64_round ?m ?e") blast
  then have "?e \<le> e'" using b64_round_nearest by blast
  then show "- 1074 \<le> snd (b64_sub a b)" using e by (simp only: r q snd_conv)
qed

lemma fl64_mul:
  assumes "- 1074 \<le> snd a + snd b"
  shows "fl64 (b64_val a * b64_val b) = b64_val (b64_mul a b)"
proof -
  have "(2::real) powi (snd a + snd b) = 2 powi snd a * 2 powi snd b"
    by (rule power_int_add) simp
  then have "b64_val a * b64_val b = real_of_int (fst a * fst b) * 2 powi (snd a + snd b)"
    by (simp add: b64_val_def)
  then show ?thesis
    using fl64_b64_round [OF assms, of "fst a * fst b"] by (simp only: b64_mul_def)
qed

lemma b64_round_significand:
  assumes "b64_round m e = (q, e')"
  shows "\<bar>q\<bar> \<le> max \<bar>m\<bar> (2 ^ 53)"
proof -
  define x where "x = max (bitlen \<bar>m\<bar> - 53) (- 1074 - e)"
  show ?thesis
  proof (cases "x \<le> 0")
    case True
    then have "b64_round m e = (m, e)" by (simp add: b64_round_def x_def Let_def)
    with assms show ?thesis by simp
  next
    case False
    define d :: int where "d = 2 ^ nat x"
    have dpos: "0 < d" by (simp add: d_def)
    have x53: "bitlen \<bar>m\<bar> \<le> 53 + x" by (simp add: x_def)
    have "\<bar>m\<bar> < 2 ^ nat (bitlen \<bar>m\<bar>)"
      by (cases "m = 0") (use bitlen_bounds [of "\<bar>m\<bar>"] in simp_all)
    also have "(2::int) ^ nat (bitlen \<bar>m\<bar>) \<le> 2 ^ nat (53 + x)"
      using x53 by (intro power_increasing) simp_all
    also have "(2::int) ^ nat (53 + x) = 2 ^ 53 * d"
      using False by (simp add: d_def nat_add_distrib power_add)
    finally have b: "\<bar>m\<bar> < 2 ^ 53 * d" .
    have md: "m = m div d * d + m mod d" by simp
    have r: "0 \<le> m mod d" "m mod d < d" using dpos by simp_all
    have up: "m div d < 2 ^ 53"
    proof (rule ccontr)
      assume "\<not> m div d < 2 ^ 53"
      then have "2 ^ 53 * d \<le> m div d * d"
        using dpos by (intro mult_right_mono) simp_all
      also have "\<dots> \<le> m" using md r(1) by linarith
      finally show False using b by simp
    qed
    have lo: "- (2 ^ 53) \<le> m div d"
    proof (rule ccontr)
      assume "\<not> - (2 ^ 53) \<le> m div d"
      then have "m div d + 1 \<le> - (2 ^ 53)" by simp
      then have "(m div d + 1) * d \<le> - (2 ^ 53) * d"
        using dpos by (intro mult_right_mono) simp_all
      moreover have "(m div d + 1) * d = m div d * d + d" by (simp add: algebra_simps)
      moreover have "m < m div d * d + d" using md r(2) by linarith
      ultimately have "m < - (2 ^ 53) * d" by linarith
      then show False using b by simp
    qed
    have "q = m div d \<or> q = m div d + 1"
      using assms False
      by (auto simp: b64_round_def x_def [symmetric] Let_def d_def split: if_splits)
    then have "\<bar>q\<bar> \<le> 2 ^ 53" using up lo by auto
    then show ?thesis by simp
  qed
qed

text \<open>The countdown from 1 in steps of the binary64 value of 0.1.\<close>

lemma countdown_bitlens:
  "bitlen (64851834634135142::int) = 56"
  "bitlen (57646075230342350::int) = 56"
  "bitlen (50440315826549558::int) = 56"
  "bitlen (43234556422756766::int) = 56"
  "bitlen (36028797018963974::int) = 56"
  "bitlen (28823037615171182::int) = 55"
  "bitlen (21617278211378390::int) = 55"
  "bitlen (14411518807585598::int) = 54"
  "bitlen (7205759403792804::int) = 53"
  "bitlen (10::int) = 4"
  "bitlen (72057594037927940::int) = 57"
  "bitlen (0::int) = 0"
  "bitlen (7205759403792784::int) = 53"
  by code_simp+

lemma countdown_steps:
  "b64_sub (1, 0) b64_tenth = (8106479329266893, - 53)"
  "b64_sub (8106479329266893, - 53) b64_tenth = (7205759403792794, - 53)"
  "b64_sub (7205759403792794, - 53) b64_tenth = (6305039478318695, - 53)"
  "b64_sub (6305039478318695, - 53) b64_tenth = (5404319552844596, - 53)"
  "b64_sub (5404319552844596, - 53) b64_tenth = (4503599627370497, - 53)"
  "b64_sub (4503599627370497, - 53) b64_tenth = (7205759403792796, - 54)"
  "b64_sub (7205759403792796, - 54) b64_tenth = (5404319552844598, - 54)"
  "b64_sub (5404319552844598, - 54) b64_tenth = (7205759403792799, - 55)"
  "b64_sub (7205759403792799, - 55) b64_tenth = (7205759403792804, - 56)"
  "b64_sub (7205759403792804, - 56) b64_tenth = (10, - 56)"
  "b64_sub (10, - 56) b64_tenth = (- 7205759403792784, - 56)"
  by (simp_all add: b64_sub_def b64_round_def b64_tenth_def Let_def countdown_bitlens)

lemma alpha64_Suc: "alpha64 a d (Suc n) = b64_sub (alpha64 a d n) d"
  by (simp add: alpha64_def)

lemma alpha64_0: "alpha64 a d 0 = a"
  by (simp add: alpha64_def)

lemma countdown_ten: "alpha64 (1, 0) b64_tenth 10 = (10, - 56)"
  by (simp add: eval_nat_numeral alpha64_Suc alpha64_0 countdown_steps)

lemma countdown_eleven: "alpha64 (1, 0) b64_tenth 11 = (- 7205759403792784, - 56)"
  by (simp add: eval_nat_numeral alpha64_Suc alpha64_0 countdown_steps)

lemma closed_form_ten:
  "b64_mul (10, 0) b64_tenth = (4503599627370496, - 52)"
  "b64_sub (1, 0) (4503599627370496, - 52) = (0, - 52)"
  by (simp_all add: b64_mul_def b64_sub_def b64_round_def b64_tenth_def Let_def countdown_bitlens)

lemma tenth_nearest: "\<bar>b64_val b64_tenth - 1 / 10\<bar> < 2 powi (- 57) \<and> 2 ^ 52 \<le> fst b64_tenth \<and> fst b64_tenth < 2 ^ 53"
  by (simp add: b64_val_def b64_tenth_def power_int_minus field_simps)

section \<open>Particle claims\<close>

lemma ember_fields:
  "p_alpha ember = 1" "p_decay ember = fl64 0.1" "p_shimmer ember = None"
  "p_color ember = ''hsl(0, 100%, 65%)''"
  by (simp_all add: ember_def stored_def overrideBurst_def upt_conv_Cons quarter_steps(1)
      del: upt_Suc)

lemma ember_decay: "p_decay ember = b64_val b64_tenth"
  unfolding ember_fields(2) literals(1)
  by (simp add: b64_val_def b64_tenth_def power_int_minus)

text \<open>The stored alpha of a particle without shimmer is the countdown on pairs.\<close>

lemma aged_alpha64:
  assumes "\<not> truthy_bool (p_shimmer p)"
    and "p_alpha p = b64_val a" and "p_decay p = b64_val d"
    and "- 1074 \<le> snd a" and "- 1074 \<le> snd d"
  shows "p_alpha (agedParticle rnd p n) = b64_val (alpha64 a d n)
      \<and> - 1074 \<le> snd (alpha64 a d n)"
proof (induction n)
  case 0
  then show ?case using assms(2,4) by (simp add: agedParticle_def alpha64_0)
next
  case (Suc n)
  have "\<not> truthy_bool (p_shimmer (agedParticle rnd p n))"
    using assms(1) by (simp add: aged_flags)
  then have "p_alpha (agedParticle rnd p (Suc n))
      = fl64 (p_alpha (agedParticle rnd p n) - p_decay (agedParticle rnd p n))"
    unfolding aged_Suc by (rule step_plain(1))
  also have "\<dots> = fl64 (b64_val (alpha64 a d n) - b64_val d)"
    using Suc by (simp add: aged_flags assms(3))
  also have "\<dots> = b64_val (b64_sub (alpha64 a d n) d)"
    using Suc assms(5) by (intro fl64_sub(1)) simp_all
  finally have "p_alpha (agedParticle rnd p (Suc n)) = b64_val (alpha64 a d (Suc n))"
    by (simp only: alpha64_Suc)
  moreover have "- 1074 \<le> snd (alpha64 a d (Suc n))"
    unfolding alpha64_Suc using Suc assms(5) by (intro fl64_sub(2)) simp_all
  ultimately show ?case by blast
qed

lemma ember_alpha:
  "p_alpha (agedParticle rnd ember n) = b64_val (alpha64 (1, 0) b64_tenth n)"
proof -
  have "\<not> truthy_bool (p_shimmer ember)" by (simp add: ember_fields)
  moreover have "p_alpha ember = b64_val (1, 0)" by (simp add: ember_fields b64_val_def)
  moreover have "- 1074 \<le> snd ((1, 0) :: b64)" and "- 1074 \<le> snd b64_tenth"
    by (simp_all add: b64_tenth_def)
  ultimately show ?thesis using aged_alpha64 ember_decay by blast
qed

lemma ember_live: "stillLive rnd ember 10" and ember_gone: "\<not> stillLive rnd ember 11"
  by (simp_all add: eval_nat_numeral stillLive_Suc stillLive_def ember_alpha alpha64_Suc
      alpha64_0 countdown_steps b64_val_def)

lemma ember_frames:
  "fst ((updateParticles fmt rnd ^^ 10) ([ember], k, ops)) = [agedParticle rnd ember 10]"
  "fst ((updateParticles fmt rnd ^^ 11) ([ember], k, ops)) = []"
proof -
  have pl: "list_all (\<lambda>q. \<not> truthy_bool (p_shimmer q)) [ember]"
    by (simp add: ember_fields)
  show "fst ((updateParticles fmt rnd ^^ 10) ([ember], k, ops)) = [agedParticle rnd ember 10]"
    using plain_after_frames [OF pl, where fmt = fmt and rnd = rnd and n = 10 and k = k
        and ops = ops] ember_live [of rnd] by (metis (no_types, lifting) filter.simps fst_conv list.simps(8,9))
  show "fst ((updateParticles fmt rnd ^^ 11) ([ember], k, ops)) = []"
    using plain_after_frames [OF pl, where fmt = fmt and rnd = rnd and n = 11 and k = k
        and ops = ops] ember_gone [of rnd] by (metis (no_types, lifting) filter.simps fst_conv list.simps(8))
qed

lemma closed_form_at_ten: "fl64 (1 - fl64 (10 * fl64 0.1)) = 0"
proof -
  have t: "fl64 0.1 = b64_val b64_tenth"
    unfolding literals(1) by (simp add: b64_val_def b64_tenth_def power_int_minus)
  have "fl64 (b64_val (10, 0) * b64_val b64_tenth) = b64_val (b64_mul (10, 0) b64_tenth)"
    by (rule fl64_mul) (simp add: b64_tenth_def)
  then have m: "fl64 (10 * fl64 0.1) = b64_val (4503599627370496, - 52)"
    unfolding t closed_form_ten(1) by (simp add: b64_val_def)
  have "fl64 (b64_val (1, 0) - b64_val (4503599627370496, - 52))
      = b64_val (b64_sub (1, 0) (4503599627370496, - 52))"
    by (rule fl64_sub(1)) simp_all
  then have "fl64 (1 - b64_val (4503599627370496, - 52)) = 0"
    unfolding closed_form_ten(2) by (simp add: b64_val_def)
  then show ?thesis by (simp only: m)
qed

lemma shimmer_stays_bright:
  assumes "\<forall>j. rnd j = 0.9" and "truthy_bool (p_shimmer p)"
  shows "\<exists>q k' ops'. (updateParticles fmt rnd ^^ n) ([p], k, ops) = ([q], k', ops')
           \<and> truthy_bool (p_shimmer q)"
proof (induction n)
  case 0
  then show ?case using assms(2) by simp
next
  case (Suc n)
  then obtain q k' ops' where st: "(updateParticles fmt rnd ^^ n) ([p], k, ops) = ([q], k', ops')"
    and q: "truthy_bool (p_shimmer q)" by blast
  obtain q' k2 where sp: "stepParticle rnd k' q = (q', k2)"
    by (cases "stepParticle rnd k' q") blast
  have r9: "rnd k' = 0.9" "rnd (k' + 1) = 0.9" using assms(1) by blast+
  have gt: "fl64 0.85 < rnd k'"
    unfolding literals(4) r9 by simp
  have "p_alpha q' = fl64 (fl64 (rnd (k' + 1) * fl64 0.4) + fl64 0.6)"
    using step_shimmer [OF q, of rnd k'] gt sp by simp
  moreover have "fl64 0.6 \<le> fl64 (fl64 (rnd (k' + 1) * fl64 0.4) + fl64 0.6)"
    unfolding r9 by (intro brighten_range(1)) simp_all
  moreover have "0 < fl64 0.6" unfolding literals(3) by simp
  ultimately have a: "0 < p_alpha q'" by linarith
  have s: "truthy_bool (p_shimmer q')"
    using step_keeps_flags(1) [of rnd k' q] sp q by simp
  have "(updateParticles fmt rnd ^^ Suc n) ([p], k, ops) = updateParticles fmt rnd ([q], k', ops')"
    by (simp add: st)
  also have "\<dots> = ([q'], k2, ops' @ renderParticle fmt q')"
    unfolding updateParticles_filter using a by (simp add: sp)
  finally show ?case using s by blast
qed

text \<open>
  C2 (as amended). For a particle without the shimmer flag one frame step replaces the
  stored alpha by the binary64 difference \<open>alpha - decay\<close> and takes no draw; the alpha
  after \<open>n\<close> frame steps is the result of \<open>n\<close> rounded subtractions, and it is
  \<open>initialAlpha - n \<sqdot> decay\<close> when each of the differences \<open>initialAlpha - j \<sqdot> decay\<close>,
  \<open>j = 1, \<dots>, n\<close>, is a binary64 number. The particle loop keeps exactly the particles
  whose stored alpha is positive after their update: a particle is removed in the
  frame in which its stored alpha becomes \<open>\<le> 0\<close>, and a set of particles without shimmer
  after \<open>n\<close> frames consists of those whose stored alpha was positive after each of these
  frames. For a particle with the shimmer flag the re-brightening is applied after the
  subtraction: when the test draw exceeds the binary64 value of 0.85 (the upper part of
  the unit interval, of length 0.15) the alpha is the binary64 value of
  \<open>draw \<sqdot> 0.4 + 0.6\<close>, which for a draw in \<open>[0, 1)\<close> lies in the closed interval from the
  binary64 value of 0.6 to 1, and it is the rounded \<open>alpha - decay\<close> otherwise; with every
  draw equal to 0.9 such a particle is live after every number of frames, whatever its
  decay. Each of the three literals is rounded by less than \<open>2\<^sup>-\<^sup>5\<^sup>4\<close>.
\<close>

theorem C2_alpha_decay_then_shimmer:
  "(\<not> truthy_bool (p_shimmer p) \<longrightarrow>
        p_alpha (fst (stepParticle rnd k p)) = fl64 (p_alpha p - p_decay p)
      \<and> snd (stepParticle rnd k p) = k
      \<and> ((\<forall>j<n. fl64 (p_alpha p - real (Suc j) * p_decay p)
                  = p_alpha p - real (Suc j) * p_decay p) \<longrightarrow>
           p_alpha (agedParticle rnd p n) = p_alpha p - real n * p_decay p))
   \<and> fst (updateParticles fmt rnd (ps, k, ops))
        = filter (\<lambda>q. 0 < p_alpha q) (fst (stepAll rnd k ps))
   \<and> (list_all (\<lambda>q. \<not> truthy_bool (p_shimmer q)) ps \<longrightarrow>
        fst ((updateParticles fmt rnd ^^ n) (ps, k, ops))
          = map (\<lambda>q. agedParticle rnd q n) (filter (\<lambda>q. stillLive rnd q n) ps))
   \<and> (truthy_bool (p_shimmer p) \<longrightarrow>
        p_alpha (fst (stepParticle rnd k p))
          = (if rnd k > fl64 0.85 then fl64 (fl64 (rnd (k + 1) * fl64 0.4) + fl64 0.6)
             else fl64 (p_alpha p - p_decay p))
      \<and> (unitDraws rnd \<longrightarrow>
            fl64 0.6 \<le> fl64 (fl64 (rnd (k + 1) * fl64 0.4) + fl64 0.6)
          \<and> fl64 (fl64 (rnd (k + 1) * fl64 0.4) + fl64 0.6) \<le> 1)
      \<and> ((\<forall>j. rnd j = 0.9) \<longrightarrow>
            length (fst ((updateParticles fmt rnd ^^ n) ([p], k, ops))) = 1))
   \<and> \<bar>fl64 0.85 - 0.85\<bar> < 1 / 2 ^ 54 \<and> \<bar>fl64 0.4 - 0.4\<bar> < 1 / 2 ^ 54
   \<and> \<bar>fl64 0.6 - 0.6\<bar> < 1 / 2 ^ 54"
proof -
  have 1: "\<not> truthy_bool (p_shimmer p) \<longrightarrow>
        p_alpha (fst (stepParticle rnd k p)) = fl64 (p_alpha p - p_decay p)
      \<and> snd (stepParticle rnd k p) = k
      \<and> ((\<forall>j<n. fl64 (p_alpha p - real (Suc j) * p_decay p)
                  = p_alpha p - real (Suc j) * p_decay p) \<longrightarrow>
           p_alpha (agedParticle rnd p n) = p_alpha p - real n * p_decay p)"
    using step_plain(1,2) [of p rnd k] aged_alpha [of p n rnd] by blast
  have 2: "fst (updateParticles fmt rnd (ps, k, ops))
        = filter (\<lambda>q. 0 < p_alpha q) (fst (stepAll rnd k ps))"
    by (simp add: updateParticles_filter)
  have 3: "list_all (\<lambda>q. \<not> truthy_bool (p_shimmer q)) ps \<longrightarrow>
        fst ((updateParticles fmt rnd ^^ n) (ps, k, ops))
          = map (\<lambda>q. agedParticle rnd q n) (filter (\<lambda>q. stillLive rnd q n) ps)"
    using plain_after_frames [where ps = ps and fmt = fmt and rnd = rnd and n = n and k = k
        and ops = ops] by (metis fst_conv)
  have b: "unitDraws rnd \<longrightarrow>
            fl64 0.6 \<le> fl64 (fl64 (rnd (k + 1) * fl64 0.4) + fl64 0.6)
          \<and> fl64 (fl64 (rnd (k + 1) * fl64 0.4) + fl64 0.6) \<le> 1"
  proof
    assume "unitDraws rnd"
    then have "0 \<le> rnd (k + 1)" "rnd (k + 1) < 1" by (simp_all add: unitDraws_def)
    then show "fl64 0.6 \<le> fl64 (fl64 (rnd (k + 1) * fl64 0.4) + fl64 0.6)
          \<and> fl64 (fl64 (rnd (k + 1) * fl64 0.4) + fl64 0.6) \<le> 1"
      using brighten_range [of "rnd (k + 1)"] by blast
  qed
  have 4: "truthy_bool (p_shimmer p) \<longrightarrow>
        p_alpha (fst (stepParticle rnd k p))
          = (if rnd k > fl64 0.85 then fl64 (fl64 (rnd (k + 1) * fl64 0.4) + fl64 0.6)
             else fl64 (p_alpha p - p_decay p))
      \<and> (unitDraws rnd \<longrightarrow>
            fl64 0.6 \<le> fl64 (fl64 (rnd (k + 1) * fl64 0.4) + fl64 0.6)
          \<and> fl64 (fl64 (rnd (k + 1) * fl64 0.4) + fl64 0.6) \<le> 1)
      \<and> ((\<forall>j. rnd j = 0.9) \<longrightarrow>
            length (fst ((updateParticles fmt rnd ^^ n) ([p], k, ops))) = 1)"
  proof (intro impI conjI)
    assume s: "truthy_bool (p_shimmer p)"
    show "p_alpha (fst (stepParticle rnd k p))
          = (if rnd k > fl64 0.85 then fl64 (fl64 (rnd (k + 1) * fl64 0.4) + fl64 0.6)
             else fl64 (p_alpha p - p_decay p))"
      by (rule step_shimmer [OF s])
    show "unitDraws rnd \<Longrightarrow> fl64 0.6 \<le> fl64 (fl64 (rnd (k + 1) * fl64 0.4) + fl64 0.6)"
      using b by blast
    show "unitDraws rnd \<Longrightarrow> fl64 (fl64 (rnd (k + 1) * fl64 0.4) + fl64 0.6) \<le> 1"
      using b by blast
    assume "\<forall>j. rnd j = 0.9"
    from shimmer_stays_bright [OF this s, where fmt = fmt and n = n and k = k and ops = ops]
    show "length (fst ((updateParticles fmt rnd ^^ n) ([p], k, ops))) = 1" by auto
  qed
  have 5: "\<bar>fl64 0.85 - 0.85\<bar> < 1 / 2 ^ 54" and 6: "\<bar>fl64 0.4 - 0.4\<bar> < 1 / 2 ^ 54"
    and 7: "\<bar>fl64 0.6 - 0.6\<bar> < 1 / 2 ^ 54"
    unfolding literals by simp_all
  show ?thesis by (intro conjI) (rule 1 2 3 4 5 6 7)+
qed

theorem C2_alpha_decay_witness:
  "p_alpha (fst (stepParticle (\<lambda>j. 9 / 10) 0 (ember\<lparr>p_decay := 1 / 4\<rparr>))) = 3 / 4
   \<and> p_alpha (agedParticle (\<lambda>j. 9 / 10) (ember\<lparr>p_decay := 1 / 4\<rparr>) 4) = 0
   \<and> fst ((updateParticles (\<lambda>a. ''1'') (\<lambda>j. 9 / 10) ^^ 10) ([ember], 0, []))
        = map (\<lambda>q. agedParticle (\<lambda>j. 9 / 10) q 10)
            (filter (\<lambda>q. stillLive (\<lambda>j. 9 / 10) q 10) [ember])
   \<and> fl64 0.6 \<le> p_alpha (fst (stepParticle (\<lambda>j. 9 / 10) 0 (ember\<lparr>p_shimmer := Some True\<rparr>)))
   \<and> p_alpha (fst (stepParticle (\<lambda>j. 9 / 10) 0 (ember\<lparr>p_shimmer := Some True\<rparr>))) \<le> 1
   \<and> length (fst ((updateParticles (\<lambda>a. ''1'') (\<lambda>j. 9 / 10) ^^ 10)
        ([ember\<lparr>p_shimmer := Some True\<rparr>], 0, []))) = 1"
proof -
  let ?q = "ember\<lparr>p_decay := 1 / 4\<rparr>" and ?s = "ember\<lparr>p_shimmer := Some True\<rparr>"
  let ?rnd = "\<lambda>j::nat. 9 / 10 :: real" and ?fmt = "\<lambda>a::real. ''1''"
  have a: "\<not> truthy_bool (p_shimmer ?q)" by (simp add: ember_fields)
  have b: "list_all (\<lambda>q. \<not> truthy_bool (p_shimmer q)) [ember]" by (simp add: ember_fields)
  have c: "truthy_bool (p_shimmer ?s)" by simp
  have d: "\<forall>j::nat. ?rnd j = 0.9" by simp
  have u: "unitDraws ?rnd" by (simp add: unitDraws_def)
  have g: "?rnd 0 > fl64 0.85" unfolding literals(4) by simp
  have h: "\<forall>j<4. fl64 (p_alpha ?q - real (Suc j) * p_decay ?q)
      = p_alpha ?q - real (Suc j) * p_decay ?q"
  proof (intro allI impI)
    fix j :: nat assume "j < 4"
    then consider "j = 0" | "j = 1" | "j = 2" | "j = 3" by linarith
    then show "fl64 (p_alpha ?q - real (Suc j) * p_decay ?q)
      = p_alpha ?q - real (Suc j) * p_decay ?q"
      by cases (simp_all add: ember_fields quarter_steps fl64_0)
  qed
  note A = C2_alpha_decay_then_shimmer [where p = ?q and rnd = ?rnd and k = 0 and n = 4
      and fmt = ?fmt and ps = "[ember]" and ops = "[]"]
  note B = C2_alpha_decay_then_shimmer [where p = ?s and rnd = ?rnd and k = 0 and n = 10
      and fmt = ?fmt and ps = "[ember]" and ops = "[]"]
  from A a h have 1: "p_alpha (fst (stepParticle ?rnd 0 ?q)) = 3 / 4"
    and 2: "p_alpha (agedParticle ?rnd ?q 4) = 0"
    by (simp_all add: ember_fields quarter_steps)
  from B b have 3: "fst ((updateParticles ?fmt ?rnd ^^ 10) ([ember], 0, []))
        = map (\<lambda>q. agedParticle ?rnd q 10) (filter (\<lambda>q. stillLive ?rnd q 10) [ember])"
    by blast
  from B c u g have 4: "fl64 0.6 \<le> p_alpha (fst (stepParticle ?rnd 0 ?s))"
    and 5: "p_alpha (fst (stepParticle ?rnd 0 ?s)) \<le> 1"
    by simp_all
  from B c d have 6: "length (fst ((updateParticles ?fmt ?rnd ^^ 10) ([?s], 0, []))) = 1"
    by blast
  show ?thesis by (intro conjI) (rule 1 2 3 4 5 6)+
qed

text \<open>
  The claim as stated equates the stored alpha with the closed form
  \<open>initialAlpha - N \<sqdot> decay\<close>, removes the particle on the first frame on which the closed
  form is \<open>\<le> 0\<close>, and puts the re-brightened alpha in the half-open interval
  \<open>[0.6, 1.0)\<close>. For a particle of the override burst (alpha 1, decay the binary64 value
  of 0.1, no shimmer) the closed form is positive at \<open>N = 9\<close> and \<open>\<le> 0\<close> at \<open>N = 10\<close>, and it
  evaluates to 0 in binary64 at \<open>N = 10\<close>; the stored alpha after ten frames is
  \<open>10 \<sqdot> 2\<^sup>-\<^sup>5\<^sup>6 > 0\<close>, so the particle is still live after frame 10 and is removed in
  frame 11. With the shimmer flag and the draw \<open>1 - 2\<^sup>-\<^sup>5\<^sup>3\<close>, a binary64 number in \<open>[0, 1)\<close>
  above the threshold, the re-brightened alpha is exactly 1.
\<close>

theorem C2_binary64_counterexample:
  "p_alpha ember = 1 \<and> p_decay ember = fl64 0.1 \<and> p_shimmer ember = None
   \<and> 0 < p_alpha ember - 9 * p_decay ember
   \<and> p_alpha ember - 10 * p_decay ember \<le> 0
   \<and> fl64 (1 - fl64 (10 * fl64 0.1)) = 0
   \<and> p_alpha (agedParticle (\<lambda>j. 1 / 2) ember 10) = 10 / 2 ^ 56
   \<and> length (fst ((updateParticles (\<lambda>a. ''1'') (\<lambda>j. 1 / 2) ^^ 10) ([ember], 0, []))) = 1
   \<and> fst ((updateParticles (\<lambda>a. ''1'') (\<lambda>j. 1 / 2) ^^ 11) ([ember], 0, [])) = []
   \<and> unitDraws (\<lambda>j. 1 - 1 / 2 ^ 53)
   \<and> fl64 (1 - 1 / 2 ^ 53) = 1 - 1 / 2 ^ 53
   \<and> p_alpha (fst (stepParticle (\<lambda>j. 1 - 1 / 2 ^ 53) 0 (ember\<lparr>p_shimmer := Some True\<rparr>))) = 1"
proof -
  have 1: "0 < p_alpha ember - 9 * p_decay ember"
    and 2: "p_alpha ember - 10 * p_decay ember \<le> 0"
    unfolding ember_fields literals by simp_all
  have 3: "p_alpha (agedParticle (\<lambda>j. 1 / 2) ember 10) = 10 / 2 ^ 56"
    unfolding ember_alpha countdown_ten by (simp add: b64_val_def power_int_minus)
  have 4: "length (fst ((updateParticles (\<lambda>a. ''1'') (\<lambda>j. 1 / 2) ^^ 10) ([ember], 0, []))) = 1"
    unfolding ember_frames by simp
  have 5: "unitDraws (\<lambda>j. 1 - 1 / 2 ^ 53)" by (simp add: unitDraws_def)
  have gt: "fl64 0.85 < 1 - 1 / 2 ^ 53" unfolding literals(4) by simp
  have "truthy_bool (p_shimmer (ember\<lparr>p_shimmer := Some True\<rparr>))" by simp
  from step_shimmer [OF this, of "\<lambda>j. 1 - 1 / 2 ^ 53" 0]
  have 6: "p_alpha (fst (stepParticle (\<lambda>j. 1 - 1 / 2 ^ 53) 0 (ember\<lparr>p_shimmer := Some True\<rparr>))) = 1"
    using gt by (simp only: if_True brighten_at_last_draw)
  show ?thesis
    by (intro conjI) (rule ember_fields(1-3) 1 2 closed_form_at_ten 3 4 ember_frames(2) 5
        draws_are_binary64(2) 6)+
qed

text \<open>
  C8 (the code at the three colour forms). The colour expression of the dot fill and
  of the trail stroke passes \<^verbatim>\<open>rgb(...)\<close> and \<^verbatim>\<open>hsl(...)\<close> strings through unchanged and
  wraps a comma triplet as \<^verbatim>\<open>rgba(r, g, b, alpha)\<close> with the current alpha. A hex
  string is wrapped in the same way, which gives \<^verbatim>\<open>rgba(#00FFFF, alpha)\<close>: the dot of a
  drone-display particle is filled with that style.
\<close>

theorem C8_style_of_each_colour_form:
  "particleStyle fmt (p\<lparr>p_color := ''#00FFFF''\<rparr>) = ''rgba(#00FFFF, '' @ fmt (p_alpha p) @ '')''
   \<and> particleStyle fmt (p\<lparr>p_color := ''255, 182, 193''\<rparr>)
        = ''rgba(255, 182, 193, '' @ fmt (p_alpha p) @ '')''
   \<and> particleStyle fmt (p\<lparr>p_color := ''rgb(0, 255, 255)''\<rparr>) = ''rgb(0, 255, 255)''
   \<and> particleStyle fmt (p\<lparr>p_color := ''hsl(200, 100%, 60%)''\<rparr>) = ''hsl(200, 100%, 60%)''
   \<and> renderParticle fmt (droneParticle (\<lambda>n. 0) 0 0 0 pt)
        = [BeginPath, Arc (pnt_x pt * 60) (pnt_y pt * 60) 0.8 0 (pi * 2),
           FillStyle (''rgba(#00FFFF, '' @ fmt 1 @ '')''), Fill]"
  by (simp add: particleStyle_def startsWith_def renderParticle_def droneParticle_def
      sizeOr2_def Let_def)


end
